(* ===== verification/Prelude.thy ===== *)
theory Prelude
  imports Main "HOL-Library.Word" "HOL-Library.Sublist"
begin

text \<open>
  Shared vocabulary of the development: the result of running a piece of the crate, byte strings,
  the few operations of Rust's standard library on strings and machine integers that the crate
  calls, and the lemma collections the component theories use.

  Byte strings.  Rust's \<open>String\<close>, \<open>&str\<close>, \<open>Vec<u8>\<close> and \<open>&[u8]\<close> are all modelled as
  \<open>string\<close>, a list of 8-bit characters: a Rust string is its UTF-8 encoding, \<open>as_bytes\<close> is the
  identity and \<open>len\<close> counts bytes.

  Profile.  Arithmetic on \<open>usize\<close> and \<open>u64\<close> counters is modelled as in a build with overflow
  checks and debug assertions: an overflow is a panic, never a silent wrap-around.
\<close>

section \<open>Outcomes\<close>

text \<open>
  Running a future against a finite script of events ends in one of four ways: it returned
  \<open>Ok\<close>, it returned \<open>Err\<close>, it panicked (with the message of the panic), or it is still waiting
  when the script is used up.  Synchronous functions of the crate use the same type and never
  yield \<open>Pending\<close>.
\<close>

datatype ('a, 'e) outcome = Ok 'a | Err 'e | Panic string | Pending

text \<open>The \<open>?\<close> operator and \<open>.await\<close> in sequence: go on with the value and the new state.\<close>

fun bind_out :: "('a, 'e) outcome \<times> 's \<Rightarrow> ('a \<Rightarrow> 's \<Rightarrow> ('b, 'e) outcome \<times> 's)
    \<Rightarrow> ('b, 'e) outcome \<times> 's" where
  "bind_out (Ok a, s) f = f a s"
| "bind_out (Err e, s) f = (Err e, s)"
| "bind_out (Panic m, s) f = (Panic m, s)"
| "bind_out (Pending, s) f = (Pending, s)"

text \<open>
  The same inside a loop that reads from a stream: the first computation runs on one part \<open>c\<close> of
  the state, and a result other than \<open>Ok\<close> leaves the rest \<open>sc\<close> as it is.
\<close>

fun after :: "('a, 'e) outcome \<times> 'c \<Rightarrow> 's \<Rightarrow> ('a \<Rightarrow> 'c \<Rightarrow> ('b, 'e) outcome \<times> 's \<times> 'c)
    \<Rightarrow> ('b, 'e) outcome \<times> 's \<times> 'c" where
  "after (Ok a, c) sc f = f a c"
| "after (Err e, c) sc f = (Err e, sc, c)"
| "after (Panic m, c) sc f = (Panic m, sc, c)"
| "after (Pending, c) sc f = (Pending, sc, c)"

text \<open>The same for synchronous code that keeps no state.\<close>

fun obind :: "('a, 'e) outcome \<Rightarrow> ('a \<Rightarrow> ('b, 'e) outcome) \<Rightarrow> ('b, 'e) outcome" where
  "obind (Ok a) f = f a"
| "obind (Err e) f = Err e"
| "obind (Panic m) f = Panic m"
| "obind Pending f = Pending"

text \<open>Conversion of the error by \<open>?\<close> (the \<open>From\<close> implementation of the target error).\<close>

fun map_err :: "('e \<Rightarrow> 'f) \<Rightarrow> ('a, 'e) outcome \<Rightarrow> ('a, 'f) outcome" where
  "map_err f (Ok a) = Ok a"
| "map_err f (Err e) = Err (f e)"
| "map_err f (Panic m) = Panic m"
| "map_err f Pending = Pending"

fun is_panic :: "('a, 'e) outcome \<Rightarrow> bool" where
  "is_panic (Panic m) = True"
| "is_panic _ = False"

lemma bind_out_Ok_iff:
  "bind_out p f = (Ok b, s') \<longleftrightarrow> (\<exists>a s. p = (Ok a, s) \<and> f a s = (Ok b, s'))"
  by (cases "(p, f)" rule: bind_out.cases) auto

lemma bind_out_Err_iff:
  "bind_out p f = (Err e, s') \<longleftrightarrow>
     p = (Err e, s') \<or> (\<exists>a s. p = (Ok a, s) \<and> f a s = (Err e, s'))"
  by (cases "(p, f)" rule: bind_out.cases) auto

lemma bind_out_fst_not_Ok:
  "(\<And>a. fst p \<noteq> Ok a) \<Longrightarrow> \<exists>r. bind_out p f = (r, snd p) \<and> (\<forall>b. r \<noteq> Ok b)"
  by (cases "(p, f)" rule: bind_out.cases) auto

lemma bind_out_assoc:
  "bind_out (bind_out p f) g = bind_out p (\<lambda>a s. bind_out (f a s) g)"
  by (cases "(p, f)" rule: bind_out.cases) simp_all

lemma map_err_Ok_iff [simp]: "map_err f r = Ok a \<longleftrightarrow> r = Ok a"
  by (cases r) auto

lemma map_err_Panic_iff [simp]: "map_err f r = Panic m \<longleftrightarrow> r = Panic m"
  by (cases r) auto

lemma map_err_Pending_iff [simp]: "map_err f r = Pending \<longleftrightarrow> r = Pending"
  by (cases r) auto

lemma is_panic_map_err [simp]: "is_panic (map_err f r) = is_panic r"
  by (cases r) simp_all

lemma is_panic_bind_out_iff:
  "is_panic (fst (bind_out p g)) \<longleftrightarrow> is_panic (fst p) \<or> (\<exists>a s. p = (Ok a, s) \<and> is_panic (fst (g a s)))"
  by (cases "(p, g)" rule: bind_out.cases) auto

lemma is_panic_bind_out:
  "\<not> is_panic (fst p) \<Longrightarrow> (\<And>a s. p = (Ok a, s) \<Longrightarrow> \<not> is_panic (fst (g a s))) \<Longrightarrow> \<not> is_panic (fst (bind_out p g))"
  by (cases "(p, g)" rule: bind_out.cases) auto

text \<open>A result that is neither a panic nor a wait.\<close>

fun settled :: "('a, 'e) outcome \<Rightarrow> bool" where
  "settled (Ok a) = True"
| "settled (Err e) = True"
| "settled _ = False"

lemma settled_no_panic: "settled r \<Longrightarrow> \<not> is_panic r"
  by (cases r) auto

section \<open>Iterators\<close>

text \<open>\<open>iter().filter_map(f).next()\<close>: the first element \<open>f\<close> accepts.\<close>

primrec first_match :: "('a \<Rightarrow> 'b option) \<Rightarrow> 'a list \<Rightarrow> 'b option" where
  "first_match f [] = None"
| "first_match f (x # xs) = (case f x of None \<Rightarrow> first_match f xs | Some y \<Rightarrow> Some y)"

lemma first_match_None_iff: "first_match f xs = None \<longleftrightarrow> (\<forall>x \<in> set xs. f x = None)"
  by (induction xs) (auto split: option.split)

lemma first_match_cong [fundef_cong]:
  "xs = ys \<Longrightarrow> (\<And>x. x \<in> set ys \<Longrightarrow> f x = g x) \<Longrightarrow> first_match f xs = first_match g ys"
  by (induction xs arbitrary: ys) (auto split: option.split)

lemma first_match_append:
  "first_match f (xs @ ys) =
     (case first_match f xs of None \<Rightarrow> first_match f ys | Some y \<Rightarrow> Some y)"
  by (induction xs) (auto split: option.split)

lemma first_match_Some_iff:
  "first_match f xs = Some y \<longleftrightarrow>
     (\<exists>us x vs. xs = us @ x # vs \<and> (\<forall>u \<in> set us. f u = None) \<and> f x = Some y)"
proof
  show "first_match f xs = Some y \<Longrightarrow>
     \<exists>us x vs. xs = us @ x # vs \<and> (\<forall>u \<in> set us. f u = None) \<and> f x = Some y"
  proof (induction xs)
    case Nil
    then show ?case by simp
  next
    case (Cons x xs)
    show ?case
    proof (cases "f x")
      case None
      with Cons obtain us z vs where "xs = us @ z # vs" "\<forall>u \<in> set us. f u = None" "f z = Some y"
        by auto
      with None show ?thesis
        by (intro exI [of _ "x # us"] exI [of _ z] exI [of _ vs]) simp
    next
      case (Some z)
      with Cons.prems show ?thesis
        by (intro exI [of _ "[]"] exI [of _ x] exI [of _ xs]) simp
    qed
  qed
  show "\<exists>us x vs. xs = us @ x # vs \<and> (\<forall>u \<in> set us. f u = None) \<and> f x = Some y \<Longrightarrow>
     first_match f xs = Some y"
    by (auto simp: first_match_append first_match_None_iff [THEN iffD2])
qed

text \<open>The last element \<open>f\<close> accepts, which is what a loop of assignments leaves.\<close>

definition last_match :: "('a \<Rightarrow> 'b option) \<Rightarrow> 'a list \<Rightarrow> 'b option" where
  "last_match f xs = first_match f (rev xs)"

lemma last_match_Nil [simp]: "last_match f [] = None"
  by (simp add: last_match_def)

lemma last_match_snoc [simp]:
  "last_match f (xs @ [x]) = (case f x of Some y \<Rightarrow> Some y | None \<Rightarrow> last_match f xs)"
  by (simp add: last_match_def split: option.split)

lemma map_filter_append: "List.map_filter f (xs @ ys) = List.map_filter f xs @ List.map_filter f ys"
  by (simp add: List.map_filter_def)

lemma map_filter_single: "List.map_filter f [x] = (case f x of None \<Rightarrow> [] | Some y \<Rightarrow> [y])"
  by (simp add: List.map_filter_def split: option.split)

section \<open>Machine integers\<close>

type_synonym u32 = "32 word"
type_synonym u64 = "64 word"

text \<open>
  \<open>usize\<close> is a natural number below \<open>usize_limit\<close>; the operations panic where the checked
  profile does.
\<close>

definition usize_limit :: nat where
  "usize_limit = 2 ^ 64"

definition usize_add :: "nat \<Rightarrow> nat \<Rightarrow> (nat, 'e) outcome" where
  "usize_add a b =
     (if a + b < usize_limit then Ok (a + b) else Panic ''attempt to add with overflow'')"

definition usize_sub :: "nat \<Rightarrow> nat \<Rightarrow> (nat, 'e) outcome" where
  "usize_sub a b = (if b \<le> a then Ok (a - b) else Panic ''attempt to subtract with overflow'')"

lemma usize_add_Ok [simp]: "a + b < usize_limit \<Longrightarrow> usize_add a b = Ok (a + b)"
  by (simp add: usize_add_def)

lemma usize_sub_Ok [simp]: "b \<le> a \<Longrightarrow> usize_sub a b = Ok (a - b)"
  by (simp add: usize_sub_def)

lemma mod_add_eq_cancel:
  fixes a i j m :: nat
  assumes eq: "(a + i) mod m = (a + j) mod m" and lt: "i < m" "j < m"
  shows "i = j"
proof -
  have le: "x = y" if "(a + x) mod m = (a + y) mod m" "x \<le> y" "y < m" for x y
  proof -
    have "m dvd (a + y) - (a + x)"
      using that by (metis add_le_cancel_left mod_eq_dvd_iff_nat)
    then have "m dvd y - x" by simp
    with that show ?thesis by (auto dest: dvd_imp_le)
  qed
  show ?thesis
    using le [of i j] le [of j i] eq lt by (cases "i \<le> j") auto
qed

section \<open>Strings\<close>

text \<open>\<open>str::replace\<close> of a one-character pattern.\<close>

definition replace_char :: "char \<Rightarrow> string \<Rightarrow> string \<Rightarrow> string" where
  "replace_char x r s = concat (map (\<lambda>c. if c = x then r else [c]) s)"

lemma replace_char_Nil [simp]: "replace_char x r [] = []"
  by (simp add: replace_char_def)

lemma replace_char_Cons [simp]:
  "replace_char x r (c # s) = (if c = x then r else [c]) @ replace_char x r s"
  by (simp add: replace_char_def)

lemma set_replace_char_subset: "set (replace_char x r s) \<subseteq> set s \<union> set r"
  by (induction s) auto

lemma in_replace_char: "c \<in> set s \<Longrightarrow> c \<noteq> x \<Longrightarrow> c \<in> set (replace_char x r s)"
  by (induction s) auto

text \<open>\<open>str::eq_ignore_ascii_case\<close>.\<close>

definition ascii_lower :: "char \<Rightarrow> char" where
  "ascii_lower c =
     (if 65 \<le> (of_char c :: nat) \<and> (of_char c :: nat) \<le> 90 then char_of ((of_char c :: nat) + 32) else c)"

definition eq_ignore_ascii_case :: "string \<Rightarrow> string \<Rightarrow> bool" where
  "eq_ignore_ascii_case s t \<longleftrightarrow> map ascii_lower s = map ascii_lower t"

lemma eq_ignore_ascii_case_refl [simp]: "eq_ignore_ascii_case s s"
  by (simp add: eq_ignore_ascii_case_def)

lemma eq_ignore_ascii_case_length: "eq_ignore_ascii_case s t \<Longrightarrow> length s = length t"
  unfolding eq_ignore_ascii_case_def by (metis length_map)

text \<open>
  \<open>str::is_char_boundary\<close>: the end of the string, or a byte that does not continue a UTF-8
  sequence.  \<open>str::split_at\<close> panics elsewhere.
\<close>

definition utf8_continuation :: "char \<Rightarrow> bool" where
  "utf8_continuation c \<longleftrightarrow> 128 \<le> (of_char c :: nat) \<and> (of_char c :: nat) < 192"

definition is_char_boundary :: "string \<Rightarrow> nat \<Rightarrow> bool" where
  "is_char_boundary s i \<longleftrightarrow>
     i = 0 \<or> i = length s \<or> (i < length s \<and> \<not> utf8_continuation (s ! i))"

definition split_at :: "string \<Rightarrow> nat \<Rightarrow> (string \<times> string, 'e) outcome" where
  "split_at s i =
     (if is_char_boundary s i then Ok (take i s, drop i s)
      else Panic ''failed to slice string'')"

section \<open>Decimal numerals\<close>

text \<open>\<open>Display\<close> of an unsigned integer, and the zero-padded form \<open>{:04}\<close>.\<close>

definition digit_char :: "nat \<Rightarrow> char" where
  "digit_char d = char_of (48 + d)"

fun decimal :: "nat \<Rightarrow> string" where
  "decimal n = (if n < 10 then [digit_char n] else decimal (n div 10) @ [digit_char (n mod 10)])"

declare decimal.simps [simp del]

definition pad04 :: "string \<Rightarrow> string" where
  "pad04 s = replicate (4 - length s) (CHR ''0'') @ s"

text \<open>The value of a numeral, to read it back.\<close>

definition numeral_value :: "string \<Rightarrow> nat" where
  "numeral_value s = foldl (\<lambda>a c. 10 * a + ((of_char c :: nat) - 48)) 0 s"

lemma digit_value: "d < 10 \<Longrightarrow> (of_char (digit_char d) :: nat) - 48 = d"
  by (simp add: digit_char_def)

lemma numeral_value_snoc [simp]:
  "numeral_value (s @ [c]) = 10 * numeral_value s + ((of_char c :: nat) - 48)"
  by (simp add: numeral_value_def)

lemma numeral_value_decimal [simp]: "numeral_value (decimal n) = n"
proof (induction n rule: decimal.induct)
  case (1 n)
  show ?case
  proof (cases "n < 10")
    case True
    then show ?thesis by (simp add: decimal.simps [of n] numeral_value_def digit_value)
  next
    case False
    with 1 show ?thesis by (simp add: decimal.simps [of n] digit_value)
  qed
qed

lemma decimal_inj [simp]: "decimal m = decimal n \<longleftrightarrow> m = n"
  by (metis numeral_value_decimal)

lemma decimal_digits: "c \<in> set (decimal n) \<Longrightarrow> \<exists>d < 10. c = digit_char d"
proof (induction n rule: decimal.induct)
  case (1 n)
  show ?case
  proof (cases "n < 10")
    case True
    with 1 show ?thesis by (auto simp: decimal.simps [of n])
  next
    case False
    with 1 show ?thesis
      by (auto simp: decimal.simps [of n] intro: exI [of _ "n mod 10"])
  qed
qed

lemma decimal_nonempty [simp]: "decimal n \<noteq> []"
  by (simp add: decimal.simps [of n])

lemma length_decimal_le:
  assumes "n < 10 ^ k" and "0 < k"
  shows "length (decimal n) \<le> k"
  using assms
proof (induction n arbitrary: k rule: decimal.induct)
  case (1 n)
  show ?case
  proof (cases "n < 10")
    case True
    with 1 show ?thesis by (simp add: decimal.simps [of n])
  next
    case False
    obtain j where "k = Suc j" using 1 by (cases k) auto
    moreover from this 1 False have "0 < j" by (cases j) auto
    ultimately have j: "k = Suc j" "0 < j" by simp_all
    with 1 have "n div 10 < 10 ^ j" by simp
    with 1 False j have "length (decimal (n div 10)) \<le> j" by blast
    with j False show ?thesis by (simp add: decimal.simps [of n])
  qed
qed

lemma numeral_value_zeros [simp]: "numeral_value (replicate k (CHR ''0'') @ s) = numeral_value s"
  by (induction k) (auto simp: numeral_value_def)

lemma numeral_value_pad04 [simp]: "numeral_value (pad04 s) = numeral_value s"
  by (simp add: pad04_def)

lemma length_pad04: "length s \<le> 4 \<Longrightarrow> length (pad04 s) = 4"
  by (simp add: pad04_def)

lemma of_char_digit_char [simp]: "d < 10 \<Longrightarrow> (of_char (digit_char d) :: nat) = 48 + d"
  by (simp add: digit_char_def)

lemma decimal_byte:
  assumes "c \<in> set (decimal n)"
  shows "48 \<le> (of_char c :: nat) \<and> (of_char c :: nat) \<le> 57"
  using decimal_digits [OF assms] by auto

lemma decimal_no_crlf:
  "CHR 0x0A \<notin> set (decimal n)" "CHR 0x0D \<notin> set (decimal n)"
  using decimal_byte [of "CHR 0x0A" n] decimal_byte [of "CHR 0x0D" n] by auto

end
