(* ===== verification/Imap_Types.thy ===== *)
theory Imap_Types
  imports Prelude
begin

text \<open>
  The vocabulary the crate's components exchange: the server responses as the crate's patterns
  see them, requests, tagged and untagged responses, and the error types of \<open>src/error.rs\<close>.

  The response types belong to the \<open>imap_proto\<close> crate, which is not part of this repository.
  The datatypes below have exactly the constructors and fields the crate's \<open>match\<close> arms name;
  everything else of \<open>imap_proto\<close> (envelopes, body structures, name attributes, metadata,
  further responses, the values its error types carry) is a value of the type parameter \<open>'x\<close>,
  which the crate only stores, compares and passes on.
\<close>

section \<open>Server responses\<close>

type_synonym request_id = string

datatype 'x status = Status_Ok | Status_Bad | Status_No | Status_Other 'x

datatype 'x response_code =
    RC_UidValidity u32
  | RC_UidNext u32
  | RC_HighestModSeq u64
  | RC_Unseen u32
  | RC_PermanentFlags "string list"
  | RC_Other 'x

datatype 'x status_attribute =
    SA_HighestModSeq u64
  | SA_Messages u32
  | SA_Recent u32
  | SA_UidNext u32
  | SA_UidValidity u32
  | SA_Unseen u32
  | SA_Other 'x

datatype 'x mailbox_datum =
    MD_Status string "'x status_attribute list"
  | MD_Exists u32
  | MD_Recent u32
  | MD_Flags "string list"
  | MD_List "'x list" "string option" string
  | MD_MetadataSolicited string "'x list"
  | MD_MetadataUnsolicited 'x
  | MD_Search "u32 list"
  | MD_Sort "u32 list"
  | MD_Other 'x

datatype capability_ref = Ref_Imap4rev1 | Ref_Auth string | Ref_Atom string

datatype 'x message_section = MS_Header | MS_Text | MS_Other 'x

datatype 'x section_path = SP_Full "'x message_section" | SP_Other 'x

datatype 'x attribute_value =
    AV_Uid u32
  | AV_Rfc822Size u32
  | AV_ModSeq u64
  | AV_Flags "string list"
  | AV_BodySection "'x section_path option" "string option"
  | AV_Rfc822Header "string option"
  | AV_Rfc822 "string option"
  | AV_Rfc822Text "string option"
  | AV_Envelope 'x
  | AV_InternalDate string
  | AV_BodyStructure 'x
  | AV_Other 'x

datatype quota_resource_name_ref = Ref_Storage | Ref_Message | Ref_Resource_Atom string

record quota_resource_ref =
  ref_name :: quota_resource_name_ref
  ref_usage :: u64
  ref_limit :: u64

record quota_ref =
  ref_root_name :: string
  ref_resources :: "quota_resource_ref list"

record quota_root_ref =
  ref_mailbox_name :: string
  ref_quota_root_names :: "string list"

text \<open>
  \<open>R_Id\<close> carries the pairs of the response's hash map in the order the map is iterated.
\<close>

datatype 'x response =
    R_Done request_id "'x status" "'x response_code option" "string option"
  | R_Data "'x status" "'x response_code option" "string option"
  | R_Continue "'x response_code option" "string option"
  | R_Capabilities "capability_ref list"
  | R_Fetch u32 "'x attribute_value list"
  | R_Expunge u32
  | R_MailboxData "'x mailbox_datum"
  | R_Quota quota_ref
  | R_QuotaRoot quota_root_ref
  | R_Id "(string \<times> string) list option"
  | R_Other 'x

section \<open>Response data and requests\<close>

text \<open>
  \<open>ResponseData\<close> (\<open>src/types/response_data.rs\<close>) pairs the block of bytes it owns with the
  response parsed from it; \<open>Request\<close> is an optional tag with the bytes of a command.
\<close>

record 'x response_data =
  raw :: string
  parsed :: "'x response"

definition response_data_request_id :: "'x response_data \<Rightarrow> request_id option" where
  "response_data_request_id r = (case parsed r of R_Done tag _ _ _ \<Rightarrow> Some tag | _ \<Rightarrow> None)"

text \<open>\<open>PartialEq\<close> of \<open>ResponseData\<close> compares what was parsed, not the block.\<close>

definition response_data_eq :: "'x response_data \<Rightarrow> 'x response_data \<Rightarrow> bool" where
  "response_data_eq a b \<longleftrightarrow> parsed a = parsed b"

datatype request = Request "request_id option" string

section \<open>Errors\<close>

text \<open>
  Error texts are kept as the arguments of the \<open>format!\<close> call that builds them: the rendering of
  the derived \<open>Debug\<close> implementations is not modelled, and two texts are equal when their
  arguments are.
\<close>

datatype 'x message =
    Text string
  | Code_Info "'x response_code option" "string option"
  | Status_Code_Info "'x status" "'x response_code option" "string option"
  | Parse_Debug 'x string

datatype io_kind = Kind_UnexpectedEof | Kind_WriteZero | Kind_Other | Kind_ConnectionRefused | Kind_Env nat

datatype 'x io_error = Io_Error io_kind "'x message"

datatype 'x parse_error =
    Invalid string
  | Unexpected string
  | Authentication string "'x option"
  | DataNotUtf8 string 'x
  | ExpectedResponseNotFound string

datatype 'x error =
    Io "'x io_error"
  | Bad "'x message"
  | No "'x message"
  | ConnectionLost
  | Parse "'x parse_error"
  | Validate char
  | Append

section \<open>Streams of responses\<close>

text \<open>
  What successive calls of \<open>stream.next().await\<close> yield: \<open>None\<close> is the end of the stream (after
  which an IMAP stream may yield again), \<open>Some (Inl e)\<close> an I/O error, \<open>Some (Inr r)\<close> a response.
  A script is a finite list of such answers; a function that has used up its script is
  \<open>Pending\<close>.
\<close>

type_synonym 'x item = "'x io_error + 'x response_data"
type_synonym 'x script = "'x item option list"

text \<open>
  \<open>filter_sync\<close> of \<open>src/parse.rs\<close>: go on with everything but the tagged completion of the
  command.
\<close>

definition filter_sync :: "'x item \<Rightarrow> request_id \<Rightarrow> bool" where
  "filter_sync res command_tag =
     (case res of
        Inr r \<Rightarrow> (case parsed r of R_Done tag _ _ _ \<Rightarrow> tag \<noteq> command_tag | _ \<Rightarrow> True)
      | Inl e \<Rightarrow> True)"

definition completes :: "request_id \<Rightarrow> 'x response_data \<Rightarrow> bool" where
  "completes command_tag r \<longleftrightarrow> response_data_request_id r = Some command_tag"

lemma filter_sync_Inl [simp]: "filter_sync (Inl e) t"
  by (simp add: filter_sync_def)

lemma filter_sync_Inr [simp]: "filter_sync (Inr r) t \<longleftrightarrow> \<not> completes t r"
  by (simp add: filter_sync_def completes_def response_data_request_id_def split: response.split)

lemma completes_iff: "completes t r \<longleftrightarrow> (\<exists>st code info. parsed r = R_Done t st code info)"
  by (cases "parsed r") (auto simp: completes_def response_data_request_id_def)

end
