(* ===== verification/Id_Generator.thy ===== *)
theory Id_Generator
  imports Imap_Types
begin

text \<open>
  \<open>src/types/id_generator.rs\<close>: the generator of request tags.  Each connection owns one; every
  tagged command takes its next tag.
\<close>

record id_generator =
  next_id :: u64

definition IdGenerator_new :: id_generator where
  "IdGenerator_new = \<lparr>next_id = 0\<rparr>"

text \<open>\<open>format!("A{:04}", n)\<close>.\<close>

definition format_tag :: "nat \<Rightarrow> request_id" where
  "format_tag n = ''A'' @ pad04 (decimal n)"

definition id_next :: "id_generator \<Rightarrow> (request_id, 'e) outcome \<times> id_generator" where
  "id_next g =
     (if Suc (unat (next_id g)) < 2 ^ 64
      then let g' = g\<lparr>next_id := next_id g + 1\<rparr>
           in (Ok (format_tag (unat (next_id g' mod 10000))), g')
      else (Panic ''attempt to add with overflow'', g))"

text \<open>The tags of \<open>k\<close> commands in a row.\<close>

fun take_ids :: "nat \<Rightarrow> id_generator \<Rightarrow> (request_id list, 'e) outcome \<times> id_generator" where
  "take_ids 0 g = (Ok [], g)"
| "take_ids (Suc k) g =
     bind_out (id_next g) (\<lambda>t g'. bind_out (take_ids k g') (\<lambda>ts g''. (Ok (t # ts), g'')))"

lemma format_tag_inj: "format_tag m = format_tag n \<longleftrightarrow> m = n"
proof
  assume "format_tag m = format_tag n"
  then have "numeral_value (pad04 (decimal m)) = numeral_value (pad04 (decimal n))"
    by (simp add: format_tag_def)
  then show "m = n" by simp
qed simp

lemma length_format_tag: "n < 10000 \<Longrightarrow> length (format_tag n) = 5"
  using length_decimal_le [of n 4] by (simp add: format_tag_def length_pad04)

lemma hd_format_tag: "hd (format_tag n) = CHR ''A''"
  by (simp add: format_tag_def)

lemma format_tag_no_crlf: "CHR 0x0A \<notin> set (format_tag n)" "CHR 0x0D \<notin> set (format_tag n)"
  by (auto simp: format_tag_def pad04_def decimal_no_crlf)

lemma unat_succ:
  fixes w :: u64
  assumes "Suc (unat w) < 2 ^ 64"
  shows "unat (w + 1) = Suc (unat w)"
  using assms by (simp add: unat_word_ariths)

lemma id_next_Ok:
  assumes "Suc (unat (next_id g)) < 2 ^ 64"
  shows "id_next g = (Ok (format_tag (Suc (unat (next_id g)) mod 10000)),
           g\<lparr>next_id := next_id g + 1\<rparr>)"
  using assms unat_succ [OF assms] by (simp add: id_next_def Let_def unat_mod)

lemma take_ids_Ok:
  assumes "unat (next_id g) + k < 2 ^ 64"
  shows "take_ids k g =
           (Ok (map (\<lambda>i. format_tag (Suc (unat (next_id g) + i) mod 10000)) [0..<k]),
            g\<lparr>next_id := next_id g + of_nat k\<rparr>)"
  using assms
proof (induction k arbitrary: g)
  case 0
  then show ?case by simp
next
  case (Suc k)
  from Suc.prems have u: "unat (next_id g + 1) = Suc (unat (next_id g))"
    by (intro unat_succ) simp
  have "[0..<Suc k] = 0 # map Suc [0..<k]"
    by (simp add: map_Suc_upt upt_conv_Cons)
  with Suc.prems Suc.IH [of "g\<lparr>next_id := next_id g + 1\<rparr>"] u show ?case
    by (simp add: id_next_Ok comp_def add.assoc del: upt_Suc)
qed

text \<open>
  C26: any 10000 consecutive commands on a connection get pairwise distinct tags of the form
  \<open>A0000\<close> to \<open>A9999\<close> (five bytes, no line break), and the generator does not panic, as long as
  the 64-bit counter has room.
\<close>

theorem tags_distinct:
  assumes "k \<le> 10000" and "unat (next_id g) + k < 2 ^ 64"
  shows "\<exists>ts g'. take_ids k g = (Ok ts, g') \<and> length ts = k \<and> distinct ts
           \<and> (\<forall>t \<in> set ts. length t = 5 \<and> hd t = CHR ''A'' \<and> CHR 0x0A \<notin> set t \<and> CHR 0x0D \<notin> set t)"
proof -
  have "inj_on (\<lambda>i. format_tag (Suc (unat (next_id g) + i) mod 10000)) (set [0..<k])"
  proof (rule inj_onI)
    fix i j
    assume ij: "i \<in> set [0..<k]" "j \<in> set [0..<k]"
      and "format_tag (Suc (unat (next_id g) + i) mod 10000) = format_tag (Suc (unat (next_id g) + j) mod 10000)"
    then have "(Suc (unat (next_id g)) + i) mod 10000 = (Suc (unat (next_id g)) + j) mod 10000"
      by (simp add: format_tag_inj)
    then show "i = j"
      by (rule mod_add_eq_cancel) (use ij assms(1) in simp_all)
  qed
  then have d: "distinct (map (\<lambda>i. format_tag (Suc (unat (next_id g) + i) mod 10000)) [0..<k])"
    by (simp add: distinct_map)
  show ?thesis
    unfolding take_ids_Ok [OF assms(2)]
    using d by (auto simp: length_format_tag format_tag_no_crlf hd_format_tag)
qed

lemma first_tags:
  "take_ids 3 IdGenerator_new =
     (Ok [''A0001'', ''A0002'', ''A0003''] :: (request_id list, 'e) outcome, \<lparr>next_id = 3\<rparr>)"
proof -
  have f: "format_tag (Suc 0) = ''A0001''" "format_tag (Suc (Suc 0)) = ''A0002''" "format_tag 3 = ''A0003''"
    by code_simp+
  show ?thesis
    by (subst take_ids_Ok) (simp_all add: IdGenerator_new_def upt_rec f)
qed

theorem tags_distinct_witness:
  "take_ids 3 IdGenerator_new =
     (Ok [''A0001'', ''A0002'', ''A0003''] :: (request_id list, unit) outcome, \<lparr>next_id = 3\<rparr>)
   \<and> distinct [''A0001'', ''A0002'', ''A0003'']"
proof -
  have "(3::nat) \<le> 10000" and "unat (next_id IdGenerator_new) + 3 < 2 ^ 64"
    by (simp_all add: IdGenerator_new_def)
  then obtain ts g' where "take_ids 3 IdGenerator_new = (Ok ts :: (request_id list, unit) outcome, g')"
    and "distinct ts"
    using tags_distinct by blast
  then show ?thesis by (simp add: first_tags del: take_ids.simps)
qed

text \<open>
  The counter is taken modulo 10000, so a tag comes back after exactly 10000 further commands.
\<close>

theorem tags_period:
  assumes "unat (next_id g) + 10001 < 2 ^ 64"
  shows "fst (id_next (snd (take_ids 10000 g))) = (fst (id_next g) :: (request_id, 'e) outcome)"
proof -
  have u: "unat (next_id g + 10000) = unat (next_id g) + 10000"
    using assms by (simp add: unat_word_ariths)
  show ?thesis
    using assms u mod_add_self2 [of "Suc (unat (next_id g))" 10000]
    by (simp add: take_ids_Ok id_next_Ok)
qed

theorem tags_period_witness:
  "fst (id_next (snd (take_ids 10000 IdGenerator_new))) = (Ok ''A0001'' :: (request_id, unit) outcome)"
proof -
  have "format_tag 1 = ''A0001''" by code_simp
  then have "fst (id_next IdGenerator_new) = (Ok ''A0001'' :: (request_id, unit) outcome)"
    by (simp add: id_next_Ok IdGenerator_new_def)
  moreover have "unat (next_id IdGenerator_new) + 10001 < 2 ^ 64"
    by (simp add: IdGenerator_new_def)
  note tags_period [OF this, where 'e = unit]
  ultimately show ?thesis by (simp only:)
qed

end
