(* ===== verification/Capabilities.thy ===== *)
theory Capabilities
  imports Imap_Types
begin

text \<open>
  \<open>src/types/capabilities.rs\<close>: the set of capabilities a server lists and the two ways to ask
  for one.  \<open>HashSet<Capability>\<close> is a finite HOL set.
\<close>

datatype capability = Imap4rev1 | Auth string | Atom string

type_synonym capabilities = "capability set"

definition IMAP4REV1_CAPABILITY :: string where
  "IMAP4REV1_CAPABILITY = ''IMAP4rev1''"

definition AUTH_CAPABILITY_PREFIX :: string where
  "AUTH_CAPABILITY_PREFIX = ''AUTH=''"

fun capability_from :: "capability_ref \<Rightarrow> capability" where
  "capability_from Ref_Imap4rev1 = Imap4rev1"
| "capability_from (Ref_Auth s) = Auth s"
| "capability_from (Ref_Atom s) = Atom s"

definition has :: "capabilities \<Rightarrow> capability \<Rightarrow> bool" where
  "has caps cap \<longleftrightarrow> cap \<in> caps"

definition has_str :: "capabilities \<Rightarrow> string \<Rightarrow> (bool, 'e) outcome" where
  "has_str caps s =
     (if eq_ignore_ascii_case s IMAP4REV1_CAPABILITY then Ok (has caps Imap4rev1)
      else if length s > length AUTH_CAPABILITY_PREFIX
      then obind (split_at s (length AUTH_CAPABILITY_PREFIX)) (\<lambda>(pre, val).
             if eq_ignore_ascii_case pre AUTH_CAPABILITY_PREFIX then Ok (has caps (Auth val))
             else Ok (has caps (Atom s)))
      else Ok (has caps (Atom s)))"

definition capabilities_len :: "capabilities \<Rightarrow> nat" where
  "capabilities_len caps = card caps"

definition capabilities_is_empty :: "capabilities \<Rightarrow> bool" where
  "capabilities_is_empty caps \<longleftrightarrow> caps = {}"

text \<open>
  What a name asks for, independent of the order in which \<open>has_str\<close> tries: the protocol revision
  in any case, an authentication mechanism after the case-insensitive prefix, any other name as an
  atom, letter by letter.
\<close>

definition auth_name :: "string \<Rightarrow> string \<Rightarrow> bool" where
  "auth_name s m \<longleftrightarrow>
     m \<noteq> [] \<and> (\<exists>p. s = p @ m \<and> eq_ignore_ascii_case p AUTH_CAPABILITY_PREFIX)"

fun denotes :: "string \<Rightarrow> capability \<Rightarrow> bool" where
  "denotes s Imap4rev1 \<longleftrightarrow> eq_ignore_ascii_case s IMAP4REV1_CAPABILITY"
| "denotes s (Auth m) \<longleftrightarrow> auth_name s m"
| "denotes s (Atom a) \<longleftrightarrow>
     a = s \<and> \<not> eq_ignore_ascii_case s IMAP4REV1_CAPABILITY \<and> (\<forall>m. \<not> auth_name s m)"

lemma auth_name_iff:
  "auth_name s m \<longleftrightarrow>
     5 < length s \<and> eq_ignore_ascii_case (take 5 s) AUTH_CAPABILITY_PREFIX \<and> m = drop 5 s"
proof
  assume "auth_name s m"
  then obtain p where p: "m \<noteq> []" "s = p @ m" "eq_ignore_ascii_case p AUTH_CAPABILITY_PREFIX"
    by (auto simp: auth_name_def)
  then have "length p = 5"
    using eq_ignore_ascii_case_length by (fastforce simp: AUTH_CAPABILITY_PREFIX_def)
  with p show "5 < length s \<and> eq_ignore_ascii_case (take 5 s) AUTH_CAPABILITY_PREFIX \<and> m = drop 5 s"
    by simp
next
  assume "5 < length s \<and> eq_ignore_ascii_case (take 5 s) AUTH_CAPABILITY_PREFIX \<and> m = drop 5 s"
  then show "auth_name s m"
    by (auto simp: auth_name_def intro: exI [of _ "take 5 s"])
qed

lemma not_imap4rev1_auth:
  "eq_ignore_ascii_case s IMAP4REV1_CAPABILITY \<Longrightarrow> \<not> auth_name s m"
proof
  assume i: "eq_ignore_ascii_case s IMAP4REV1_CAPABILITY" and a: "auth_name s m"
  from i have "map ascii_lower (take 5 s) = take 5 (map ascii_lower IMAP4REV1_CAPABILITY)"
    unfolding eq_ignore_ascii_case_def by (metis take_map)
  with a have "map ascii_lower AUTH_CAPABILITY_PREFIX = take 5 (map ascii_lower IMAP4REV1_CAPABILITY)"
    by (simp add: auth_name_iff eq_ignore_ascii_case_def)
  then show False
    by (simp add: AUTH_CAPABILITY_PREFIX_def IMAP4REV1_CAPABILITY_def ascii_lower_def)
qed

text \<open>Every name denotes exactly one capability.\<close>

lemma denotes_unique: "\<exists>!c. denotes s c"
proof (cases "eq_ignore_ascii_case s IMAP4REV1_CAPABILITY")
  case True
  show ?thesis
  proof
    show "denotes s Imap4rev1" using True by simp
    fix c assume "denotes s c"
    with True show "c = Imap4rev1" by (cases c) (auto simp: not_imap4rev1_auth)
  qed
next
  case False
  show ?thesis
  proof (cases "\<exists>m. auth_name s m")
    case True
    then obtain m where m: "auth_name s m" by blast
    show ?thesis
    proof
      show "denotes s (Auth m)" using m by simp
      fix c assume "denotes s c"
      with m False show "c = Auth m" by (cases c) (auto simp: auth_name_iff)
    qed
  next
    case none: False
    show ?thesis
    proof
      show "denotes s (Atom s)" using none False by simp
      fix c assume "denotes s c"
      with none False show "c = Atom s" by (cases c) auto
    qed
  qed
qed

text \<open>The one way \<open>has_str\<close> can fail: the cut after the prefix falls inside a character.\<close>

definition cut_inside_char :: "string \<Rightarrow> bool" where
  "cut_inside_char s \<longleftrightarrow>
     5 < length s \<and> utf8_continuation (s ! 5) \<and> \<not> eq_ignore_ascii_case s IMAP4REV1_CAPABILITY"

lemma length_prefix [simp]: "length AUTH_CAPABILITY_PREFIX = 5"
  by (simp add: AUTH_CAPABILITY_PREFIX_def)

lemma has_str_Ok:
  assumes "\<not> cut_inside_char s"
  shows "\<exists>c. denotes s c \<and> has_str caps s = Ok (has caps c)"
proof (cases "eq_ignore_ascii_case s IMAP4REV1_CAPABILITY")
  case True
  then show ?thesis by (auto simp: has_str_def intro!: exI [of _ Imap4rev1])
next
  case False
  show ?thesis
  proof (cases "\<exists>m. auth_name s m")
    case True
    then obtain m where m: "auth_name s m" by blast
    with False assms have "has_str caps s = Ok (has caps (Auth m))"
      by (auto simp: has_str_def split_at_def is_char_boundary_def auth_name_iff cut_inside_char_def)
    with m show ?thesis by (intro exI [of _ "Auth m"]) simp
  next
    case none: False
    with False assms have "has_str caps s = Ok (has caps (Atom s))"
      by (auto simp: has_str_def split_at_def is_char_boundary_def auth_name_iff cut_inside_char_def)
    with none False show ?thesis by (intro exI [of _ "Atom s"]) simp
  qed
qed

text \<open>
  C11: \<open>has_str\<close> answers whether the server lists the one capability the name denotes: the protocol
  revision without regard to case, an authentication mechanism by its name behind the prefix
  \<open>AUTH=\<close> in any case, any other atom letter by letter.  The one exception is a name whose sixth byte
  continues a UTF-8 character, on which \<open>split_at\<close> panics, whatever the server lists.
\<close>

theorem has_str_denotes:
  "has_str caps s =
     ((if cut_inside_char s then Panic ''failed to slice string'' else Ok (\<exists>c \<in> caps. denotes s c)) :: (bool, 'e) outcome)"
proof (cases "cut_inside_char s")
  case True
  then show ?thesis by (auto simp: cut_inside_char_def has_str_def split_at_def is_char_boundary_def)
next
  case False
  then obtain c where c: "denotes s c" "has_str caps s = (Ok (has caps c) :: (bool, 'e) outcome)"
    using has_str_Ok by blast
  then have "(\<exists>d \<in> caps. denotes s d) \<longleftrightarrow> c \<in> caps"
    using denotes_unique [of s] by blast
  with c False show ?thesis by (simp add: has_def)
qed

text \<open>
  \<open>has_str\<close> panics on some inputs: exactly on the names of more than five bytes, other than
  the protocol revision, whose sixth byte continues a UTF-8 character, whatever the server lists.
\<close>

theorem has_str_panics_iff:
  "is_panic (has_str caps s :: (bool, 'e) outcome) \<longleftrightarrow> cut_inside_char s"
proof
  assume "cut_inside_char s"
  then show "is_panic (has_str caps s :: (bool, 'e) outcome)"
    by (auto simp: cut_inside_char_def has_str_def split_at_def is_char_boundary_def)
next
  assume p: "is_panic (has_str caps s :: (bool, 'e) outcome)"
  show "cut_inside_char s"
  proof (rule ccontr)
    assume "\<not> cut_inside_char s"
    then obtain c where "has_str caps s = (Ok (has caps c) :: (bool, 'e) outcome)"
      using has_str_Ok by blast
    with p show False by simp
  qed
qed

text \<open>The text of a capability as a server lists it.\<close>

fun capability_text :: "capability_ref \<Rightarrow> string" where
  "capability_text Ref_Imap4rev1 = IMAP4REV1_CAPABILITY"
| "capability_text (Ref_Auth m) = AUTH_CAPABILITY_PREFIX @ m"
| "capability_text (Ref_Atom a) = a"

end
