(* ===== verification/Quota.thy ===== *)
theory Quota
  imports Imap_Types
begin

text \<open>\<open>src/types/quota.rs\<close>: quota resources and roots, owned copies of what the server sent.\<close>

datatype quota_resource_name = Storage | Message | Resource_Atom string

fun quota_resource_name_from :: "quota_resource_name_ref \<Rightarrow> quota_resource_name" where
  "quota_resource_name_from Ref_Message = Message"
| "quota_resource_name_from Ref_Storage = Storage"
| "quota_resource_name_from (Ref_Resource_Atom v) = Resource_Atom v"

record quota_resource =
  resource_name :: quota_resource_name
  usage :: u64
  limit :: u64

definition quota_resource_from :: "quota_resource_ref \<Rightarrow> quota_resource" where
  "quota_resource_from r =
     \<lparr>resource_name = quota_resource_name_from (ref_name r), usage = ref_usage r, limit = ref_limit r\<rparr>"

definition saturating_mul :: "u64 \<Rightarrow> u64 \<Rightarrow> u64" where
  "saturating_mul a b = (if unat a * unat b < 2 ^ 64 then a * b else - 1)"

definition get_usage_percentage :: "quota_resource \<Rightarrow> (u64, 'e) outcome" where
  "get_usage_percentage q =
     (if limit q = 0 then Panic ''attempt to divide by zero''
      else Ok (saturating_mul (usage q) 100 div limit q))"

record quota =
  root_name :: string
  resources :: "quota_resource list"

definition quota_from :: "quota_ref \<Rightarrow> quota" where
  "quota_from q =
     \<lparr>root_name = ref_root_name q, resources = map quota_resource_from (ref_resources q)\<rparr>"

record quota_root =
  mailbox_name :: string
  quota_root_names :: "string list"

definition quota_root_from :: "quota_root_ref \<Rightarrow> quota_root" where
  "quota_root_from r =
     \<lparr>mailbox_name = ref_mailbox_name r, quota_root_names = ref_quota_root_names r\<rparr>"

lemma unat_saturating_mul: "unat (saturating_mul a b) = min (unat a * unat b) (2 ^ 64 - 1)"
proof (cases "unat a * unat b < 2 ^ 64")
  case True
  then show ?thesis by (simp add: saturating_mul_def unat_word_ariths)
next
  case False
  have "unat (- 1 :: u64) = 2 ^ 64 - 1"
    by (simp add: unsigned_minus_1_eq_mask mask_eq_exp_minus_1)
  with False show ?thesis by (simp add: saturating_mul_def)
qed

text \<open>
  C39: for a resource with a limit, the percentage is the usage times 100 (cut at the largest
  64-bit value) divided by the limit, rounded down; so it is exact whenever the usage is below
  \<open>2 ^ 64 / 100\<close>, and at most 100 for a usage within the limit.
\<close>

theorem usage_percentage_exact:
  assumes "limit q \<noteq> 0"
  shows "\<exists>p. get_usage_percentage q = (Ok p :: (u64, 'e) outcome)
     \<and> unat p = min (unat (usage q) * 100) (2 ^ 64 - 1) div unat (limit q)
     \<and> (unat (usage q) * 100 < 2 ^ 64 \<longrightarrow> unat p = unat (usage q) * 100 div unat (limit q))
     \<and> (usage q \<le> limit q \<longrightarrow> unat p \<le> 100)"
proof -
  let ?p = "saturating_mul (usage q) 100 div limit q"
  have p: "unat ?p = min (unat (usage q) * 100) (2 ^ 64 - 1) div unat (limit q)"
    by (simp add: unat_div_distrib unat_saturating_mul)
  have "unat ?p \<le> 100" if "usage q \<le> limit q"
  proof -
    have "min (unat (usage q) * 100) (2 ^ 64 - 1) \<le> 100 * unat (limit q)"
      using that by (simp add: word_le_nat_alt min.coboundedI1)
    then have "unat ?p \<le> 100 * unat (limit q) div unat (limit q)"
      unfolding p by (rule div_le_mono)
    with assms show ?thesis
      by (simp add: unat_eq_zero)
  qed
  with p assms show ?thesis
    by (auto simp: get_usage_percentage_def min_def)
qed

theorem usage_percentage_exact_witness:
  "get_usage_percentage \<lparr>resource_name = Storage, usage = 10, limit = 512\<rparr> = (Ok 1 :: (u64, unit) outcome)"
proof -
  let ?q = "\<lparr>resource_name = Storage, usage = 10, limit = 512\<rparr>"
  have "limit ?q \<noteq> 0" by simp
  from usage_percentage_exact [OF this, where 'e = unit] obtain p where
    "get_usage_percentage ?q = (Ok p :: (u64, unit) outcome)" and p: "unat p = 1"
    by auto
  moreover from p have "p = 1" by (metis unat_1 word_unat_eq_iff)
  ultimately show ?thesis by simp
qed

text \<open>
  The percentage of a resource whose limit is 0, which a server may announce for a resource
  nobody may use, is a panic (division by zero); it panics for no other resource.
\<close>

theorem usage_percentage_panics_iff:
  "is_panic (get_usage_percentage q :: (u64, 'e) outcome) \<longleftrightarrow> limit q = 0"
  by (simp add: get_usage_percentage_def)

end
