(* ===== verification/Flag_Mailbox.thy ===== *)
theory Flag_Mailbox
  imports Imap_Types
begin

text \<open>
  Message flags (\<open>src/types/mod.rs\<close>) and the description of a selected mailbox
  (\<open>src/types/mailbox.rs\<close>), with the unsolicited responses that are handed to the user.
\<close>

section \<open>Flags\<close>

datatype flag =
    Seen | Answered | Flagged | Deleted | Draft | Recent | MayCreate
  | Custom string

text \<open>A backslash is \<open>CHR 0x5C\<close>; the system flags are the names that start with one.\<close>

definition backslash :: char where
  "backslash = CHR 0x5C"

definition flag_system :: "string \<Rightarrow> flag option" where
  "flag_system s =
     (if s = backslash # ''Seen'' then Some Seen
      else if s = backslash # ''Answered'' then Some Answered
      else if s = backslash # ''Flagged'' then Some Flagged
      else if s = backslash # ''Deleted'' then Some Deleted
      else if s = backslash # ''Draft'' then Some Draft
      else if s = backslash # ''Recent'' then Some Recent
      else if s = backslash # ''*'' then Some MayCreate
      else None)"

text \<open>\<open>From<String>\<close> and \<open>From<&str>\<close>, which differ only in who owns the text.\<close>

definition flag_from_string :: "string \<Rightarrow> flag" where
  "flag_from_string s = (case flag_system s of Some f \<Rightarrow> f | None \<Rightarrow> Custom s)"

definition flag_from_str :: "string \<Rightarrow> flag" where
  "flag_from_str s = (case flag_system s of Some f \<Rightarrow> f | None \<Rightarrow> Custom s)"

text \<open>The name a flag has on the wire, as the specification side of the two conversions.\<close>

fun flag_name :: "flag \<Rightarrow> string" where
  "flag_name Seen = backslash # ''Seen''"
| "flag_name Answered = backslash # ''Answered''"
| "flag_name Flagged = backslash # ''Flagged''"
| "flag_name Deleted = backslash # ''Deleted''"
| "flag_name Draft = backslash # ''Draft''"
| "flag_name Recent = backslash # ''Recent''"
| "flag_name MayCreate = backslash # ''*''"
| "flag_name (Custom s) = s"

lemma flag_system_Some: "flag_system s = Some f \<Longrightarrow> flag_name f = s \<and> (\<forall>t. f \<noteq> Custom t)"
  by (auto simp: flag_system_def split: if_splits)

lemma flag_from_str_eq: "flag_from_str s = flag_from_string s"
  by (simp add: flag_from_str_def flag_from_string_def)

lemma flag_name_from_string [simp]: "flag_name (flag_from_string s) = s"
  by (auto simp: flag_from_string_def split: option.split dest: flag_system_Some)

lemma flag_system_flag_name: "(\<forall>t. f \<noteq> Custom t) \<Longrightarrow> flag_system (flag_name f) = Some f"
  by (cases f) (simp_all add: flag_system_def)

text \<open>
  Converting the text of a flag keeps the text: \<open>flag_name\<close> reads it back, no two texts give
  the same flag, and a text is turned into a \<open>Custom\<close> flag only if it is none of the seven
  system names (so \<open>Custom\<close> never hides a system flag).
\<close>

theorem flag_roundtrip:
  "flag_name (flag_from_string s) = s
   \<and> flag_from_str s = flag_from_string s
   \<and> (flag_from_string s = flag_from_string t \<longleftrightarrow> s = t)
   \<and> (flag_from_string s = Custom s \<longleftrightarrow> s \<notin> flag_name ` {Seen, Answered, Flagged, Deleted, Draft, Recent, MayCreate})
   \<and> (flag_from_string (flag_name f) = f \<longleftrightarrow> (\<forall>u. f = Custom u \<longrightarrow> flag_system u = None))"
proof -
  have inj: "flag_from_string s = flag_from_string t \<longleftrightarrow> s = t"
    by (metis flag_name_from_string)
  have custom: "flag_from_string s = Custom s \<longleftrightarrow>
      s \<notin> flag_name ` {Seen, Answered, Flagged, Deleted, Draft, Recent, MayCreate}"
    by (simp add: flag_from_string_def flag_system_def)
  have inverse: "flag_from_string (flag_name f) = f \<longleftrightarrow> (\<forall>u. f = Custom u \<longrightarrow> flag_system u = None)"
  proof (cases "\<exists>u. f = Custom u")
    case True
    then show ?thesis
      by (auto simp: flag_from_string_def split: option.split dest: flag_system_Some)
  next
    case False
    then show ?thesis
      by (simp add: flag_from_string_def flag_system_flag_name)
  qed
  show ?thesis
    using inj custom inverse by (simp add: flag_from_str_eq)
qed

theorem flag_roundtrip_witness:
  "flag_from_string (backslash # ''Seen'') = Seen \<and> flag_from_string ''seen'' = Custom ''seen''"
  using flag_roundtrip [of "''seen''" _ Seen] by (simp add: flag_system_def backslash_def)

section \<open>Mailboxes\<close>

record mailbox =
  flags :: "flag list"
  exists :: u32
  recent :: u32
  unseen :: "u32 option"
  permanent_flags :: "flag list"
  uid_next :: "u32 option"
  uid_validity :: "u32 option"
  highest_modseq :: "u64 option"

text \<open>\<open>Mailbox::default()\<close>, derived: every field is its type's default.\<close>

definition Mailbox_default :: mailbox where
  "Mailbox_default =
     \<lparr>flags = [], exists = 0, recent = 0, unseen = None, permanent_flags = [],
      uid_next = None, uid_validity = None, highest_modseq = None\<rparr>"

text \<open>
  \<open>Display\<close>.  What the derived \<open>Debug\<close> of the two lists of flags writes is the parameter \<open>debug_flags\<close>.
  The field \<open>highest_modseq\<close> is not shown.
\<close>

fun debug_option :: "u32 option \<Rightarrow> string" where
  "debug_option None = ''None''"
| "debug_option (Some n) = ''Some('' @ decimal (unat n) @ '')''"

definition mailbox_fmt :: "(flag list \<Rightarrow> string) \<Rightarrow> mailbox \<Rightarrow> string" where
  "mailbox_fmt debug_flags m =
     ''flags: '' @ debug_flags (flags m) @ '', exists: '' @ decimal (unat (exists m)) @ '', recent: '' @ decimal (unat (recent m))
     @ '', unseen: '' @ debug_option (unseen m) @ '', permanent_flags: '' @ debug_flags (permanent_flags m)
     @ '',uid_next: '' @ debug_option (uid_next m) @ '', uid_validity: '' @ debug_option (uid_validity m)"

lemma mailbox_fmt_hides_modseq: "mailbox_fmt debug_flags (m\<lparr>highest_modseq := x\<rparr>) = mailbox_fmt debug_flags m"
  by (simp add: mailbox_fmt_def)

section \<open>Unsolicited responses\<close>

datatype 'x unsolicited_response =
    U_Status string "'x status_attribute list"
  | U_Recent u32
  | U_Exists u32
  | U_Expunge u32
  | U_Other "'x response_data"

end
