(* ===== verification/Fetch.thy ===== *)
theory Fetch
  imports Flag_Mailbox
begin

text \<open>
  \<open>src/types/fetch.rs\<close> and \<open>src/types/name.rs\<close>: the views of a \<open>FETCH\<close> and of a \<open>LIST\<close> response
  that are handed to the user.  Both are built from a whole response and panic on any other
  response; the parsers only build them from the right one.
\<close>

section \<open>Fetch\<close>

record 'x fetch =
  fetch_response :: "'x response_data"
  message :: u32
  uid :: "u32 option"
  size32 :: "u32 option"
  modseq :: "u64 option"

definition unreachable :: "('a, 'e) outcome" where
  "unreachable = Panic ''internal error: entered unreachable code''"

text \<open>The loop over the attributes: a later value of an attribute replaces an earlier one.\<close>

fun fetch_attr :: "'x attribute_value \<Rightarrow> u32 option \<times> u32 option \<times> u64 option
    \<Rightarrow> u32 option \<times> u32 option \<times> u64 option" where
  "fetch_attr (AV_Uid i) (u, sz, ms) = (Some i, sz, ms)"
| "fetch_attr (AV_Rfc822Size i) (u, sz, ms) = (u, Some i, ms)"
| "fetch_attr (AV_ModSeq i) (u, sz, ms) = (u, sz, Some i)"
| "fetch_attr _ acc = acc"

definition Fetch_new :: "'x response_data \<Rightarrow> ('x fetch, 'e) outcome" where
  "Fetch_new response =
     (case parsed response of
        R_Fetch msg attrs \<Rightarrow>
          (let (u, sz, ms) = fold fetch_attr attrs (None, None, None)
           in Ok \<lparr>fetch_response = response, message = msg, uid = u, size32 = sz, modseq = ms\<rparr>)
      | _ \<Rightarrow> unreachable)"

definition fetch_attrs :: "'x fetch \<Rightarrow> ('x attribute_value list, 'e) outcome" where
  "fetch_attrs f = (case parsed (fetch_response f) of R_Fetch _ attrs \<Rightarrow> Ok attrs | _ \<Rightarrow> unreachable)"

definition fetch_flags :: "'x fetch \<Rightarrow> (flag list, 'e) outcome" where
  "fetch_flags f = obind (fetch_attrs f) (\<lambda>attrs.
     Ok (concat (map (\<lambda>attr. case attr of AV_Flags raw_flags \<Rightarrow> map flag_from_str raw_flags | _ \<Rightarrow> [])
       attrs)))"

definition fetch_header :: "'x fetch \<Rightarrow> (string option, 'e) outcome" where
  "fetch_header f = obind (fetch_attrs f) (\<lambda>attrs. Ok (first_match (\<lambda>av. case av of
       AV_BodySection (Some (SP_Full MS_Header)) (Some hdr) \<Rightarrow> Some hdr
     | AV_Rfc822Header (Some hdr) \<Rightarrow> Some hdr
     | _ \<Rightarrow> None) attrs))"

definition fetch_body :: "'x fetch \<Rightarrow> (string option, 'e) outcome" where
  "fetch_body f = obind (fetch_attrs f) (\<lambda>attrs. Ok (first_match (\<lambda>av. case av of
       AV_BodySection None (Some body) \<Rightarrow> Some body
     | AV_Rfc822 (Some body) \<Rightarrow> Some body
     | _ \<Rightarrow> None) attrs))"

definition fetch_text :: "'x fetch \<Rightarrow> (string option, 'e) outcome" where
  "fetch_text f = obind (fetch_attrs f) (\<lambda>attrs. Ok (first_match (\<lambda>av. case av of
       AV_BodySection (Some (SP_Full MS_Text)) (Some body) \<Rightarrow> Some body
     | AV_Rfc822Text (Some body) \<Rightarrow> Some body
     | _ \<Rightarrow> None) attrs))"

definition fetch_envelope :: "'x fetch \<Rightarrow> ('x option, 'e) outcome" where
  "fetch_envelope f = obind (fetch_attrs f) (\<lambda>attrs. Ok (first_match (\<lambda>av. case av of
       AV_Envelope env \<Rightarrow> Some env
     | _ \<Rightarrow> None) attrs))"

definition fetch_section :: "'x section_path \<Rightarrow> 'x fetch \<Rightarrow> (string option, 'e) outcome" where
  "fetch_section path f = obind (fetch_attrs f) (\<lambda>attrs. Ok (first_match (\<lambda>av. case av of
       AV_BodySection (Some sp) (Some data) \<Rightarrow> (if sp = path then Some data else None)
     | _ \<Rightarrow> None) attrs))"

text \<open>
  \<open>DateTime::parse_from_str\<close> of the \<open>chrono\<close> crate is the parameter \<open>parse_from_str\<close>: \<open>None\<close>
  where it returns an error.
\<close>

definition DATE_TIME_FORMAT :: string where
  "DATE_TIME_FORMAT = ''%d-%b-%Y %H:%M:%S %z''"

definition fetch_internal_date ::
    "(string \<Rightarrow> string \<Rightarrow> 'd option) \<Rightarrow> 'x fetch \<Rightarrow> ('d option, 'e) outcome" where
  "fetch_internal_date parse_from_str f = obind (fetch_attrs f) (\<lambda>attrs. Ok (
     case first_match (\<lambda>av. case av of AV_InternalDate date_time \<Rightarrow> Some date_time | _ \<Rightarrow> None) attrs of
       None \<Rightarrow> None
     | Some date_time \<Rightarrow> parse_from_str date_time DATE_TIME_FORMAT))"

definition fetch_bodystructure :: "'x fetch \<Rightarrow> ('x option, 'e) outcome" where
  "fetch_bodystructure f = obind (fetch_attrs f) (\<lambda>attrs. Ok (first_match (\<lambda>av. case av of
       AV_BodyStructure bs \<Rightarrow> Some bs
     | _ \<Rightarrow> None) attrs))"

text \<open>
  The specification of the three numeric fields: the last value the server sent for them.
\<close>

fun av_uid :: "'x attribute_value \<Rightarrow> u32 option" where
  "av_uid (AV_Uid i) = Some i"
| "av_uid _ = None"

fun av_size :: "'x attribute_value \<Rightarrow> u32 option" where
  "av_size (AV_Rfc822Size i) = Some i"
| "av_size _ = None"

fun av_modseq :: "'x attribute_value \<Rightarrow> u64 option" where
  "av_modseq (AV_ModSeq i) = Some i"
| "av_modseq _ = None"

lemma fold_fetch_attr:
  "fold fetch_attr attrs (None, None, None) =
     (last_match av_uid attrs, last_match av_size attrs, last_match av_modseq attrs)"
proof (induction attrs rule: rev_induct)
  case Nil
  then show ?case by simp
next
  case (snoc a attrs)
  then show ?case by (cases a) simp_all
qed

text \<open>A fetch that \<open>Fetch_new\<close> built.\<close>

definition fetch_wf :: "'x fetch \<Rightarrow> bool" where
  "fetch_wf f \<longleftrightarrow> Fetch_new (fetch_response f) = (Ok f :: ('x fetch, unit) outcome)"

lemma Fetch_new_Ok_iff:
  "Fetch_new r = Ok f \<longleftrightarrow>
     (\<exists>msg attrs. parsed r = R_Fetch msg attrs \<and>
        f = \<lparr>fetch_response = r, message = msg, uid = last_match av_uid attrs,
             size32 = last_match av_size attrs, modseq = last_match av_modseq attrs\<rparr>)"
  by (auto simp: Fetch_new_def fold_fetch_attr unreachable_def split: response.split)

lemma Fetch_new_wf: "Fetch_new r = Ok f \<Longrightarrow> fetch_wf f"
  by (auto simp: fetch_wf_def Fetch_new_Ok_iff)

lemma fetch_wf_attrs: "fetch_wf f \<Longrightarrow> \<exists>attrs. fetch_attrs f = Ok attrs"
  by (auto simp: fetch_wf_def Fetch_new_Ok_iff fetch_attrs_def)

lemmas fetch_accessors =
  fetch_flags_def fetch_header_def fetch_body_def fetch_text_def fetch_envelope_def
  fetch_section_def fetch_internal_date_def fetch_bodystructure_def

text \<open>
  A fetch built from a \<open>FETCH\<close> response carries its message number and the last UID, size and
  modification sequence the response gives; building panics for any response that is not a
  \<open>FETCH\<close>.
\<close>

theorem fetch_new_correct:
  "case parsed r of
     R_Fetch msg attrs \<Rightarrow>
       (\<exists>f. Fetch_new r = (Ok f :: ('x fetch, 'e) outcome)
          \<and> fetch_response f = r \<and> message f = msg
          \<and> uid f = last_match av_uid attrs \<and> size32 f = last_match av_size attrs
          \<and> modseq f = last_match av_modseq attrs)
   | _ \<Rightarrow> is_panic (Fetch_new r :: ('x fetch, 'e) outcome)"
  by (simp add: Fetch_new_def fold_fetch_attr unreachable_def split: response.split)

text \<open>
  On a fetch built by \<open>Fetch_new\<close> no accessor panics: all of them return.
\<close>

theorem fetch_accessors_total:
  assumes "Fetch_new r = (Ok f :: ('x fetch, 'e) outcome)"
  shows "(\<exists>a. fetch_flags f = (Ok a :: (flag list, 'e) outcome))
       \<and> (\<exists>a. fetch_header f = (Ok a :: (string option, 'e) outcome))
       \<and> (\<exists>a. fetch_body f = (Ok a :: (string option, 'e) outcome))
       \<and> (\<exists>a. fetch_text f = (Ok a :: (string option, 'e) outcome))
       \<and> (\<exists>a. fetch_envelope f = (Ok a :: ('x option, 'e) outcome))
       \<and> (\<exists>a. fetch_section p f = (Ok a :: (string option, 'e) outcome))
       \<and> (\<exists>a. fetch_internal_date d f = (Ok a :: ('d option, 'e) outcome))
       \<and> (\<exists>a. fetch_bodystructure f = (Ok a :: ('x option, 'e) outcome))"
proof -
  obtain attrs where "\<And>e. fetch_attrs f = (Ok attrs :: ('x attribute_value list, 'e) outcome)"
    using assms by (auto simp: Fetch_new_Ok_iff fetch_attrs_def)
  then show ?thesis by (simp add: fetch_accessors)
qed

definition sample_fetch :: "nat response_data" where
  "sample_fetch =
     \<lparr>raw = [], parsed = R_Fetch 24 [AV_Flags [backslash # ''Seen''], AV_Uid 1, AV_Rfc822 (Some ''hi''), AV_Uid 7]\<rparr>"

theorem fetch_accessors_total_witness:
  "\<exists>f. Fetch_new sample_fetch = (Ok f :: (nat fetch, unit) outcome) \<and> uid f = Some 7
     \<and> fetch_flags f = (Ok [Seen] :: (flag list, unit) outcome)
     \<and> fetch_body f = (Ok (Some ''hi'') :: (string option, unit) outcome)
     \<and> (\<exists>a. fetch_header f = (Ok a :: (string option, unit) outcome))"
proof -
  let ?f = "\<lparr>fetch_response = sample_fetch, message = 24, uid = Some 7, size32 = None, modseq = None\<rparr>"
  have f: "Fetch_new sample_fetch = (Ok ?f :: (nat fetch, unit) outcome)"
    by (simp add: Fetch_new_def sample_fetch_def)
  then show ?thesis
    using fetch_accessors_total [OF f]
    by (simp add: fetch_accessors fetch_attrs_def sample_fetch_def flag_from_str_def flag_system_def)
qed

text \<open>
  For a response without \<open>RFC822.HEADER\<close> and \<open>RFC822.TEXT\<close> attributes, \<open>section\<close> with the path of the
  header and of the text returns exactly what \<open>header\<close> and \<open>text\<close> return.
\<close>

theorem fetch_section_header:
  assumes "Fetch_new r = (Ok f :: ('x fetch, 'e) outcome)"
    and "parsed r = R_Fetch msg attrs"
    and "\<forall>d. AV_Rfc822Header d \<notin> set attrs" and "\<forall>d. AV_Rfc822Text d \<notin> set attrs"
  shows "fetch_section (SP_Full MS_Header) f = (fetch_header f :: (string option, 'e) outcome)
       \<and> fetch_section (SP_Full MS_Text) f = (fetch_text f :: (string option, 'e) outcome)"
proof -
  have attrs: "fetch_attrs f = (Ok attrs :: ('x attribute_value list, 'e) outcome)"
    using assms(1,2) by (auto simp: Fetch_new_Ok_iff fetch_attrs_def)
  show ?thesis
    unfolding fetch_accessors attrs obind.simps outcome.inject
    using assms(3,4)
    by (intro conjI first_match_cong refl)
      (auto split: attribute_value.split option.split section_path.split message_section.split)
qed

theorem fetch_section_header_witness:
  "fetch_section (SP_Full MS_Header)
     \<lparr>fetch_response = \<lparr>raw = [], parsed = R_Fetch 1 [AV_BodySection (Some (SP_Full MS_Header)) (Some ''h'')]\<rparr>,
      message = 1, uid = None, size32 = None, modseq = None\<rparr>
   = (Ok (Some ''h'') :: (string option, unit) outcome)"
proof -
  let ?r = "\<lparr>raw = [], parsed = R_Fetch 1 [AV_BodySection (Some (SP_Full MS_Header)) (Some ''h'')]\<rparr> :: nat response_data"
  let ?f = "\<lparr>fetch_response = ?r, message = 1, uid = None, size32 = None, modseq = None\<rparr>"
  have "Fetch_new ?r = (Ok ?f :: (nat fetch, unit) outcome)"
    by (simp add: Fetch_new_def)
  from fetch_section_header [OF this, of 1 "[AV_BodySection (Some (SP_Full MS_Header)) (Some ''h'')]"]
  have "fetch_section (SP_Full MS_Header) ?f = (fetch_header ?f :: (string option, unit) outcome)"
    by simp
  then show ?thesis by (simp add: fetch_accessors fetch_attrs_def)
qed

section \<open>Names\<close>

record 'x name =
  attributes :: "'x list"
  delimiter :: "string option"
  name :: string

definition Name_from_mailbox_data :: "'x response_data \<Rightarrow> ('x name, 'e) outcome" where
  "Name_from_mailbox_data resp =
     (case parsed resp of
        R_MailboxData (MD_List name_attributes delim n) \<Rightarrow>
          Ok \<lparr>attributes = name_attributes, delimiter = delim, name = n\<rparr>
      | _ \<Rightarrow> Panic ''cannot construct from non mailbox data'')"

lemma Name_from_list [simp]:
  "parsed resp = R_MailboxData (MD_List as d n) \<Longrightarrow>
     Name_from_mailbox_data resp = Ok \<lparr>attributes = as, delimiter = d, name = n\<rparr>"
  by (simp add: Name_from_mailbox_data_def)

end
