(* ===== verification/Unsolicited.thy ===== *)
theory Unsolicited
  imports Flag_Mailbox
begin

text \<open>
  The channel of unsolicited responses and \<open>handle_unilateral\<close> of \<open>src/parse.rs\<close>, through which
  every command hands over the responses that do not belong to it.

  The channel is \<open>async_channel\<close>'s bounded channel, which is not part of this repository.  Its
  operations are the parameter \<open>K\<close> of every definition that uses the channel; \<open>channel_contract\<close>
  states the documented behaviour the crate relies on, and \<open>fifo_ops\<close> is an instance of it for
  concrete runs.
\<close>

section \<open>The channel interface\<close>

text \<open>
  \<open>send(m).await\<close> puts the message in, or fails because the channel is closed, or waits for room.
\<close>

datatype send_result = Sent | Send_Closed | Send_Waits

record ('c, 'm) channel_ops =
  ch_bounded :: "nat \<Rightarrow> 'c"
  ch_is_full :: "'c \<Rightarrow> bool"
  ch_send :: "'m \<Rightarrow> 'c \<Rightarrow> send_result \<times> 'c"

definition channel_contract ::
    "('c, 'm) channel_ops \<Rightarrow> ('c \<Rightarrow> 'm list) \<Rightarrow> ('c \<Rightarrow> nat) \<Rightarrow> ('c \<Rightarrow> bool) \<Rightarrow> bool" where
  "channel_contract K contents capacity is_open \<longleftrightarrow>
     (\<forall>n. 0 < n \<longrightarrow> contents (ch_bounded K n) = [] \<and> capacity (ch_bounded K n) = n \<and> is_open (ch_bounded K n))
   \<and> (\<forall>c. ch_is_full K c \<longleftrightarrow> capacity c \<le> length (contents c))
   \<and> (\<forall>c m. is_open c \<longrightarrow> length (contents c) < capacity c \<longrightarrow>
        (case ch_send K m c of (r, c') \<Rightarrow>
           r = Sent \<and> contents c' = contents c @ [m] \<and> capacity c' = capacity c \<and> is_open c'))
   \<and> (\<forall>c m. \<not> is_open c \<longrightarrow> fst (ch_send K m c) = Send_Closed)"

lemma contract_full:
  "channel_contract K contents capacity is_open \<Longrightarrow>
     ch_is_full K c \<longleftrightarrow> capacity c \<le> length (contents c)"
  by (simp add: channel_contract_def)

lemma contract_send:
  assumes "channel_contract K contents capacity is_open"
    and "is_open c" and "length (contents c) < capacity c"
  obtains c' where "ch_send K m c = (Sent, c')" and "contents c' = contents c @ [m]"
    and "capacity c' = capacity c" and "is_open c'"
proof -
  have "case ch_send K m c of (r, c') \<Rightarrow>
      r = Sent \<and> contents c' = contents c @ [m] \<and> capacity c' = capacity c \<and> is_open c'"
    using assms(1) [unfolded channel_contract_def, THEN conjunct2, THEN conjunct2, THEN conjunct1,
        rule_format, OF assms(2,3), of m] .
  with that show thesis by (cases "ch_send K m c") auto
qed

lemma contract_closed:
  "channel_contract K contents capacity is_open \<Longrightarrow> \<not> is_open c \<Longrightarrow>
     fst (ch_send K m c) = Send_Closed"
  by (simp add: channel_contract_def)

section \<open>The operations of the crate\<close>

text \<open>\<open>unsolicited.send(m).await.expect("Channel closed unexpectedly")\<close>.\<close>

definition send_expect :: "('c, 'm) channel_ops \<Rightarrow> 'm \<Rightarrow> 'c \<Rightarrow> (unit, 'e) outcome \<times> 'c" where
  "send_expect K m c =
     (case ch_send K m c of
        (Sent, c') \<Rightarrow> (Ok (), c')
      | (Send_Closed, c') \<Rightarrow> (Panic ''Channel closed unexpectedly'', c')
      | (Send_Waits, c') \<Rightarrow> (Pending, c'))"

definition handle_unilateral ::
    "('c, 'x unsolicited_response) channel_ops \<Rightarrow> 'x response_data \<Rightarrow> 'c \<Rightarrow> (unit, 'e) outcome \<times> 'c" where
  "handle_unilateral K res c =
     (if ch_is_full K c then (Ok (), c)
      else
        (case parsed res of
           R_MailboxData (MD_Status mbox st) \<Rightarrow> send_expect K (U_Status mbox st) c
         | R_MailboxData (MD_Recent n) \<Rightarrow> send_expect K (U_Recent n) c
         | R_MailboxData (MD_Exists n) \<Rightarrow> send_expect K (U_Exists n) c
         | R_Expunge n \<Rightarrow> send_expect K (U_Expunge n) c
         | _ \<Rightarrow> send_expect K (U_Other res) c))"

section \<open>What the user sees\<close>

definition unsolicited_of :: "'x response_data \<Rightarrow> 'x unsolicited_response" where
  "unsolicited_of res =
     (case parsed res of
        R_MailboxData (MD_Status mbox st) \<Rightarrow> U_Status mbox st
      | R_MailboxData (MD_Recent n) \<Rightarrow> U_Recent n
      | R_MailboxData (MD_Exists n) \<Rightarrow> U_Exists n
      | R_Expunge n \<Rightarrow> U_Expunge n
      | _ \<Rightarrow> U_Other res)"

lemma handle_unilateral_eq:
  "handle_unilateral K res c =
     (if ch_is_full K c then (Ok (), c) else send_expect K (unsolicited_of res) c)"
  by (simp add: handle_unilateral_def unsolicited_of_def split: response.split mailbox_datum.split)

text \<open>The unsolicited responses of several server responses, one after the other.\<close>

fun forward_all :: "('c, 'x unsolicited_response) channel_ops \<Rightarrow> 'x response_data list \<Rightarrow> 'c
    \<Rightarrow> (unit, 'e) outcome \<times> 'c" where
  "forward_all K [] c = (Ok (), c)"
| "forward_all K (r # rs) c = bind_out (handle_unilateral K r c) (\<lambda>_ c'. forward_all K rs c')"

text \<open>
  The state \<open>c'\<close> of an open channel after the messages \<open>ms\<close> were offered to it in the state \<open>c\<close>:
  it took them in order as long as there was room and ignored the rest.
\<close>

definition delivered ::
    "('c \<Rightarrow> 'm list) \<Rightarrow> ('c \<Rightarrow> nat) \<Rightarrow> ('c \<Rightarrow> bool) \<Rightarrow> 'c \<Rightarrow> 'm list \<Rightarrow> 'c \<Rightarrow> bool" where
  "delivered contents capacity is_open c ms c' \<longleftrightarrow>
     is_open c' \<and> capacity c' = capacity c
   \<and> contents c' = contents c @ take (capacity c - length (contents c)) ms"

lemma delivered_refl: "is_open c \<Longrightarrow> delivered contents capacity is_open c [] c"
  by (simp add: delivered_def)

lemma delivered_trans:
  assumes "delivered contents capacity is_open c ms c'"
    and "delivered contents capacity is_open c' ns c''"
  shows "delivered contents capacity is_open c (ms @ ns) c''"
  using assms by (auto simp: delivered_def min_def)

lemma handle_unilateral_delivered:
  assumes K: "channel_contract K contents capacity is_open" and op: "is_open c"
  shows "\<exists>c'. handle_unilateral K r c = ((Ok (), c') :: (unit, 'e) outcome \<times> _)
            \<and> delivered contents capacity is_open c [unsolicited_of r] c'"
proof (cases "ch_is_full K c")
  case True
  then show ?thesis
    using op by (simp add: handle_unilateral_eq delivered_def contract_full [OF K])
next
  case False
  then have room: "length (contents c) < capacity c"
    by (simp add: contract_full [OF K])
  obtain c' where "ch_send K (unsolicited_of r) c = (Sent, c')"
    and "contents c' = contents c @ [unsolicited_of r]" "capacity c' = capacity c" "is_open c'"
    using contract_send [OF K op room] .
  with False room show ?thesis
    by (simp add: handle_unilateral_eq send_expect_def delivered_def take_Cons')
qed

text \<open>
  On a channel that is closed nothing more arrives: with room the send fails and \<open>expect\<close> panics, a
  full channel is not even tried.
\<close>

abbreviation closed_message :: string where
  "closed_message \<equiv> ''Channel closed unexpectedly''"

lemma handle_unilateral_shut:
  assumes "channel_contract K contents capacity is_open" and "\<not> is_open c"
  shows "ch_is_full K c \<Longrightarrow> handle_unilateral K r c = ((Ok (), c) :: (unit, 'e) outcome \<times> _)"
    and "\<not> ch_is_full K c \<Longrightarrow> \<exists>c'. handle_unilateral K r c = ((Panic closed_message, c') :: (unit, 'e) outcome \<times> _)"
  using contract_closed [OF assms, of "unsolicited_of r"]
  by (cases "ch_send K (unsolicited_of r) c", simp add: handle_unilateral_eq send_expect_def)+

lemma forward_all_delivered:
  assumes "channel_contract K contents capacity is_open" and "is_open c"
  shows "\<exists>c'. forward_all K rs c = ((Ok (), c') :: (unit, 'e) outcome \<times> _)
            \<and> delivered contents capacity is_open c (map unsolicited_of rs) c'"
  using assms(2)
proof (induction rs arbitrary: c)
  case Nil
  then show ?case by (simp add: delivered_refl)
next
  case (Cons r rs)
  obtain c1 where c1: "handle_unilateral K r c = ((Ok (), c1) :: (unit, 'e) outcome \<times> _)"
    "delivered contents capacity is_open c [unsolicited_of r] c1"
    using handle_unilateral_delivered [OF assms(1) Cons.prems] by blast
  then have "is_open c1" by (simp add: delivered_def)
  then obtain c2 where "forward_all K rs c1 = ((Ok (), c2) :: (unit, 'e) outcome \<times> _)"
    "delivered contents capacity is_open c1 (map unsolicited_of rs) c2"
    using Cons.IH by blast
  then have "delivered contents capacity is_open c (map unsolicited_of (r # rs)) c2"
    using delivered_trans [OF c1(2), of "map unsolicited_of rs" c2] by simp
  with c1(1) \<open>forward_all K rs c1 = _\<close> show ?case
    by (intro exI [of _ c2] conjI) (simp_all only: forward_all.simps bind_out.simps)
qed

section \<open>An instance\<close>

text \<open>
  A queue with a capacity and a flag for \<open>close()\<close>, as the documentation of the channel describes
  it; only used to run the model on concrete inputs.
\<close>

record 'm fifo =
  fifo_capacity :: nat
  fifo_queue :: "'m list"
  fifo_closed :: bool

definition fifo_ops :: "('m fifo, 'm) channel_ops" where
  "fifo_ops =
     \<lparr>ch_bounded = (\<lambda>n. \<lparr>fifo_capacity = n, fifo_queue = [], fifo_closed = False\<rparr>),
      ch_is_full = (\<lambda>c. fifo_capacity c \<le> length (fifo_queue c)),
      ch_send = (\<lambda>m c.
        if fifo_closed c then (Send_Closed, c)
        else if fifo_capacity c \<le> length (fifo_queue c) then (Send_Waits, c)
        else (Sent, c\<lparr>fifo_queue := fifo_queue c @ [m]\<rparr>))\<rparr>"

lemma fifo_contract:
  "channel_contract fifo_ops fifo_queue fifo_capacity (\<lambda>c. \<not> fifo_closed c)"
  by (simp add: channel_contract_def fifo_ops_def)

definition fifo_new :: "nat \<Rightarrow> 'm fifo" where
  "fifo_new n = \<lparr>fifo_capacity = n, fifo_queue = [], fifo_closed = False\<rparr>"

section \<open>Properties\<close>

text \<open>
  C25: on an open channel \<open>handle_unilateral\<close> always returns at once, without a panic and without
  waiting, and leaves the channel open: with room the response is appended as the unsolicited
  response it stands for, on a full channel it is dropped and nothing already queued is touched.
\<close>

theorem handle_unilateral_open:
  assumes "channel_contract K contents capacity is_open" and "is_open c"
  shows "\<exists>c'. handle_unilateral K r c = ((Ok (), c') :: (unit, 'e) outcome \<times> 'c)
     \<and> is_open c' \<and> capacity c' = capacity c
     \<and> contents c' = (if length (contents c) < capacity c then contents c @ [unsolicited_of r] else contents c)"
  using handle_unilateral_delivered [OF assms, of r]
  by (auto simp: delivered_def take_Cons')

theorem handle_unilateral_open_witness:
  "\<exists>c'. handle_unilateral fifo_ops \<lparr>raw = [], parsed = R_Expunge 4\<rparr> (fifo_new 1)
          = ((Ok (), c') :: (unit, unit) outcome \<times> nat unsolicited_response fifo)
     \<and> fifo_queue c' = [U_Expunge 4]"
  using handle_unilateral_open [OF fifo_contract, of "fifo_new 1" "\<lparr>raw = [], parsed = R_Expunge 4\<rparr> :: nat response_data"]
  by (fastforce simp: fifo_new_def unsolicited_of_def)

text \<open>
  On a closed channel with room \<open>handle_unilateral\<close> panics for every response, whatever it is.
\<close>

theorem handle_unilateral_closed:
  assumes "channel_contract K contents capacity is_open" and "\<not> is_open c"
    and "length (contents c) < capacity c"
  shows "fst (handle_unilateral K r c) = (Panic ''Channel closed unexpectedly'' :: (unit, 'e) outcome)"
proof -
  have "\<not> ch_is_full K c" using assms by (simp add: contract_full)
  from handle_unilateral_shut(2) [OF assms(1,2) this, of r, where 'e = 'e] show ?thesis by auto
qed

theorem handle_unilateral_closed_witness:
  "fst (handle_unilateral fifo_ops \<lparr>raw = [], parsed = R_Expunge 4\<rparr>
      ((fifo_new 1)\<lparr>fifo_closed := True\<rparr> :: nat unsolicited_response fifo))
   = (Panic ''Channel closed unexpectedly'' :: (unit, unit) outcome)"
  by (rule handle_unilateral_closed [OF fifo_contract]) (simp_all add: fifo_new_def)

end
