(* ===== verification/Reply_Loop.thy ===== *)
theory Reply_Loop
  imports Unsolicited "HOL-Library.Sublist"
begin

text \<open>
  The contract the command parsers share.  Each of them reads responses until the tagged
  completion of its command and does one of three things with every other response: it keeps it
  (\<open>Absorb\<close>), hands it over as unsolicited (\<open>Forward\<close>), or gives up with an error (\<open>Fail\<close>).

  \<open>reply_loop\<close> states the equations of such a loop; the facts about whole runs are proved once
  from them.  \<open>accumulating_loop\<close> adds that what is done with a response does not depend on what
  was kept before and that \<open>Forward\<close> means \<open>handle_unilateral\<close>; \<open>filtering_loop\<close> is the contract of
  the parsers that never fail on a response and ignore the status of the completion.  The
  theories of the parsers interpret the locales on the parsers' definitions.
\<close>

datatype ('acc, 'x) reaction = Absorb 'acc | Forward | Fail "'x error"

text \<open>The work of a loop on a run of responses none of which completes the command.\<close>

fun absorb_all :: "('acc \<Rightarrow> 'x response_data \<Rightarrow> ('acc, 'x) reaction)
    \<Rightarrow> ('x response_data \<Rightarrow> 'c \<Rightarrow> (unit, 'x error) outcome \<times> 'c)
    \<Rightarrow> 'acc \<Rightarrow> 'x response_data list \<Rightarrow> 'c \<Rightarrow> ('acc, 'x error) outcome \<times> 'c" where
  "absorb_all react fwd acc [] c = (Ok acc, c)"
| "absorb_all react fwd acc (r # rs) c =
     (case react acc r of
        Absorb acc' \<Rightarrow> absorb_all react fwd acc' rs c
      | Forward \<Rightarrow> bind_out (fwd r c) (\<lambda>_ c'. absorb_all react fwd acc rs c')
      | Fail e \<Rightarrow> (Err e, c))"

text \<open>The answers of a stream that yields exactly these responses.\<close>

abbreviation responses :: "'x response_data list \<Rightarrow> 'x script" where
  "responses rs \<equiv> map (\<lambda>r. Some (Inr r)) rs"

text \<open>The answers that end a command: its completion, or the end of the stream.\<close>

definition ends_command :: "request_id \<Rightarrow> 'x item option \<Rightarrow> bool" where
  "ends_command tag t \<longleftrightarrow> (case t of None \<Rightarrow> True | Some (Inl e) \<Rightarrow> False | Some (Inr d) \<Rightarrow> completes tag d)"

lemma ends_command_cases:
  assumes "ends_command tag t"
  obtains "t = None" | d where "t = Some (Inr d)" and "completes tag d"
  using assms by (auto simp: ends_command_def split: option.splits sum.splits)

text \<open>
  What every parser of answers promises to the session that runs it on an open channel: it reads
  some first answers, and what it hands over are responses among these, in order, each at most
  once.
\<close>

definition offered :: "'x script \<Rightarrow> 'x unsolicited_response list" where
  "offered sc = map unsolicited_of (List.map_filter (\<lambda>t. case t of Some (Inr r) \<Rightarrow> Some r | _ \<Rightarrow> None) sc)"

definition hands_over :: "('c \<Rightarrow> 'x unsolicited_response list) \<Rightarrow> ('c \<Rightarrow> nat) \<Rightarrow> ('c \<Rightarrow> bool)
    \<Rightarrow> 'x script \<Rightarrow> 'c \<Rightarrow> 'x script \<Rightarrow> 'c \<Rightarrow> bool" where
  "hands_over contents capacity is_open sc c sc' c' \<longleftrightarrow>
     (\<exists>consumed ms. sc = consumed @ sc' \<and> subseq ms (offered consumed)
        \<and> delivered contents capacity is_open c ms c')"

lemma offered_simps [simp]:
  "offered [] = []"
  "offered (None # sc) = offered sc"
  "offered (Some (Inl e) # sc) = offered sc"
  "offered (Some (Inr r) # sc) = unsolicited_of r # offered sc"
  by (simp_all add: offered_def List.map_filter_simps)

lemma offered_append [simp]: "offered (sc @ sc') = offered sc @ offered sc'"
  by (simp add: offered_def map_filter_append)

lemma hands_over_refl [intro, simp]: "is_open c \<Longrightarrow> hands_over contents capacity is_open sc c sc c"
  by (auto simp: hands_over_def intro: delivered_refl exI [of _ "[]"])

lemma hands_over_trans:
  assumes "hands_over contents capacity is_open sc c sc1 c1" and "hands_over contents capacity is_open sc1 c1 sc2 c2"
  shows "hands_over contents capacity is_open sc c sc2 c2"
proof -
  obtain u ms where u: "sc = u @ sc1" "subseq ms (offered u)" "delivered contents capacity is_open c ms c1"
    using assms(1) by (auto simp: hands_over_def)
  obtain v ns where v: "sc1 = v @ sc2" "subseq ns (offered v)" "delivered contents capacity is_open c1 ns c2"
    using assms(2) by (auto simp: hands_over_def)
  from u v have "subseq (ms @ ns) (offered (u @ v))"
    by (simp add: list_emb_append_mono)
  moreover have "delivered contents capacity is_open c (ms @ ns) c2"
    using u(3) v(3) by (rule delivered_trans)
  ultimately show ?thesis
    unfolding hands_over_def u(1) v(1) by (intro exI [of _ "u @ v"] exI [of _ "ms @ ns"]) simp
qed

lemma hands_over_open: "hands_over contents capacity is_open sc c sc' c' \<Longrightarrow> is_open c'"
  by (auto simp: hands_over_def delivered_def)

text \<open>An answer that is kept, and one that is handed over.\<close>

lemma hands_over_skip [simp, intro]:
  assumes "is_open c"
  shows "hands_over contents capacity is_open (t # sc) c sc c"
  unfolding hands_over_def
  using assms by (intro exI [of _ "[t]"] exI [of _ "[]"]) (simp add: delivered_refl)

lemma hands_over_forward:
  assumes "delivered contents capacity is_open c [unsolicited_of r] c'"
  shows "hands_over contents capacity is_open (Some (Inr r) # sc) c sc c'"
  unfolding hands_over_def
  using assms by (intro exI [of _ "[Some (Inr r)]"] exI [of _ "[unsolicited_of r]"]) simp

lemma hands_over_Cons:
  assumes "hands_over contents capacity is_open sc c sc' c'"
  shows "hands_over contents capacity is_open (t # sc) c sc' c'"
proof -
  obtain used ms where "sc = used @ sc'" "subseq ms (offered used)" "delivered contents capacity is_open c ms c'"
    using assms by (auto simp: hands_over_def)
  moreover from this(2) have "subseq ms (offered (t # used))"
    by (cases t rule: option.exhaust) (auto simp: offered_def List.map_filter_simps split: sum.split)
  ultimately show ?thesis unfolding hands_over_def by (intro exI [of _ "t # used"] exI [of _ ms]) simp
qed

lemma hands_over_after:
  assumes K: "channel_contract K contents capacity is_open" and op: "is_open c"
    and run: "after (handle_unilateral K q c :: (unit, 'e) outcome \<times> 'c) sc (\<lambda>_. g) = (r, sc', c')"
    and IH: "\<And>c1. is_open c1 \<Longrightarrow> g c1 = (r, sc', c') \<Longrightarrow> hands_over contents capacity is_open sc c1 sc' c'"
  shows "hands_over contents capacity is_open (Some (Inr q) # sc) c sc' c'"
proof -
  obtain c1 where c1: "handle_unilateral K q c = ((Ok (), c1) :: (unit, 'e) outcome \<times> 'c)"
    "delivered contents capacity is_open c [unsolicited_of q] c1"
    using handle_unilateral_delivered [OF K op] by blast
  with run have "g c1 = (r, sc', c')" by simp
  moreover from c1(2) have "is_open c1" by (simp add: delivered_def)
  ultimately show ?thesis using IH hands_over_forward [OF c1(2)] by (metis hands_over_trans)
qed

locale answer_parser =
  fixes parse :: "'x script \<Rightarrow> 'c \<Rightarrow> ('r, 'x error) outcome \<times> 'x script \<times> 'c"
    and K :: "('c, 'x unsolicited_response) channel_ops"
  assumes parse_hands_over: "channel_contract K contents capacity is_open \<Longrightarrow> is_open c \<Longrightarrow>
          parse sc c = (r, sc', c') \<Longrightarrow> hands_over contents capacity is_open sc c sc' c'"

text \<open>
  A parser that reads on demand: on an open channel it does not panic, it waits only when it has
  read all answers and none of them was an answer it ends at, and when it returns the answers behind
  those it has read play no part.  On a closed channel it panics for one reason only, that it has
  something to hand over.
\<close>

locale demand_parser = answer_parser parse K
  for parse :: "'x script \<Rightarrow> 'c \<Rightarrow> ('r, 'x error) outcome \<times> 'x script \<times> 'c"
    and K :: "('c, 'x unsolicited_response) channel_ops" +
  fixes ends :: "'x item option \<Rightarrow> bool"
  assumes parse_settles: "channel_contract K contents capacity is_open \<Longrightarrow> is_open c \<Longrightarrow>
          parse sc c = (r, sc', c') \<Longrightarrow> settled r \<or> r = Pending \<and> sc' = [] \<and> (\<forall>t \<in> set sc. \<not> ends t)"
    and parse_local: "channel_contract K contents capacity is_open \<Longrightarrow> is_open c \<Longrightarrow>
          parse sc c = (r, sc', c') \<Longrightarrow> settled r \<Longrightarrow>
          \<exists>consumed. sc = consumed @ sc' \<and> (\<forall>later. parse (consumed @ later) c = (r, later, c'))"
    and parse_shut: "channel_contract K contents capacity is_open \<Longrightarrow> \<not> is_open c \<Longrightarrow>
          fst (parse sc c) = Panic m \<Longrightarrow> m = closed_message \<and> \<not> ch_is_full K c"

text \<open>The answers at which a command ends: its completion, an I/O error, the end of the stream.\<close>

definition finishes :: "request_id \<Rightarrow> 'x item option \<Rightarrow> bool" where
  "finishes tag t \<longleftrightarrow> (case t of Some (Inr r) \<Rightarrow> completes tag r | _ \<Rightarrow> True)"

lemma finishes_simps [simp]:
  "finishes tag None" "finishes tag (Some (Inl e))" "finishes tag (Some (Inr r)) \<longleftrightarrow> completes tag r"
  by (simp_all add: finishes_def)

locale reply_loop =
  fixes loop :: "request_id \<Rightarrow> 'acc \<Rightarrow> 'x script \<Rightarrow> 'c \<Rightarrow> ('r, 'x error) outcome \<times> 'x script \<times> 'c"
    and react :: "'acc \<Rightarrow> 'x response_data \<Rightarrow> ('acc, 'x) reaction"
    and forward :: "'x response_data \<Rightarrow> 'c \<Rightarrow> (unit, 'x error) outcome \<times> 'c"
    and complete :: "'acc \<Rightarrow> 'x response_data \<Rightarrow> ('r, 'x error) outcome"
    and finish :: "'acc \<Rightarrow> ('r, 'x error) outcome"
  assumes loop_Nil: "loop tag acc [] c = (Pending, [], c)"
    and loop_end: "loop tag acc (None # sc) c = (finish acc, sc, c)"
    and loop_error: "loop tag acc (Some (Inl io) # sc) c = (Err (Io io), sc, c)"
    and loop_complete: "completes tag r \<Longrightarrow>
          loop tag acc (Some (Inr r) # sc) c = (complete acc r, sc, c)"
    and loop_absorb: "\<not> completes tag r \<Longrightarrow> react acc r = Absorb acc' \<Longrightarrow>
          loop tag acc (Some (Inr r) # sc) c = loop tag acc' sc c"
    and loop_forward: "\<not> completes tag r \<Longrightarrow> react acc r = Forward \<Longrightarrow> forward r c = (Ok (), c') \<Longrightarrow>
          loop tag acc (Some (Inr r) # sc) c = loop tag acc sc c'"
    and loop_forward_panic: "\<not> completes tag r \<Longrightarrow> react acc r = Forward \<Longrightarrow> forward r c = (Panic m, c') \<Longrightarrow>
          fst (loop tag acc (Some (Inr r) # sc) c) = Panic m"
    and loop_fail: "\<not> completes tag r \<Longrightarrow> react acc r = Fail e \<Longrightarrow>
          loop tag acc (Some (Inr r) # sc) c = (Err e, sc, c)"
begin

text \<open>A run of responses of which none completes the command only changes the accumulator.\<close>

lemma run_prefix:
  assumes "\<forall>r \<in> set rs. \<not> completes tag r"
    and "absorb_all react forward acc rs c = (Ok acc', c')"
  shows "loop tag acc (responses rs @ sc) c = loop tag acc' sc c'"
  using assms
proof (induction rs arbitrary: acc c)
  case Nil
  then show ?case by simp
next
  case (Cons r rs)
  show ?case
  proof (cases "react acc r")
    case (Absorb a)
    with Cons show ?thesis by (simp add: loop_absorb)
  next
    case Forward
    with Cons.prems(2) obtain c1 where "forward r c = (Ok (), c1)"
      and "absorb_all react forward acc rs c1 = (Ok acc', c')"
      by (auto simp: bind_out_Ok_iff)
    with Forward Cons show ?thesis by (simp add: loop_forward)
  next
    case (Fail e)
    with Cons.prems show ?thesis by simp
  qed
qed

lemma run_complete:
  assumes "\<forall>r \<in> set rs. \<not> completes tag r"
    and "absorb_all react forward acc rs c = (Ok acc', c')" and "completes tag d"
  shows "loop tag acc (responses rs @ Some (Inr d) # sc) c = (complete acc' d, sc, c')"
  using run_prefix [OF assms(1,2)] assms(3) by (simp add: loop_complete)

lemma run_end:
  assumes "\<forall>r \<in> set rs. \<not> completes tag r"
    and "absorb_all react forward acc rs c = (Ok acc', c')"
  shows "loop tag acc (responses rs @ None # sc) c = (finish acc', sc, c')"
  using run_prefix [OF assms] by (simp add: loop_end)

lemma run_error:
  assumes "\<forall>r \<in> set rs. \<not> completes tag r"
    and "absorb_all react forward acc rs c = (Ok acc', c')"
  shows "loop tag acc (responses rs @ Some (Inl e) # sc) c = (Err (Io e), sc, c')"
  using run_prefix [OF assms] by (simp add: loop_error)

lemma run_pending:
  assumes "\<forall>r \<in> set rs. \<not> completes tag r"
    and "absorb_all react forward acc rs c = (Ok acc', c')"
  shows "loop tag acc (responses rs) c = (Pending, [], c')"
  using run_prefix [OF assms, of "[]"] by (simp add: loop_Nil)

text \<open>A response on which the loop gives up ends it with that error.\<close>

lemma run_fail:
  assumes "\<forall>r \<in> set rs. \<not> completes tag r"
    and "absorb_all react forward acc rs c = (Ok acc', c')"
    and "\<not> completes tag r" and "react acc' r = Fail e"
  shows "loop tag acc (responses rs @ Some (Inr r) # sc) c = (Err e, sc, c')"
  using run_prefix [OF assms(1,2)] assms(3,4) by (simp add: loop_fail)

end

text \<open>
  A parser that keeps a part \<open>keep r\<close> of some responses, which \<open>add\<close> puts into its accumulator,
  gives up on the responses for which \<open>fails\<close> names an error, and hands over all others.
\<close>

definition keep_reaction ::
    "('x response_data \<Rightarrow> 'p option) \<Rightarrow> ('p \<Rightarrow> 'acc \<Rightarrow> 'acc) \<Rightarrow> ('x response_data \<Rightarrow> 'x error option)
     \<Rightarrow> 'acc \<Rightarrow> 'x response_data \<Rightarrow> ('acc, 'x) reaction" where
  "keep_reaction keep add fails acc r =
     (case fails r of
        Some e \<Rightarrow> Fail e
      | None \<Rightarrow> (case keep r of Some p \<Rightarrow> Absorb (add p acc) | None \<Rightarrow> Forward))"

locale accumulating_loop = reply_loop loop react forward complete finish
  for loop :: "request_id \<Rightarrow> 'acc \<Rightarrow> 'x script \<Rightarrow> 'c \<Rightarrow> ('r, 'x error) outcome \<times> 'x script \<times> 'c"
    and react :: "'acc \<Rightarrow> 'x response_data \<Rightarrow> ('acc, 'x) reaction"
    and forward :: "'x response_data \<Rightarrow> 'c \<Rightarrow> (unit, 'x error) outcome \<times> 'c"
    and complete :: "'acc \<Rightarrow> 'x response_data \<Rightarrow> ('r, 'x error) outcome"
    and finish :: "'acc \<Rightarrow> ('r, 'x error) outcome" +
  fixes K :: "('c, 'x unsolicited_response) channel_ops"
    and keep :: "'x response_data \<Rightarrow> 'p option"
    and add :: "'p \<Rightarrow> 'acc \<Rightarrow> 'acc"
    and fails :: "'x response_data \<Rightarrow> 'x error option"
  assumes react_keep: "react acc r = keep_reaction keep add fails acc r"
    and forward_unilateral: "forward = handle_unilateral K"
    and complete_settled: "settled (complete acc r)"
    and finish_settled: "settled (finish acc)"
begin

lemma absorb_all_keep:
  assumes K: "channel_contract K contents capacity is_open" and "is_open c"
    and "\<forall>r \<in> set rs. fails r = None"
  shows "\<exists>c'. absorb_all react forward acc rs c = (Ok (fold add (List.map_filter keep rs) acc), c')
     \<and> delivered contents capacity is_open c (map unsolicited_of (filter (\<lambda>r. keep r = None) rs)) c'"
  using assms(2,3)
proof (induction rs arbitrary: acc c)
  case Nil
  then show ?case by (simp add: delivered_refl List.map_filter_simps)
next
  case (Cons r rs)
  show ?case
  proof (cases "keep r")
    case (Some p)
    with Cons show ?thesis by (simp add: react_keep keep_reaction_def List.map_filter_simps)
  next
    case None
    obtain c1 where c1: "handle_unilateral K r c = ((Ok (), c1) :: (unit, 'x error) outcome \<times> _)"
      "delivered contents capacity is_open c [unsolicited_of r] c1"
      using handle_unilateral_delivered [OF K Cons.prems(1)] by blast
    then have "is_open c1" by (simp add: delivered_def)
    with Cons.prems obtain c2 where c2:
      "absorb_all react forward acc rs c1 = (Ok (fold add (List.map_filter keep rs) acc), c2)"
      "delivered contents capacity is_open c1 (map unsolicited_of (filter (\<lambda>r. keep r = None) rs)) c2"
      using Cons.IH [of c1 acc] by auto
    have "delivered contents capacity is_open c
        (map unsolicited_of (filter (\<lambda>r. keep r = None) (r # rs))) c2"
      using delivered_trans [OF c1(2) c2(2)] None by simp
    moreover have "react acc r = Forward" and "forward r c = (Ok (), c1)"
      using None c1(1) Cons.prems by (simp_all add: react_keep keep_reaction_def forward_unilateral)
    ultimately show ?thesis
      using c2(1) None by (intro exI [of _ c2]) (simp add: List.map_filter_simps)
  qed
qed

text \<open>
  A whole run: the kept parts make the accumulator, all other responses are offered to the
  channel in order, and nothing behind the answer that ends the run is read.
\<close>

lemma run_keep_complete:
  assumes K: "channel_contract K contents capacity is_open" and op: "is_open c"
    and rs: "\<forall>r \<in> set rs. \<not> completes tag r" and ok: "\<forall>r \<in> set rs. fails r = None"
    and d: "completes tag d"
  shows "\<exists>c'. loop tag acc (responses rs @ Some (Inr d) # sc) c =
           (complete (fold add (List.map_filter keep rs) acc) d, sc, c')
     \<and> delivered contents capacity is_open c (map unsolicited_of (filter (\<lambda>r. keep r = None) rs)) c'"
  using absorb_all_keep [OF K op ok, of acc] run_complete [OF rs _ d] by blast

lemma run_keep_end:
  assumes K: "channel_contract K contents capacity is_open" and op: "is_open c"
    and rs: "\<forall>r \<in> set rs. \<not> completes tag r" and ok: "\<forall>r \<in> set rs. fails r = None"
  shows "\<exists>c'. loop tag acc (responses rs @ None # sc) c =
           (finish (fold add (List.map_filter keep rs) acc), sc, c')
     \<and> delivered contents capacity is_open c (map unsolicited_of (filter (\<lambda>r. keep r = None) rs)) c'"
  using absorb_all_keep [OF K op ok, of acc] run_end [OF rs] by blast

lemma run_keep_error:
  assumes K: "channel_contract K contents capacity is_open" and op: "is_open c"
    and rs: "\<forall>r \<in> set rs. \<not> completes tag r" and ok: "\<forall>r \<in> set rs. fails r = None"
  shows "\<exists>c'. loop tag acc (responses rs @ Some (Inl e) # sc) c = (Err (Io e), sc, c')
     \<and> delivered contents capacity is_open c (map unsolicited_of (filter (\<lambda>r. keep r = None) rs)) c'"
  using absorb_all_keep [OF K op ok, of acc] run_error [OF rs] by blast

lemma run_keep_fail:
  assumes K: "channel_contract K contents capacity is_open" and op: "is_open c"
    and rs: "\<forall>r \<in> set rs. \<not> completes tag r" and ok: "\<forall>r \<in> set rs. fails r = None"
    and r: "\<not> completes tag r" "fails r = Some e"
  shows "\<exists>c'. loop tag acc (responses rs @ Some (Inr r) # sc) c = (Err e, sc, c')
     \<and> delivered contents capacity is_open c (map unsolicited_of (filter (\<lambda>r. keep r = None) rs)) c'"
proof -
  have "react a r = Fail e" for a
    using r(2) by (simp add: react_keep keep_reaction_def)
  then show ?thesis
    using absorb_all_keep [OF K op ok, of acc] run_fail [OF rs _ r(1)] by blast
qed

text \<open>What one answer does to the loop on an open channel: it ends it or takes it further.\<close>

lemma loop_step:
  assumes K: "channel_contract K contents capacity is_open" and op: "is_open c"
  obtains (stop) r where "\<And>sc. loop tag acc (t # sc) c = (r, sc, c)" and "settled r"
  | (go) acc' c' where "\<And>sc. loop tag acc (t # sc) c = loop tag acc' sc c'" and "is_open c'"
      and "\<And>sc. hands_over contents capacity is_open (t # sc) c sc c'" and "\<not> finishes tag t"
proof -
  consider "t = None" | e where "t = Some (Inl e)" | r where "t = Some (Inr r)" "completes tag r"
    | a r where "t = Some (Inr r)" "\<not> completes tag r" "react acc r = Absorb a"
    | r where "t = Some (Inr r)" "\<not> completes tag r" "react acc r = Forward"
    | e r where "t = Some (Inr r)" "\<not> completes tag r" "react acc r = Fail e"
    by (metis option.exhaust sum.exhaust reaction.exhaust)
  then show thesis
  proof cases
    case (4 a r)
    with op show thesis by (intro go [of a c]) (auto simp: loop_absorb)
  next
    case (5 r)
    obtain c1 where c1: "forward r c = (Ok (), c1)" "delivered contents capacity is_open c [unsolicited_of r] c1"
      unfolding forward_unilateral using handle_unilateral_delivered [OF K op] by blast
    with 5 show thesis
      by (intro go [of acc c1]) (auto simp: loop_forward delivered_def intro: hands_over_forward)
  qed (auto intro: stop simp: loop_end loop_error loop_complete loop_fail finish_settled complete_settled)
qed

text \<open>And on a closed one: the channel stays as it is until a response is handed over.\<close>

lemma loop_shut_step:
  assumes K: "channel_contract K contents capacity is_open" and "\<not> is_open c"
  obtains (stop) r where "\<And>sc. loop tag acc (t # sc) c = (r, sc, c)" and "settled r"
  | (go) acc' where "\<And>sc. loop tag acc (t # sc) c = loop tag acc' sc c"
  | (shut) "\<And>sc. fst (loop tag acc (t # sc) c) = Panic closed_message" and "\<not> ch_is_full K c"
proof -
  consider "t = None" | e where "t = Some (Inl e)" | r where "t = Some (Inr r)" "completes tag r"
    | a r where "t = Some (Inr r)" "\<not> completes tag r" "react acc r = Absorb a"
    | r where "t = Some (Inr r)" "\<not> completes tag r" "react acc r = Forward"
    | e r where "t = Some (Inr r)" "\<not> completes tag r" "react acc r = Fail e"
    by (metis option.exhaust sum.exhaust reaction.exhaust)
  then show thesis
  proof cases
    case (4 a r)
    then show thesis by (intro go [of a]) (simp add: loop_absorb)
  next
    case (5 r)
    note chan = handle_unilateral_shut [OF assms, of r, where 'e = "'x error", folded forward_unilateral]
    show thesis
    proof (cases "ch_is_full K c")
      case True
      with 5 chan(1) show thesis by (intro go [of acc]) (simp add: loop_forward)
    next
      case False
      with chan(2) obtain c' where "forward r c = (Panic closed_message, c')" by blast
      from loop_forward_panic [OF 5(2,3) this] False 5(1) show thesis by (intro shut) simp_all
    qed
  qed (auto intro: stop simp: loop_end loop_error loop_complete loop_fail finish_settled complete_settled)
qed

text \<open>Until the completion arrives the command waits.\<close>

lemma run_keep_pending:
  assumes K: "channel_contract K contents capacity is_open" and op: "is_open c"
    and rs: "\<forall>r \<in> set rs. \<not> completes tag r" and ok: "\<forall>r \<in> set rs. fails r = None"
  shows "\<exists>c'. loop tag acc (responses rs) c = (Pending, [], c')
     \<and> delivered contents capacity is_open c (map unsolicited_of (filter (\<lambda>r. keep r = None) rs)) c'"
  using absorb_all_keep [OF K op ok, of acc] run_pending [OF rs] by blast

end

text \<open>Every accumulating loop is a parser of answers and reads on demand.\<close>

sublocale accumulating_loop \<subseteq> answers: demand_parser "loop tag acc" K "finishes tag" for tag acc
proof
  fix contents capacity is_open c sc r sc' c'
  assume K: "channel_contract K contents capacity is_open"
  show "is_open c \<Longrightarrow> loop tag acc sc c = (r, sc', c') \<Longrightarrow> hands_over contents capacity is_open sc c sc' c'"
  proof (induction sc arbitrary: acc c)
    case Nil
    then show ?case by (auto simp: loop_Nil)
  next
    case (Cons t sc)
    show ?case
      using Cons by (cases rule: loop_step [OF K Cons.prems(1), of tag acc t]) (auto, metis hands_over_trans)
  qed
  show "is_open c \<Longrightarrow> loop tag acc sc c = (r, sc', c') \<Longrightarrow>
      settled r \<or> r = Pending \<and> sc' = [] \<and> (\<forall>t \<in> set sc. \<not> finishes tag t)"
  proof (induction sc arbitrary: acc c)
    case Nil
    then show ?case by (auto simp: loop_Nil)
  next
    case (Cons t sc)
    show ?case
      using Cons by (cases rule: loop_step [OF K Cons.prems(1), of tag acc t]) auto
  qed
  show "is_open c \<Longrightarrow> loop tag acc sc c = (r, sc', c') \<Longrightarrow> settled r \<Longrightarrow>
      \<exists>consumed. sc = consumed @ sc' \<and> (\<forall>later. loop tag acc (consumed @ later) c = (r, later, c'))"
  proof (induction sc arbitrary: acc c)
    case Nil
    then show ?case by (auto simp: loop_Nil)
  next
    case (Cons t sc)
    show ?case
    proof (cases rule: loop_step [OF K Cons.prems(1), of tag acc t])
      case (1 res)
      with Cons.prems show ?thesis by (intro exI [of _ "[t]"]) auto
    next
      case (2 acc1 c1)
      with Cons obtain consumed where "sc = consumed @ sc'" "\<forall>later. loop tag acc1 (consumed @ later) c1 = (r, later, c')"
        by metis
      with 2 show ?thesis by (intro exI [of _ "t # consumed"]) auto
    qed
  qed
  show "fst (loop tag acc sc c) = Panic m \<Longrightarrow> m = closed_message \<and> \<not> ch_is_full K c"
    if "\<not> is_open c" for m
  proof (induction sc arbitrary: acc)
    case Nil
    then show ?case by (simp add: loop_Nil)
  next
    case (Cons t sc)
    then show ?case by (cases rule: loop_shut_step [OF K that, of tag acc t]) auto
  qed
qed

text \<open>
  The parsers that never fail on a response and do not look at the status of the completion.
\<close>

abbreviation filter_reaction ::
    "('x response_data \<Rightarrow> 'p option) \<Rightarrow> ('p \<Rightarrow> 'acc \<Rightarrow> 'acc) \<Rightarrow> 'acc \<Rightarrow> 'x response_data \<Rightarrow> ('acc, 'x) reaction" where
  "filter_reaction keep add \<equiv> keep_reaction keep add (\<lambda>_. None)"

locale filtering_loop = accumulating_loop loop "filter_reaction keep add" "handle_unilateral K"
    "\<lambda>acc _. finish acc" finish K keep add "\<lambda>_. None"
  for loop :: "request_id \<Rightarrow> 'acc \<Rightarrow> 'x script \<Rightarrow> 'c \<Rightarrow> ('r, 'x error) outcome \<times> 'x script \<times> 'c"
    and finish :: "'acc \<Rightarrow> ('r, 'x error) outcome"
    and K :: "('c, 'x unsolicited_response) channel_ops"
    and keep :: "'x response_data \<Rightarrow> 'p option"
    and add :: "'p \<Rightarrow> 'acc \<Rightarrow> 'acc"
begin

lemma run_filter:
  assumes K: "channel_contract K contents capacity is_open" and op: "is_open c"
    and rs: "\<forall>r \<in> set rs. \<not> completes tag r"
    and t: "ends_command tag t"
  shows "\<exists>c'. loop tag acc (responses rs @ t # sc) c =
           (finish (fold add (List.map_filter keep rs) acc), sc, c')
     \<and> delivered contents capacity is_open c (map unsolicited_of (filter (\<lambda>r. keep r = None) rs)) c'"
  using t
proof (cases rule: ends_command_cases)
  case 1
  with run_keep_end [OF K op rs] show ?thesis by simp
next
  case (2 d)
  with run_keep_complete [OF K op rs _ 2(2)] show ?thesis by simp
qed

end

end
