(* ===== verification/Parse.thy ===== *)
theory Parse
  imports Reply_Loop Capabilities Quota
begin

text \<open>
  The command parsers of \<open>src/parse.rs\<close>, \<open>src/extensions/quota.rs\<close> and \<open>src/extensions/id.rs\<close>
  that read a command's responses with \<open>stream.take_while(filter).next()\<close> in a loop.  Each is a
  recursion over the script of the stream; each is then shown to be a \<open>filtering_loop\<close>, so that
  the facts about whole runs hold of it.
\<close>

section \<open>The parsers\<close>

text \<open>
  \<open>while let Some(resp) = stream.take_while(|res| filter(res, &command_tag)).next().await\<close>: a new
  \<open>take_while\<close> every time, which consumes the completion and yields nothing.
\<close>

fun parse_capabilities_loop :: "('c, 'x unsolicited_response) channel_ops \<Rightarrow> request_id \<Rightarrow> capabilities
    \<Rightarrow> 'x script \<Rightarrow> 'c \<Rightarrow> (capabilities, 'x error) outcome \<times> 'x script \<times> 'c" where
  "parse_capabilities_loop K tag caps [] c = (Pending, [], c)"
| "parse_capabilities_loop K tag caps (None # sc) c = (Ok caps, sc, c)"
| "parse_capabilities_loop K tag caps (Some res # sc) c =
     (if filter_sync res tag then
        (case res of
           Inl e \<Rightarrow> (Err (Io e), sc, c)
         | Inr resp \<Rightarrow>
             (case parsed resp of
                R_Capabilities cs \<Rightarrow>
                  parse_capabilities_loop K tag (fold (\<lambda>cp. insert (capability_from cp)) cs caps) sc c
              | _ \<Rightarrow> after (handle_unilateral K resp c) sc (\<lambda>_ c'. parse_capabilities_loop K tag caps sc c')))
      else (Ok caps, sc, c))"

definition parse_capabilities :: "('c, 'x unsolicited_response) channel_ops \<Rightarrow> request_id
    \<Rightarrow> 'x script \<Rightarrow> 'c \<Rightarrow> (capabilities, 'x error) outcome \<times> 'x script \<times> 'c" where
  "parse_capabilities K tag sc c = parse_capabilities_loop K tag {} sc c"

fun parse_noop :: "('c, 'x unsolicited_response) channel_ops \<Rightarrow> request_id
    \<Rightarrow> 'x script \<Rightarrow> 'c \<Rightarrow> (unit, 'x error) outcome \<times> 'x script \<times> 'c" where
  "parse_noop K tag [] c = (Pending, [], c)"
| "parse_noop K tag (None # sc) c = (Ok (), sc, c)"
| "parse_noop K tag (Some res # sc) c =
     (if filter_sync res tag then
        (case res of
           Inl e \<Rightarrow> (Err (Io e), sc, c)
         | Inr resp \<Rightarrow> after (handle_unilateral K resp c) sc (\<lambda>_ c'. parse_noop K tag sc c'))
      else (Ok (), sc, c))"

fun parse_ids_loop :: "('c, 'x unsolicited_response) channel_ops \<Rightarrow> request_id \<Rightarrow> u32 set
    \<Rightarrow> 'x script \<Rightarrow> 'c \<Rightarrow> (u32 set, 'x error) outcome \<times> 'x script \<times> 'c" where
  "parse_ids_loop K tag ids [] c = (Pending, [], c)"
| "parse_ids_loop K tag ids (None # sc) c = (Ok ids, sc, c)"
| "parse_ids_loop K tag ids (Some res # sc) c =
     (if filter_sync res tag then
        (case res of
           Inl e \<Rightarrow> (Err (Io e), sc, c)
         | Inr resp \<Rightarrow>
             (case parsed resp of
                R_MailboxData (MD_Search cs) \<Rightarrow> parse_ids_loop K tag (fold insert cs ids) sc c
              | _ \<Rightarrow> after (handle_unilateral K resp c) sc (\<lambda>_ c'. parse_ids_loop K tag ids sc c')))
      else (Ok ids, sc, c))"

definition parse_ids :: "('c, 'x unsolicited_response) channel_ops \<Rightarrow> request_id
    \<Rightarrow> 'x script \<Rightarrow> 'c \<Rightarrow> (u32 set, 'x error) outcome \<times> 'x script \<times> 'c" where
  "parse_ids K tag sc c = parse_ids_loop K tag {} sc c"

text \<open>\<open>parse_metadata\<close> keeps the values of the mailbox it asked for only (the guard of its arm).\<close>

definition solicited_metadata :: "string \<Rightarrow> 'x response_data \<Rightarrow> 'x list option" where
  "solicited_metadata mbox resp =
     (case parsed resp of
        R_MailboxData (MD_MetadataSolicited m vals) \<Rightarrow> if m = mbox then Some vals else None
      | _ \<Rightarrow> None)"

fun parse_metadata_loop :: "('c, 'x unsolicited_response) channel_ops \<Rightarrow> string \<Rightarrow> request_id \<Rightarrow> 'x list
    \<Rightarrow> 'x script \<Rightarrow> 'c \<Rightarrow> ('x list, 'x error) outcome \<times> 'x script \<times> 'c" where
  "parse_metadata_loop K mbox tag res_values [] c = (Pending, [], c)"
| "parse_metadata_loop K mbox tag res_values (None # sc) c = (Ok res_values, sc, c)"
| "parse_metadata_loop K mbox tag res_values (Some res # sc) c =
     (if filter_sync res tag then
        (case res of
           Inl e \<Rightarrow> (Err (Io e), sc, c)
         | Inr resp \<Rightarrow>
             (case solicited_metadata mbox resp of
                Some vals \<Rightarrow> parse_metadata_loop K mbox tag (res_values @ vals) sc c
              | None \<Rightarrow> after (handle_unilateral K resp c) sc (\<lambda>_ c'. parse_metadata_loop K mbox tag res_values sc c')))
      else (Ok res_values, sc, c))"

definition parse_metadata :: "('c, 'x unsolicited_response) channel_ops \<Rightarrow> string \<Rightarrow> request_id
    \<Rightarrow> 'x script \<Rightarrow> 'c \<Rightarrow> ('x list, 'x error) outcome \<times> 'x script \<times> 'c" where
  "parse_metadata K mbox tag sc c = parse_metadata_loop K mbox tag [] sc c"

text \<open>\<open>GETQUOTA\<close>: the last quota response counts, and there has to be one.\<close>

definition quota_result :: "quota option \<Rightarrow> (quota, 'x error) outcome" where
  "quota_result q =
     (case q of
        Some q \<Rightarrow> Ok q
      | None \<Rightarrow> Err (Parse (ExpectedResponseNotFound ''Quota, no quota response found'')))"

fun parse_get_quota_loop :: "('c, 'x unsolicited_response) channel_ops \<Rightarrow> request_id \<Rightarrow> quota option
    \<Rightarrow> 'x script \<Rightarrow> 'c \<Rightarrow> (quota, 'x error) outcome \<times> 'x script \<times> 'c" where
  "parse_get_quota_loop K tag q [] c = (Pending, [], c)"
| "parse_get_quota_loop K tag q (None # sc) c = (quota_result q, sc, c)"
| "parse_get_quota_loop K tag q (Some res # sc) c =
     (if filter_sync res tag then
        (case res of
           Inl e \<Rightarrow> (Err (Io e), sc, c)
         | Inr resp \<Rightarrow>
             (case parsed resp of
                R_Quota q' \<Rightarrow> parse_get_quota_loop K tag (Some (quota_from q')) sc c
              | _ \<Rightarrow> after (handle_unilateral K resp c) sc (\<lambda>_ c'. parse_get_quota_loop K tag q sc c')))
      else (quota_result q, sc, c))"

definition parse_get_quota :: "('c, 'x unsolicited_response) channel_ops \<Rightarrow> request_id
    \<Rightarrow> 'x script \<Rightarrow> 'c \<Rightarrow> (quota, 'x error) outcome \<times> 'x script \<times> 'c" where
  "parse_get_quota K tag sc c = parse_get_quota_loop K tag None sc c"

fun parse_get_quota_root_loop :: "('c, 'x unsolicited_response) channel_ops \<Rightarrow> request_id \<Rightarrow> quota_root list \<times> quota list
    \<Rightarrow> 'x script \<Rightarrow> 'c \<Rightarrow> (quota_root list \<times> quota list, 'x error) outcome \<times> 'x script \<times> 'c" where
  "parse_get_quota_root_loop K tag (roots, quotas) [] c = (Pending, [], c)"
| "parse_get_quota_root_loop K tag (roots, quotas) (None # sc) c = (Ok (roots, quotas), sc, c)"
| "parse_get_quota_root_loop K tag (roots, quotas) (Some res # sc) c =
     (if filter_sync res tag then
        (case res of
           Inl e \<Rightarrow> (Err (Io e), sc, c)
         | Inr resp \<Rightarrow>
             (case parsed resp of
                R_QuotaRoot qr \<Rightarrow> parse_get_quota_root_loop K tag (roots @ [quota_root_from qr], quotas) sc c
              | R_Quota q \<Rightarrow> parse_get_quota_root_loop K tag (roots, quotas @ [quota_from q]) sc c
              | _ \<Rightarrow> after (handle_unilateral K resp c) sc (\<lambda>_ c'. parse_get_quota_root_loop K tag (roots, quotas) sc c')))
      else (Ok (roots, quotas), sc, c))"

definition parse_get_quota_root :: "('c, 'x unsolicited_response) channel_ops \<Rightarrow> request_id
    \<Rightarrow> 'x script \<Rightarrow> 'c \<Rightarrow> (quota_root list \<times> quota list, 'x error) outcome \<times> 'x script \<times> 'c" where
  "parse_get_quota_root K tag sc c = parse_get_quota_root_loop K tag ([], []) sc c"

text \<open>\<open>ID\<close>: the last \<open>ID\<close> response counts, \<open>ID NIL\<close> included; its pairs are collected into a map.\<close>

definition collect_map :: "(string \<times> string) list \<Rightarrow> (string \<rightharpoonup> string)" where
  "collect_map kvs = fold (\<lambda>(k, v) m. m(k \<mapsto> v)) kvs Map.empty"

fun parse_id_loop :: "('c, 'x unsolicited_response) channel_ops \<Rightarrow> request_id \<Rightarrow> (string \<rightharpoonup> string) option
    \<Rightarrow> 'x script \<Rightarrow> 'c \<Rightarrow> ((string \<rightharpoonup> string) option, 'x error) outcome \<times> 'x script \<times> 'c" where
  "parse_id_loop K tag i [] c = (Pending, [], c)"
| "parse_id_loop K tag i (None # sc) c = (Ok i, sc, c)"
| "parse_id_loop K tag i (Some res # sc) c =
     (if filter_sync res tag then
        (case res of
           Inl e \<Rightarrow> (Err (Io e), sc, c)
         | Inr resp \<Rightarrow>
             (case parsed resp of
                R_Id res' \<Rightarrow> parse_id_loop K tag (map_option collect_map res') sc c
              | _ \<Rightarrow> after (handle_unilateral K resp c) sc (\<lambda>_ c'. parse_id_loop K tag i sc c')))
      else (Ok i, sc, c))"

definition parse_id :: "('c, 'x unsolicited_response) channel_ops \<Rightarrow> request_id
    \<Rightarrow> 'x script \<Rightarrow> 'c \<Rightarrow> ((string \<rightharpoonup> string) option, 'x error) outcome \<times> 'x script \<times> 'c" where
  "parse_id K tag sc c = parse_id_loop K tag None sc c"

section \<open>The parsers are filtering loops\<close>

text \<open>What each parser keeps of a response.\<close>

definition listed_capabilities :: "'x response_data \<Rightarrow> capability_ref list option" where
  "listed_capabilities r = (case parsed r of R_Capabilities cs \<Rightarrow> Some cs | _ \<Rightarrow> None)"

definition search_ids :: "'x response_data \<Rightarrow> u32 list option" where
  "search_ids r = (case parsed r of R_MailboxData (MD_Search cs) \<Rightarrow> Some cs | _ \<Rightarrow> None)"

definition quota_of :: "'x response_data \<Rightarrow> quota option" where
  "quota_of r = (case parsed r of R_Quota q \<Rightarrow> Some (quota_from q) | _ \<Rightarrow> None)"

definition quota_root_of :: "'x response_data \<Rightarrow> quota_root option" where
  "quota_root_of r = (case parsed r of R_QuotaRoot q \<Rightarrow> Some (quota_root_from q) | _ \<Rightarrow> None)"

definition id_of :: "'x response_data \<Rightarrow> (string \<rightharpoonup> string) option option" where
  "id_of r = (case parsed r of R_Id m \<Rightarrow> Some (map_option collect_map m) | _ \<Rightarrow> None)"

interpretation noop: filtering_loop
  "\<lambda>tag (_::unit). parse_noop K tag" "\<lambda>_. Ok ()" K "\<lambda>_. None" "\<lambda>_ acc. acc" for K
  by unfold_locales (auto simp: keep_reaction_def)

interpretation capabilities: filtering_loop
  "parse_capabilities_loop K" Ok K listed_capabilities "fold (\<lambda>cp. insert (capability_from cp))" for K
  by unfold_locales (auto simp: keep_reaction_def listed_capabilities_def split: response.splits)

interpretation ids: filtering_loop "parse_ids_loop K" Ok K search_ids "fold insert" for K
  by unfold_locales
    (auto simp: keep_reaction_def search_ids_def split: response.splits mailbox_datum.splits)

interpretation metadata: filtering_loop
  "parse_metadata_loop K mbox" Ok K "solicited_metadata mbox" "\<lambda>vals acc. acc @ vals" for K mbox
  by unfold_locales (auto simp: keep_reaction_def split: option.splits)

interpretation get_quota: filtering_loop
  "parse_get_quota_loop K" quota_result K quota_of "\<lambda>q _. Some q" for K
  by unfold_locales (auto simp: keep_reaction_def quota_of_def quota_result_def split: response.splits option.splits)

text \<open>\<open>GETQUOTAROOT\<close> keeps two kinds of responses: \<open>Inl\<close> a root, \<open>Inr\<close> a quota.\<close>

definition root_or_quota :: "'x response_data \<Rightarrow> (quota_root + quota) option" where
  "root_or_quota r =
     (case parsed r of
        R_QuotaRoot q \<Rightarrow> Some (Inl (quota_root_from q))
      | R_Quota q \<Rightarrow> Some (Inr (quota_from q))
      | _ \<Rightarrow> None)"

fun push_root_or_quota :: "quota_root + quota \<Rightarrow> quota_root list \<times> quota list \<Rightarrow> quota_root list \<times> quota list" where
  "push_root_or_quota (Inl r) (roots, quotas) = (roots @ [r], quotas)"
| "push_root_or_quota (Inr q) (roots, quotas) = (roots, quotas @ [q])"

interpretation get_quota_root: filtering_loop
  "parse_get_quota_root_loop K" Ok K root_or_quota push_root_or_quota for K
  by unfold_locales (auto simp: keep_reaction_def root_or_quota_def split: response.splits)

interpretation server_id: filtering_loop "parse_id_loop K" Ok K id_of "\<lambda>i _. i" for K
  by unfold_locales (auto simp: keep_reaction_def id_of_def split: response.splits)

section \<open>What the parsers return\<close>

lemma fold_insert_ids: "fold (fold insert) css ids = ids \<union> \<Union> (set ` set css)"
  by (induction css arbitrary: ids) (auto simp: union_set_fold [symmetric])

lemma fold_insert_capabilities:
  "fold (fold (\<lambda>cp. insert (capability_from cp))) css caps =
     caps \<union> capability_from ` \<Union> (set ` set css)"
proof (induction css arbitrary: caps)
  case Nil
  then show ?case by simp
next
  case (Cons cs css)
  have "fold (\<lambda>cp. insert (capability_from cp)) cs caps = caps \<union> capability_from ` set cs"
    by (induction cs arbitrary: caps) auto
  with Cons show ?case by (simp add: image_Un Un_assoc)
qed

lemma fold_append_metadata: "fold (\<lambda>vals acc. acc @ vals) xss acc = acc @ concat xss"
  by (induction xss arbitrary: acc) auto

lemma fold_last: "fold (\<lambda>q _. f q) xs acc = (if xs = [] then acc else f (last xs))"
  by (induction xs arbitrary: acc) auto

lemma fold_push:
  "fold push_root_or_quota xs (roots, quotas) =
     (roots @ List.map_filter (\<lambda>x. case x of Inl r \<Rightarrow> Some r | Inr _ \<Rightarrow> None) xs,
      quotas @ List.map_filter (\<lambda>x. case x of Inl _ \<Rightarrow> None | Inr q \<Rightarrow> Some q) xs)"
  by (induction xs arbitrary: roots quotas) (auto simp: List.map_filter_simps split: sum.split)

lemma root_or_quota_parts:
  "List.map_filter (\<lambda>x. case x of Inl r \<Rightarrow> Some r | Inr _ \<Rightarrow> None) (List.map_filter root_or_quota rs)
     = List.map_filter quota_root_of rs"
  "List.map_filter (\<lambda>x. case x of Inl _ \<Rightarrow> None | Inr q \<Rightarrow> Some q) (List.map_filter root_or_quota rs)
     = List.map_filter quota_of rs"
  by (induction rs)
    (auto simp: List.map_filter_simps root_or_quota_def quota_root_of_def quota_of_def split: response.split)

lemma root_or_quota_None:
  "root_or_quota r = None \<longleftrightarrow> quota_root_of r = None \<and> quota_of r = None"
  by (simp add: root_or_quota_def quota_root_of_def quota_of_def split: response.split)

text \<open>
  Concrete answers of a server, for the witnesses: the completion \<open>A0001 OK\<close>, its \<open>NO\<close> variant,
  and a message count.
\<close>

definition sample :: "nat response \<Rightarrow> nat response_data" where
  "sample r = \<lparr>raw = [], parsed = r\<rparr>"

definition done_ok :: "nat response_data" where
  "done_ok = sample (R_Done ''A0001'' Status_Ok None None)"

definition done_no :: "nat response_data" where
  "done_no = sample (R_Done ''A0001'' Status_No None None)"

definition exists_4 :: "nat response_data" where
  "exists_4 = sample (R_MailboxData (MD_Exists 4))"

definition fresh_channel :: "nat unsolicited_response fifo" where
  "fresh_channel = fifo_new 100"

lemmas sample_defs = sample_def done_ok_def done_no_def exists_4_def fresh_channel_def fifo_new_def
  completes_iff ends_command_def unsolicited_of_def

text \<open>
  \<open>parse_capabilities\<close> returns the union of the capabilities of all \<open>CAPABILITY\<close> responses up to
  the completion of the command or the end of the stream, whatever the status of the completion;
  it reads nothing behind that, and offers every other response to the channel, in order.
\<close>

theorem parse_capabilities_run:
  assumes "channel_contract K contents capacity is_open" and "is_open c"
    and "\<forall>r \<in> set rs. \<not> completes tag r" and "ends_command tag t"
  shows "\<exists>c'. parse_capabilities K tag (responses rs @ t # sc) c =
           (Ok (capability_from ` \<Union> (set ` set (List.map_filter listed_capabilities rs))), sc, c')
     \<and> delivered contents capacity is_open c
          (map unsolicited_of (filter (\<lambda>r. listed_capabilities r = None) rs)) c'"
  using capabilities.run_filter [OF assms, where sc = sc and acc = "{}"]
  by (simp add: parse_capabilities_def fold_insert_capabilities)

theorem parse_capabilities_run_witness:
  "\<exists>c'. parse_capabilities fifo_ops ''A0001''
      [Some (Inr (sample (R_Capabilities [Ref_Imap4rev1, Ref_Atom ''IDLE'']))), Some (Inr exists_4),
       Some (Inr done_ok)] fresh_channel = (Ok {Imap4rev1, Atom ''IDLE''}, [], c')
     \<and> fifo_queue c' = [U_Exists 4]"
  using parse_capabilities_run [OF fifo_contract, of fresh_channel
      "[sample (R_Capabilities [Ref_Imap4rev1, Ref_Atom ''IDLE'']), exists_4]" "''A0001''" "Some (Inr done_ok)" "[]"]
  by (fastforce simp: sample_defs listed_capabilities_def List.map_filter_simps delivered_def)

text \<open>
  \<open>parse_ids\<close> (\<open>SEARCH\<close>, \<open>UID SEARCH\<close>) returns the set of all identifiers of all \<open>SEARCH\<close>
  responses up to the completion or the end of the stream, hands over all other responses in
  order and reads nothing behind the completion; a completion with the status \<open>NO\<close> or \<open>BAD\<close> gives
  \<open>Ok\<close> as well.
\<close>

theorem parse_ids_run:
  assumes "channel_contract K contents capacity is_open" and "is_open c"
    and "\<forall>r \<in> set rs. \<not> completes tag r" and "ends_command tag t"
  shows "\<exists>c'. parse_ids K tag (responses rs @ t # sc) c =
           (Ok (\<Union> (set ` set (List.map_filter search_ids rs))), sc, c')
     \<and> delivered contents capacity is_open c
          (map unsolicited_of (filter (\<lambda>r. search_ids r = None) rs)) c'"
  using ids.run_filter [OF assms, where sc = sc and acc = "{}"]
  by (simp add: parse_ids_def fold_insert_ids)

theorem parse_ids_run_witness:
  "\<exists>c'. parse_ids fifo_ops ''A0001'' [Some (Inr exists_4), Some (Inr done_no)] fresh_channel = (Ok {}, [], c')
     \<and> fifo_queue c' = [U_Exists 4]"
  using parse_ids_run [OF fifo_contract, of fresh_channel "[exists_4]" "''A0001''" "Some (Inr done_no)" "[]"]
  by (fastforce simp: sample_defs search_ids_def List.map_filter_simps delivered_def)

text \<open>
  \<open>parse_noop\<close> offers every response up to the completion or the end of the stream to the
  channel, in order, and returns \<open>Ok\<close> whatever the status of the completion.
\<close>

theorem parse_noop_run:
  assumes "channel_contract K contents capacity is_open" and "is_open c"
    and "\<forall>r \<in> set rs. \<not> completes tag r" and "ends_command tag t"
  shows "\<exists>c'. parse_noop K tag (responses rs @ t # sc) c = (Ok (), sc, c')
     \<and> delivered contents capacity is_open c (map unsolicited_of rs) c'"
  using noop.run_filter [OF assms, where sc = sc] by simp

theorem parse_noop_run_witness:
  "\<exists>c'. parse_noop fifo_ops ''A0001'' [Some (Inr exists_4), Some (Inr done_no)] fresh_channel = (Ok (), [], c')
     \<and> fifo_queue c' = [U_Exists 4]"
  using parse_noop_run [OF fifo_contract, of fresh_channel "[exists_4]" "''A0001''" "Some (Inr done_no)" "[]"]
  by (fastforce simp: sample_defs delivered_def)

text \<open>
  \<open>parse_metadata\<close> returns the values of all solicited metadata responses for the mailbox it
  was asked for, in order; metadata of other mailboxes goes to the channel with all other
  responses.
\<close>

theorem parse_metadata_run:
  assumes "channel_contract K contents capacity is_open" and "is_open c"
    and "\<forall>r \<in> set rs. \<not> completes tag r" and "ends_command tag t"
  shows "\<exists>c'. parse_metadata K mbox tag (responses rs @ t # sc) c =
           (Ok (concat (List.map_filter (solicited_metadata mbox) rs)), sc, c')
     \<and> delivered contents capacity is_open c
          (map unsolicited_of (filter (\<lambda>r. solicited_metadata mbox r = None) rs)) c'"
  using metadata.run_filter [OF assms, where sc = sc and acc = "[]" and mbox = mbox]
  by (simp add: parse_metadata_def fold_append_metadata)

theorem parse_metadata_run_witness:
  "\<exists>c'. parse_metadata fifo_ops ''INBOX'' ''A0001''
      [Some (Inr (sample (R_MailboxData (MD_MetadataSolicited ''INBOX'' [1, 2])))),
       Some (Inr (sample (R_MailboxData (MD_MetadataSolicited ''Sent'' [3])))),
       Some (Inr done_ok)] fresh_channel = (Ok [1, 2], [], c')
     \<and> length (fifo_queue c') = 1"
  using parse_metadata_run [OF fifo_contract, of fresh_channel
      "[sample (R_MailboxData (MD_MetadataSolicited ''INBOX'' [1, 2])),
        sample (R_MailboxData (MD_MetadataSolicited ''Sent'' [3]))]" "''A0001''" "Some (Inr done_ok)" "''INBOX''" "[]"]
  by (fastforce simp: sample_defs solicited_metadata_def List.map_filter_simps delivered_def)

text \<open>
  \<open>parse_get_quota\<close> returns the last \<open>QUOTA\<close> response up to the completion or the end of the
  stream, and the error \<open>ExpectedResponseNotFound\<close> if there was none.
\<close>

theorem parse_get_quota_run:
  assumes "channel_contract K contents capacity is_open" and "is_open c"
    and "\<forall>r \<in> set rs. \<not> completes tag r" and "ends_command tag t"
  shows "\<exists>c'. parse_get_quota K tag (responses rs @ t # sc) c =
           (if List.map_filter quota_of rs = []
            then Err (Parse (ExpectedResponseNotFound ''Quota, no quota response found''))
            else Ok (last (List.map_filter quota_of rs)), sc, c')
     \<and> delivered contents capacity is_open c
          (map unsolicited_of (filter (\<lambda>r. quota_of r = None) rs)) c'"
  using get_quota.run_filter [OF assms, where sc = sc and acc = None]
  by (cases "List.map_filter quota_of rs = []") (simp_all add: parse_get_quota_def fold_last quota_result_def)

theorem parse_get_quota_run_witness:
  "\<exists>c'. parse_get_quota fifo_ops ''A0001'' [Some (Inr exists_4), Some (Inr done_ok)] fresh_channel =
     (Err (Parse (ExpectedResponseNotFound ''Quota, no quota response found'')), [], c')
     \<and> fifo_queue c' = [U_Exists 4]"
  using parse_get_quota_run [OF fifo_contract, of fresh_channel "[exists_4]" "''A0001''" "Some (Inr done_ok)" "[]"]
  by (fastforce simp: sample_defs quota_of_def List.map_filter_simps delivered_def)

text \<open>
  \<open>parse_get_quota_root\<close> returns all quota roots and all quotas, each in the order the server
  sent them.
\<close>

theorem parse_get_quota_root_run:
  assumes "channel_contract K contents capacity is_open" and "is_open c"
    and "\<forall>r \<in> set rs. \<not> completes tag r" and "ends_command tag t"
  shows "\<exists>c'. parse_get_quota_root K tag (responses rs @ t # sc) c =
           (Ok (List.map_filter quota_root_of rs, List.map_filter quota_of rs), sc, c')
     \<and> delivered contents capacity is_open c
          (map unsolicited_of (filter (\<lambda>r. quota_root_of r = None \<and> quota_of r = None) rs)) c'"
  using get_quota_root.run_filter [OF assms, where sc = sc and acc = "([], [])"]
  by (simp add: parse_get_quota_root_def fold_push root_or_quota_parts root_or_quota_None)

theorem parse_get_quota_root_run_witness:
  "\<exists>c'. parse_get_quota_root fifo_ops ''A0001''
      [Some (Inr (sample (R_QuotaRoot \<lparr>ref_mailbox_name = ''INBOX'', ref_quota_root_names = [''u'']\<rparr>))),
       Some (Inr done_ok)] fresh_channel =
     (Ok ([\<lparr>mailbox_name = ''INBOX'', quota_root_names = [''u'']\<rparr>], []), [], c') \<and> fifo_queue c' = []"
  using parse_get_quota_root_run [OF fifo_contract, of fresh_channel
      "[sample (R_QuotaRoot \<lparr>ref_mailbox_name = ''INBOX'', ref_quota_root_names = [''u'']\<rparr>)]"
      "''A0001''" "Some (Inr done_ok)" "[]"]
  by (fastforce simp: sample_defs quota_root_of_def quota_of_def quota_root_from_def List.map_filter_simps delivered_def)

text \<open>
  \<open>parse_id\<close> returns the identification of the last \<open>ID\<close> response, or \<open>None\<close> when that
  response is \<open>ID NIL\<close> or when there was none.
\<close>

theorem parse_id_run:
  assumes "channel_contract K contents capacity is_open" and "is_open c"
    and "\<forall>r \<in> set rs. \<not> completes tag r" and "ends_command tag t"
  shows "\<exists>c'. parse_id K tag (responses rs @ t # sc) c =
           (Ok (if List.map_filter id_of rs = [] then None else last (List.map_filter id_of rs)), sc, c')
     \<and> delivered contents capacity is_open c
          (map unsolicited_of (filter (\<lambda>r. id_of r = None) rs)) c'"
  using server_id.run_filter [OF assms, where sc = sc and acc = None]
  by (simp add: parse_id_def fold_last)

theorem parse_id_run_witness:
  "\<exists>c'. parse_id fifo_ops ''A0001''
      [Some (Inr (sample (R_Id (Some [(''name'', ''x'')])))), Some (Inr done_ok)] fresh_channel =
     (Ok (Some [''name'' \<mapsto> ''x'']), [], c') \<and> fifo_queue c' = []"
  using parse_id_run [OF fifo_contract, of fresh_channel
      "[sample (R_Id (Some [(''name'', ''x'')]))]" "''A0001''" "Some (Inr done_ok)" "[]"]
  by (fastforce simp: sample_defs id_of_def collect_map_def List.map_filter_simps delivered_def)

end
