(* ===== verification/Parse_Mailbox.thy ===== *)
theory Parse_Mailbox
  imports Parse
begin

text \<open>
  \<open>parse_status\<close> and \<open>parse_mailbox\<close> of \<open>src/parse.rs\<close>: the parsers of \<open>STATUS\<close>, \<open>SELECT\<close> and
  \<open>EXAMINE\<close>, which do look at the status of the completion, and the status check they share with
  \<open>Connection::check_status_ok\<close> (\<open>src/client.rs\<close>).
\<close>

section \<open>The status of a response\<close>

definition check_status_ok :: "'x status \<Rightarrow> 'x response_code option \<Rightarrow> string option \<Rightarrow> (unit, 'x error) outcome" where
  "check_status_ok status code information =
     (case status of
        Status_Ok \<Rightarrow> Ok ()
      | Status_Bad \<Rightarrow> Err (Bad (Code_Info code information))
      | Status_No \<Rightarrow> Err (No (Code_Info code information))
      | Status_Other _ \<Rightarrow> Err (Io (Io_Error Kind_Other (Status_Code_Info status code information))))"

text \<open>The error of a status, if it is one.\<close>

definition status_failure :: "'x status \<Rightarrow> 'x response_code option \<Rightarrow> string option \<Rightarrow> 'x error option" where
  "status_failure status code information =
     (case check_status_ok status code information of Err e \<Rightarrow> Some e | _ \<Rightarrow> None)"

lemma check_status_ok_cases:
  "check_status_ok st code info =
     (case status_failure st code info of None \<Rightarrow> Ok () | Some e \<Rightarrow> Err e)"
  by (simp add: status_failure_def check_status_ok_def split: status.split)

lemma status_failure_None_iff: "status_failure st code info = None \<longleftrightarrow> st = Status_Ok"
  by (simp add: status_failure_def check_status_ok_def split: status.split)

section \<open>STATUS\<close>

fun status_attribute :: "'x status_attribute \<Rightarrow> mailbox \<Rightarrow> mailbox" where
  "status_attribute (SA_HighestModSeq n) mbox = mbox\<lparr>highest_modseq := Some n\<rparr>"
| "status_attribute (SA_Messages n) mbox = mbox\<lparr>exists := n\<rparr>"
| "status_attribute (SA_Recent n) mbox = mbox\<lparr>recent := n\<rparr>"
| "status_attribute (SA_UidNext n) mbox = mbox\<lparr>uid_next := Some n\<rparr>"
| "status_attribute (SA_UidValidity n) mbox = mbox\<lparr>uid_validity := Some n\<rparr>"
| "status_attribute (SA_Unseen n) mbox = mbox\<lparr>unseen := Some n\<rparr>"
| "status_attribute (SA_Other x) mbox = mbox"

text \<open>The arms with a guard: the completion of the command, the status of the mailbox asked for.\<close>

definition status_completion ::
    "request_id \<Rightarrow> 'x response_data \<Rightarrow> ('x status \<times> 'x response_code option \<times> string option) option" where
  "status_completion tag resp =
     (case parsed resp of
        R_Done t st code info \<Rightarrow> if t = tag then Some (st, code, info) else None
      | _ \<Rightarrow> None)"

definition status_for :: "string \<Rightarrow> 'x response_data \<Rightarrow> 'x status_attribute list option" where
  "status_for expected_mailbox resp =
     (case parsed resp of
        R_MailboxData (MD_Status m st) \<Rightarrow> if m = expected_mailbox then Some st else None
      | _ \<Rightarrow> None)"

fun parse_status_loop :: "('c, 'x unsolicited_response) channel_ops \<Rightarrow> string \<Rightarrow> request_id \<Rightarrow> mailbox
    \<Rightarrow> 'x script \<Rightarrow> 'c \<Rightarrow> (mailbox, 'x error) outcome \<times> 'x script \<times> 'c" where
  "parse_status_loop K expected tag mbox [] c = (Pending, [], c)"
| "parse_status_loop K expected tag mbox (None # sc) c = (Ok mbox, sc, c)"
| "parse_status_loop K expected tag mbox (Some (Inl e) # sc) c = (Err (Io e), sc, c)"
| "parse_status_loop K expected tag mbox (Some (Inr resp) # sc) c =
     (case status_completion tag resp of
        Some (st, code, info) \<Rightarrow> (obind (check_status_ok st code info) (\<lambda>_. Ok mbox), sc, c)
      | None \<Rightarrow>
          (case status_for expected resp of
             Some st \<Rightarrow> parse_status_loop K expected tag (fold status_attribute st mbox) sc c
           | None \<Rightarrow> after (handle_unilateral K resp c) sc
                       (\<lambda>_ c'. parse_status_loop K expected tag mbox sc c')))"

definition parse_status :: "('c, 'x unsolicited_response) channel_ops \<Rightarrow> string \<Rightarrow> request_id
    \<Rightarrow> 'x script \<Rightarrow> 'c \<Rightarrow> (mailbox, 'x error) outcome \<times> 'x script \<times> 'c" where
  "parse_status K expected tag sc c = parse_status_loop K expected tag Mailbox_default sc c"

section \<open>SELECT and EXAMINE\<close>

fun mailbox_code :: "'x response_code option \<Rightarrow> mailbox \<Rightarrow> mailbox" where
  "mailbox_code (Some (RC_UidValidity n)) mbox = mbox\<lparr>uid_validity := Some n\<rparr>"
| "mailbox_code (Some (RC_UidNext n)) mbox = mbox\<lparr>uid_next := Some n\<rparr>"
| "mailbox_code (Some (RC_HighestModSeq n)) mbox = mbox\<lparr>highest_modseq := Some n\<rparr>"
| "mailbox_code (Some (RC_Unseen n)) mbox = mbox\<lparr>unseen := Some n\<rparr>"
| "mailbox_code (Some (RC_PermanentFlags fs)) mbox =
     mbox\<lparr>permanent_flags := permanent_flags mbox @ map flag_from_string fs\<rparr>"
| "mailbox_code _ mbox = mbox"

text \<open>\<open>None\<close> for the one mailbox datum that is handed over, \<open>STATUS\<close>.\<close>

fun mailbox_datum :: "'x mailbox_datum \<Rightarrow> mailbox \<Rightarrow> mailbox option" where
  "mailbox_datum (MD_Status m st) mbox = None"
| "mailbox_datum (MD_Exists e) mbox = Some (mbox\<lparr>exists := e\<rparr>)"
| "mailbox_datum (MD_Recent r) mbox = Some (mbox\<lparr>recent := r\<rparr>)"
| "mailbox_datum (MD_Flags fs) mbox = Some (mbox\<lparr>flags := flags mbox @ map flag_from_string fs\<rparr>)"
| "mailbox_datum (MD_List as d n) mbox = Some mbox"
| "mailbox_datum (MD_MetadataSolicited m v) mbox = Some mbox"
| "mailbox_datum (MD_MetadataUnsolicited x) mbox = Some mbox"
| "mailbox_datum (MD_Search xs) mbox = Some mbox"
| "mailbox_datum (MD_Sort xs) mbox = Some mbox"
| "mailbox_datum (MD_Other x) mbox = Some mbox"

fun parse_mailbox_loop :: "('c, 'x unsolicited_response) channel_ops \<Rightarrow> request_id \<Rightarrow> mailbox
    \<Rightarrow> 'x script \<Rightarrow> 'c \<Rightarrow> (mailbox, 'x error) outcome \<times> 'x script \<times> 'c" where
  "parse_mailbox_loop K tag mbox [] c = (Pending, [], c)"
| "parse_mailbox_loop K tag mbox (None # sc) c = (Ok mbox, sc, c)"
| "parse_mailbox_loop K tag mbox (Some (Inl e) # sc) c = (Err (Io e), sc, c)"
| "parse_mailbox_loop K tag mbox (Some (Inr resp) # sc) c =
     (case status_completion tag resp of
        Some (st, code, info) \<Rightarrow> (obind (check_status_ok st code info) (\<lambda>_. Ok mbox), sc, c)
      | None \<Rightarrow>
          (case parsed resp of
             R_Data st code info \<Rightarrow>
               (case check_status_ok st code info of
                  Err e \<Rightarrow> (Err e, sc, c)
                | _ \<Rightarrow> parse_mailbox_loop K tag (mailbox_code code mbox) sc c)
           | R_MailboxData m \<Rightarrow>
               (case mailbox_datum m mbox of
                  Some mbox' \<Rightarrow> parse_mailbox_loop K tag mbox' sc c
                | None \<Rightarrow> after (handle_unilateral K resp c) sc
                            (\<lambda>_ c'. parse_mailbox_loop K tag mbox sc c'))
           | _ \<Rightarrow> after (handle_unilateral K resp c) sc
                     (\<lambda>_ c'. parse_mailbox_loop K tag mbox sc c')))"

definition parse_mailbox :: "('c, 'x unsolicited_response) channel_ops \<Rightarrow> request_id
    \<Rightarrow> 'x script \<Rightarrow> 'c \<Rightarrow> (mailbox, 'x error) outcome \<times> 'x script \<times> 'c" where
  "parse_mailbox K tag sc c = parse_mailbox_loop K tag Mailbox_default sc c"

section \<open>Both are accumulating loops\<close>

lemma status_completion_iff:
  "status_completion tag r = None \<longleftrightarrow> \<not> completes tag r"
  by (simp add: status_completion_def completes_def response_data_request_id_def split: response.split)

text \<open>What the completion of the command makes of the mailbox read so far.\<close>

definition completed :: "mailbox \<Rightarrow> 'x response_data \<Rightarrow> (mailbox, 'x error) outcome" where
  "completed mbox d =
     (case parsed d of
        R_Done _ st code info \<Rightarrow>
          (case status_failure st code info of None \<Rightarrow> Ok mbox | Some e \<Rightarrow> Err e)
      | _ \<Rightarrow> Ok mbox)"

lemma status_completion_completed:
  "status_completion tag d = Some (st, code, info) \<Longrightarrow>
     obind (check_status_ok st code info) (\<lambda>_. Ok mbox) = completed mbox d"
  by (auto simp: status_completion_def completed_def check_status_ok_cases split: response.splits if_splits option.split)

lemma completes_completed:
  "completes tag d \<Longrightarrow>
     \<exists>st code info. status_completion tag d = Some (st, code, info)
       \<and> obind (check_status_ok st code info) (\<lambda>_. Ok mbox) = completed mbox d"
  using status_completion_iff status_completion_completed by (metis not_None_eq prod_cases3)

text \<open>The update \<open>parse_mailbox\<close> makes for a response, and the responses it gives up on.\<close>

definition mailbox_update :: "'x response_data \<Rightarrow> (mailbox \<Rightarrow> mailbox) option" where
  "mailbox_update r =
     (case parsed r of
        R_Data st code info \<Rightarrow> Some (mailbox_code code)
      | R_MailboxData (MD_Status _ _) \<Rightarrow> None
      | R_MailboxData m \<Rightarrow> Some (\<lambda>mbox. the (mailbox_datum m mbox))
      | _ \<Rightarrow> None)"

definition data_failure :: "'x response_data \<Rightarrow> 'x error option" where
  "data_failure r = (case parsed r of R_Data st code info \<Rightarrow> status_failure st code info | _ \<Rightarrow> None)"

lemma completed_settled [simp]: "settled (completed mbox d)"
  by (simp add: completed_def split: response.split option.split)

interpretation status: accumulating_loop
  "parse_status_loop K expected" "keep_reaction (status_for expected) (fold status_attribute) (\<lambda>_. None)"
  "handle_unilateral K" completed Ok K "status_for expected" "fold status_attribute" "\<lambda>_. None"
  for K expected
proof unfold_locales
  fix tag' acc and r :: "'b response_data" and sc c
  assume "completes tag' r"
  from completes_completed [OF this, of acc]
  show "parse_status_loop K expected tag' acc (Some (Inr r) # sc) c = (completed acc r, sc, c)"
    by (auto simp: completed_def)
qed (auto simp: keep_reaction_def status_completion_iff [THEN iffD2] split: option.splits)

lemma parse_mailbox_step:
  assumes "\<not> completes tag r"
  shows "parse_mailbox_loop K tag mbox (Some (Inr r) # sc) c =
     (case data_failure r of
        Some e \<Rightarrow> (Err e, sc, c)
      | None \<Rightarrow>
          (case mailbox_update r of
             Some u \<Rightarrow> parse_mailbox_loop K tag (u mbox) sc c
           | None \<Rightarrow> after (handle_unilateral K r c) sc (\<lambda>_ c'. parse_mailbox_loop K tag mbox sc c')))"
proof -
  have "status_completion tag r = None" using assms by (simp add: status_completion_iff)
  then show ?thesis
    by (cases "parsed r")
      (auto simp: data_failure_def mailbox_update_def check_status_ok_cases
        split: option.split mailbox_datum.split)
qed

interpretation mailbox: accumulating_loop
  "parse_mailbox_loop K" "keep_reaction mailbox_update id data_failure"
  "handle_unilateral K" completed Ok K mailbox_update id data_failure
  for K
proof unfold_locales
  fix tag' acc and r :: "'b response_data" and sc c
  assume "completes tag' r"
  from completes_completed [OF this, of acc]
  show "parse_mailbox_loop K tag' acc (Some (Inr r) # sc) c = (completed acc r, sc, c)"
    by (auto simp: completed_def)
qed (auto simp: keep_reaction_def parse_mailbox_step simp del: parse_mailbox_loop.simps(4) split: option.splits)

section \<open>What the parsers return\<close>

text \<open>What a response says about one field of the selected mailbox.\<close>

definition code_of :: "'x response_data \<Rightarrow> 'x response_code option" where
  "code_of r = (case parsed r of R_Data st code info \<Rightarrow> code | _ \<Rightarrow> None)"

definition exists_of :: "'x response_data \<Rightarrow> u32 option" where
  "exists_of r = (case parsed r of R_MailboxData (MD_Exists n) \<Rightarrow> Some n | _ \<Rightarrow> None)"

definition recent_of :: "'x response_data \<Rightarrow> u32 option" where
  "recent_of r = (case parsed r of R_MailboxData (MD_Recent n) \<Rightarrow> Some n | _ \<Rightarrow> None)"

definition flags_of :: "'x response_data \<Rightarrow> string list option" where
  "flags_of r = (case parsed r of R_MailboxData (MD_Flags fs) \<Rightarrow> Some fs | _ \<Rightarrow> None)"

definition permanent_flags_of :: "'x response_data \<Rightarrow> string list option" where
  "permanent_flags_of r = (case code_of r of Some (RC_PermanentFlags fs) \<Rightarrow> Some fs | _ \<Rightarrow> None)"

definition unseen_of :: "'x response_data \<Rightarrow> u32 option" where
  "unseen_of r = (case code_of r of Some (RC_Unseen n) \<Rightarrow> Some n | _ \<Rightarrow> None)"

definition uid_next_of :: "'x response_data \<Rightarrow> u32 option" where
  "uid_next_of r = (case code_of r of Some (RC_UidNext n) \<Rightarrow> Some n | _ \<Rightarrow> None)"

definition uid_validity_of :: "'x response_data \<Rightarrow> u32 option" where
  "uid_validity_of r = (case code_of r of Some (RC_UidValidity n) \<Rightarrow> Some n | _ \<Rightarrow> None)"

definition highest_modseq_of :: "'x response_data \<Rightarrow> u64 option" where
  "highest_modseq_of r = (case code_of r of Some (RC_HighestModSeq n) \<Rightarrow> Some n | _ \<Rightarrow> None)"

definition count_or_zero :: "u32 option \<Rightarrow> u32" where
  "count_or_zero n = (case n of None \<Rightarrow> 0 | Some n \<Rightarrow> n)"

text \<open>
  The mailbox that a list of responses describes: of every number the last one, 0 for a count that
  was not given, and all flags in the order they were listed.
\<close>

definition mailbox_of :: "'x response_data list \<Rightarrow> mailbox" where
  "mailbox_of rs =
     \<lparr>flags = map flag_from_string (concat (List.map_filter flags_of rs)),
      exists = count_or_zero (last_match exists_of rs),
      recent = count_or_zero (last_match recent_of rs),
      unseen = last_match unseen_of rs,
      permanent_flags = map flag_from_string (concat (List.map_filter permanent_flags_of rs)),
      uid_next = last_match uid_next_of rs,
      uid_validity = last_match uid_validity_of rs,
      highest_modseq = last_match highest_modseq_of rs\<rparr>"

lemmas mailbox_parts = code_of_def exists_of_def recent_of_def flags_of_def permanent_flags_of_def
  unseen_of_def uid_next_of_def uid_validity_of_def highest_modseq_of_def count_or_zero_def

lemma mailbox_of_update:
  "mailbox_of (rs @ [r]) =
     (case mailbox_update r of Some u \<Rightarrow> u (mailbox_of rs) | None \<Rightarrow> mailbox_of rs)"
proof (cases "parsed r")
  case (R_Data st code info)
  then show ?thesis
    by (cases "(code, mailbox_of rs)" rule: mailbox_code.cases)
      (simp_all add: mailbox_of_def mailbox_parts mailbox_update_def map_filter_append map_filter_single)
next
  case (R_MailboxData m)
  then show ?thesis
    by (cases m)
      (simp_all add: mailbox_of_def mailbox_parts mailbox_update_def map_filter_append map_filter_single)
qed (simp_all add: mailbox_of_def mailbox_parts mailbox_update_def map_filter_append map_filter_single)

lemma fold_mailbox_update:
  "fold id (List.map_filter mailbox_update rs) Mailbox_default = mailbox_of rs"
proof (induction rs rule: rev_induct)
  case Nil
  show ?case
    by (simp add: mailbox_of_def Mailbox_default_def List.map_filter_simps count_or_zero_def)
next
  case (snoc r rs)
  then show ?case
    by (simp add: mailbox_of_update map_filter_append map_filter_single split: option.split)
qed

lemma mailbox_of_Nil [simp]: "mailbox_of [] = Mailbox_default"
  by (simp add: fold_mailbox_update [symmetric] List.map_filter_simps)

lemma completed_Done:
  "parsed d = R_Done tag st code info \<Longrightarrow>
     completed mbox d = obind (check_status_ok st code info) (\<lambda>_. Ok mbox)"
  by (simp add: completed_def check_status_ok_cases split: option.split)

lemma parse_mailbox_complete:
  assumes "channel_contract K contents capacity is_open" and "is_open c"
    and "\<forall>r \<in> set rs. \<not> completes tag r" and "\<forall>r \<in> set rs. data_failure r = None"
    and "parsed d = R_Done tag st code info"
  shows "\<exists>c'. parse_mailbox K tag (responses rs @ Some (Inr d) # sc) c =
           (case st of
              Status_Ok \<Rightarrow> Ok (mailbox_of rs)
            | Status_Bad \<Rightarrow> Err (Bad (Code_Info code info))
            | Status_No \<Rightarrow> Err (No (Code_Info code info))
            | Status_Other _ \<Rightarrow> Err (Io (Io_Error Kind_Other (Status_Code_Info st code info))), sc, c')
     \<and> delivered contents capacity is_open c
          (map unsolicited_of (filter (\<lambda>r. mailbox_update r = None) rs)) c'"
proof -
  have "completes tag d" using assms(5) by (simp add: completes_iff)
  from mailbox.run_keep_complete [OF assms(1-4) this, where acc = Mailbox_default and sc = sc]
  show ?thesis
    by (cases st)
      (simp_all add: parse_mailbox_def fold_mailbox_update completed_Done [OF assms(5)] check_status_ok_def)
qed

text \<open>
  C19: \<open>SELECT\<close> and \<open>EXAMINE\<close> return, when the completion says \<open>OK\<close>, the mailbox the responses before
  it describe (the last value of every number, all flags in order), and the error of the
  completion's status otherwise (\<open>NO\<close>, \<open>BAD\<close> with code and text, any other as an I/O error);
  responses that do not describe the mailbox are handed over in order.
\<close>

theorem parse_mailbox_run:
  assumes "channel_contract K contents capacity is_open" and "is_open c"
    and "\<forall>r \<in> set rs. \<not> completes tag r" and "\<forall>r \<in> set rs. data_failure r = None"
    and "parsed d = R_Done tag st code info"
  shows "\<exists>c'. parse_mailbox K tag (responses rs @ Some (Inr d) # sc) c =
           (case st of
              Status_Ok \<Rightarrow> Ok (mailbox_of rs)
            | Status_Bad \<Rightarrow> Err (Bad (Code_Info code info))
            | Status_No \<Rightarrow> Err (No (Code_Info code info))
            | Status_Other _ \<Rightarrow> Err (Io (Io_Error Kind_Other (Status_Code_Info st code info))), sc, c')
     \<and> delivered contents capacity is_open c
          (map unsolicited_of (filter (\<lambda>r. mailbox_update r = None) rs)) c'"
  using assms by (rule parse_mailbox_complete)

theorem parse_mailbox_run_witness:
  "\<exists>c'. parse_mailbox fifo_ops ''A0001''
      [Some (Inr exists_4), Some (Inr (sample (R_Data Status_Ok (Some (RC_UidNext 9)) None))),
       Some (Inr done_ok)] fresh_channel =
     (Ok (Mailbox_default\<lparr>exists := 4, uid_next := Some 9\<rparr>), [], c') \<and> fifo_queue c' = []"
proof -
  let ?rs = "[exists_4, sample (R_Data Status_Ok (Some (RC_UidNext 9)) None)]"
  have "mailbox_of ?rs = Mailbox_default\<lparr>exists := 4, uid_next := Some 9\<rparr>"
    by (simp add: mailbox_of_def Mailbox_default_def sample_defs mailbox_parts last_match_def List.map_filter_simps)
  then show ?thesis
    using parse_mailbox_run [OF fifo_contract, of fresh_channel ?rs "''A0001''" done_ok Status_Ok None None "[]"]
    by (fastforce simp: sample_defs data_failure_def status_failure_None_iff mailbox_update_def delivered_def)
qed

text \<open>
  If the connection ends before the completion of \<open>SELECT\<close> arrives, the command succeeds all the
  same, with whatever had been described until then.
\<close>

theorem parse_mailbox_connection_lost:
  assumes "channel_contract K contents capacity is_open" and "is_open c"
    and "\<forall>r \<in> set rs. \<not> completes tag r" and "\<forall>r \<in> set rs. data_failure r = None"
  shows "\<exists>c'. parse_mailbox K tag (responses rs @ None # sc) c = (Ok (mailbox_of rs), sc, c')"
  using mailbox.run_keep_end [OF assms, where acc = Mailbox_default and sc = sc]
  by (auto simp: parse_mailbox_def fold_mailbox_update)

theorem parse_mailbox_connection_lost_witness:
  "\<exists>c'. parse_mailbox fifo_ops ''A0001'' [None] fresh_channel = (Ok Mailbox_default, [], c')"
  using parse_mailbox_connection_lost [OF fifo_contract, of fresh_channel "[]" "''A0001''" "[]"]
  by (simp add: fresh_channel_def fifo_new_def)

text \<open>
  C38: an untagged \<open>NO\<close>, \<open>BAD\<close> or \<open>BYE\<close> while a mailbox is being selected ends the command at once
  with the corresponding error, before its completion has been read.
\<close>

theorem parse_mailbox_untagged_failure:
  assumes "channel_contract K contents capacity is_open" and "is_open c"
    and "\<forall>r \<in> set rs. \<not> completes tag r" and "\<forall>r \<in> set rs. data_failure r = None"
    and "parsed d = R_Data st code info" and "st \<noteq> Status_Ok"
  shows "\<exists>c' e. parse_mailbox K tag (responses rs @ Some (Inr d) # sc) c = (Err e, sc, c')
     \<and> check_status_ok st code info = Err e"
proof -
  have "\<not> completes tag d" using assms(5) by (simp add: completes_iff)
  moreover obtain e where "status_failure st code info = Some e"
    using assms(6) status_failure_None_iff by (metis not_None_eq)
  moreover from this assms(5) have "data_failure d = Some e" by (simp add: data_failure_def)
  ultimately show ?thesis
    using mailbox.run_keep_fail [OF assms(1-4), of d e Mailbox_default sc]
    by (auto simp: parse_mailbox_def check_status_ok_cases)
qed

theorem parse_mailbox_untagged_failure_witness:
  "\<exists>c' e. parse_mailbox fifo_ops ''A0001'' [Some (Inr (sample (R_Data Status_No None None))), Some (Inr done_ok)]
       fresh_channel = (Err e, [Some (Inr done_ok)], c')
     \<and> check_status_ok (Status_No :: nat status) None None = Err e"
  using parse_mailbox_untagged_failure [OF fifo_contract, of fresh_channel "[]" "''A0001''"
      "sample (R_Data Status_No None None)" Status_No None None "[Some (Inr done_ok)]"]
  by (simp add: sample_defs)

text \<open>What the attributes of the \<open>STATUS\<close> responses say about one field.\<close>

fun sa_messages :: "'x status_attribute \<Rightarrow> u32 option" where
  "sa_messages (SA_Messages n) = Some n" | "sa_messages _ = None"

fun sa_recent :: "'x status_attribute \<Rightarrow> u32 option" where
  "sa_recent (SA_Recent n) = Some n" | "sa_recent _ = None"

fun sa_uid_next :: "'x status_attribute \<Rightarrow> u32 option" where
  "sa_uid_next (SA_UidNext n) = Some n" | "sa_uid_next _ = None"

fun sa_uid_validity :: "'x status_attribute \<Rightarrow> u32 option" where
  "sa_uid_validity (SA_UidValidity n) = Some n" | "sa_uid_validity _ = None"

fun sa_unseen :: "'x status_attribute \<Rightarrow> u32 option" where
  "sa_unseen (SA_Unseen n) = Some n" | "sa_unseen _ = None"

fun sa_modseq :: "'x status_attribute \<Rightarrow> u64 option" where
  "sa_modseq (SA_HighestModSeq n) = Some n" | "sa_modseq _ = None"

definition status_mailbox :: "'x status_attribute list \<Rightarrow> mailbox" where
  "status_mailbox as =
     \<lparr>flags = [], exists = count_or_zero (last_match sa_messages as),
      recent = count_or_zero (last_match sa_recent as), unseen = last_match sa_unseen as,
      permanent_flags = [], uid_next = last_match sa_uid_next as,
      uid_validity = last_match sa_uid_validity as, highest_modseq = last_match sa_modseq as\<rparr>"

lemma fold_status_attribute: "fold status_attribute as Mailbox_default = status_mailbox as"
proof (induction as rule: rev_induct)
  case Nil
  show ?case by (simp add: status_mailbox_def Mailbox_default_def count_or_zero_def)
next
  case (snoc a as)
  then show ?case by (cases a) (simp_all add: status_mailbox_def count_or_zero_def)
qed

lemma fold_concat: "fold (fold f) xss acc = fold f (concat xss) acc"
  by (induction xss arbitrary: acc) auto

text \<open>
  C37: \<open>STATUS\<close> returns, when the completion says \<open>OK\<close>, the last value of every attribute in the
  \<open>STATUS\<close> responses for the mailbox asked for (counts that were not given are 0); the status of
  another mailbox is handed over as unsolicited, like all other responses; a completion with
  another status is an error.
\<close>

theorem parse_status_run:
  assumes "channel_contract K contents capacity is_open" and "is_open c"
    and "\<forall>r \<in> set rs. \<not> completes tag r" and "parsed d = R_Done tag st code info"
  shows "\<exists>c'. parse_status K expected tag (responses rs @ Some (Inr d) # sc) c =
           (case st of
              Status_Ok \<Rightarrow> Ok (status_mailbox (concat (List.map_filter (status_for expected) rs)))
            | Status_Bad \<Rightarrow> Err (Bad (Code_Info code info))
            | Status_No \<Rightarrow> Err (No (Code_Info code info))
            | Status_Other _ \<Rightarrow> Err (Io (Io_Error Kind_Other (Status_Code_Info st code info))), sc, c')
     \<and> delivered contents capacity is_open c
          (map unsolicited_of (filter (\<lambda>r. status_for expected r = None) rs)) c'"
proof -
  have "completes tag d" using assms(4) by (simp add: completes_iff)
  from status.run_keep_complete [OF assms(1-3) _ this, where acc = Mailbox_default and sc = sc
      and expected = expected]
  show ?thesis
    by (cases st)
      (simp_all add: parse_status_def fold_concat fold_status_attribute completed_Done [OF assms(4)]
        check_status_ok_def)
qed

theorem parse_status_run_witness:
  "\<exists>c'. parse_status fifo_ops ''INBOX'' ''A0001''
      [Some (Inr (sample (R_MailboxData (MD_Status ''INBOX'' [SA_UidNext 25, SA_Messages 3])))),
       Some (Inr (sample (R_MailboxData (MD_Status ''Sent'' [SA_Messages 7])))),
       Some (Inr done_ok)] fresh_channel =
     (Ok (Mailbox_default\<lparr>exists := 3, uid_next := Some 25\<rparr>), [], c')
     \<and> fifo_queue c' = [U_Status ''Sent'' [SA_Messages 7]]"
proof -
  let ?rs = "[sample (R_MailboxData (MD_Status ''INBOX'' [SA_UidNext 25, SA_Messages 3])),
    sample (R_MailboxData (MD_Status ''Sent'' [SA_Messages 7]))]"
  have "status_mailbox (concat (List.map_filter (status_for ''INBOX'') ?rs)) =
      Mailbox_default\<lparr>exists := 3, uid_next := Some 25\<rparr>"
    by (simp add: status_mailbox_def Mailbox_default_def sample_defs status_for_def last_match_def
        List.map_filter_simps count_or_zero_def)
  then show ?thesis
    using parse_status_run [OF fifo_contract, of fresh_channel ?rs "''A0001''" done_ok Status_Ok None None
        "''INBOX''" "[]"]
    by (fastforce simp: sample_defs status_for_def delivered_def)
qed

end
