(* ===== verification/Response_Streams.thy ===== *)
theory Response_Streams
  imports Parse Fetch
begin

text \<open>
  The parsers of \<open>src/parse.rs\<close> that return a stream: \<open>parse_names\<close>, \<open>parse_fetches\<close> and
  \<open>parse_expunge\<close>.  Each is \<open>filter_map(take_while(stream, filter), item)\<close>.  The combinators of
  the \<open>futures\<close> crate are modelled once; \<open>item_stream\<close> is the contract of the three item functions.
\<close>

section \<open>The item functions\<close>

definition names_item :: "('c, 'x unsolicited_response) channel_ops \<Rightarrow> 'x item \<Rightarrow> 'c
    \<Rightarrow> (('x error + 'x name) option, 'x error) outcome \<times> 'c" where
  "names_item K resp c =
     (case resp of
        Inr resp \<Rightarrow>
          (case parsed resp of
             R_MailboxData (MD_List as d n) \<Rightarrow>
               (obind (Name_from_mailbox_data resp) (\<lambda>nm. Ok (Some (Inr nm))), c)
           | _ \<Rightarrow> bind_out (handle_unilateral K resp c) (\<lambda>_ c'. (Ok None, c')))
      | Inl err \<Rightarrow> (Ok (Some (Inl (Io err))), c))"

definition fetches_item :: "('c, 'x unsolicited_response) channel_ops \<Rightarrow> 'x item \<Rightarrow> 'c
    \<Rightarrow> (('x error + 'x fetch) option, 'x error) outcome \<times> 'c" where
  "fetches_item K resp c =
     (case resp of
        Inr resp \<Rightarrow>
          (case parsed resp of
             R_Fetch msg attrs \<Rightarrow> (obind (Fetch_new resp) (\<lambda>f. Ok (Some (Inr f))), c)
           | _ \<Rightarrow> bind_out (handle_unilateral K resp c) (\<lambda>_ c'. (Ok None, c')))
      | Inl err \<Rightarrow> (Ok (Some (Inl (Io err))), c))"

definition expunge_item :: "('c, 'x unsolicited_response) channel_ops \<Rightarrow> 'x item \<Rightarrow> 'c
    \<Rightarrow> (('x error + u32) option, 'x error) outcome \<times> 'c" where
  "expunge_item K resp c =
     (case resp of
        Inr resp \<Rightarrow>
          (case parsed resp of
             R_Expunge i \<Rightarrow> (Ok (Some (Inr i)), c)
           | _ \<Rightarrow> bind_out (handle_unilateral K resp c) (\<lambda>_ c'. (Ok None, c')))
      | Inl err \<Rightarrow> (Ok (Some (Inl (Io err))), c))"

section \<open>The streams\<close>

text \<open>
  One \<open>next().await\<close> on \<open>filter_map(take_while(stream, filter(tag)), item)\<close>.  The flag is
  \<open>take_while\<close>'s \<open>done_taking\<close>, which the completion of the command sets; the end of the inner
  stream does not.
\<close>

fun response_stream_next :: "('x item \<Rightarrow> 'c \<Rightarrow> ('v option, 'x error) outcome \<times> 'c) \<Rightarrow> request_id
    \<Rightarrow> bool \<Rightarrow> 'x script \<Rightarrow> 'c \<Rightarrow> ('v option, 'x error) outcome \<times> bool \<times> 'x script \<times> 'c" where
  "response_stream_next item tag True sc c = (Ok None, True, sc, c)"
| "response_stream_next item tag False [] c = (Pending, False, [], c)"
| "response_stream_next item tag False (None # sc) c = (Ok None, False, sc, c)"
| "response_stream_next item tag False (Some res # sc) c =
     (if filter_sync res tag then
        (case item res c of
           (Ok (Some v), c') \<Rightarrow> (Ok (Some v), False, sc, c')
         | (Ok None, c') \<Rightarrow> response_stream_next item tag False sc c'
         | (Err e, c') \<Rightarrow> (Err e, False, sc, c')
         | (Panic m, c') \<Rightarrow> (Panic m, False, sc, c')
         | (Pending, c') \<Rightarrow> (Pending, False, sc, c'))
      else (Ok None, True, sc, c))"

text \<open>A stream is its item function, the tag it waits for, and the flag.\<close>

type_synonym ('x, 'c, 'v) response_stream =
  "('x item \<Rightarrow> 'c \<Rightarrow> ('v option, 'x error) outcome \<times> 'c) \<times> request_id \<times> bool"

definition parse_names :: "('c, 'x unsolicited_response) channel_ops \<Rightarrow> request_id
    \<Rightarrow> ('x, 'c, 'x error + 'x name) response_stream" where
  "parse_names K tag = (names_item K, tag, False)"

definition parse_fetches :: "('c, 'x unsolicited_response) channel_ops \<Rightarrow> request_id
    \<Rightarrow> ('x, 'c, 'x error + 'x fetch) response_stream" where
  "parse_fetches K tag = (fetches_item K, tag, False)"

definition parse_expunge :: "('c, 'x unsolicited_response) channel_ops \<Rightarrow> request_id
    \<Rightarrow> ('x, 'c, 'x error + u32) response_stream" where
  "parse_expunge K tag = (expunge_item K, tag, False)"

lemma response_stream_next_shorter:
  "response_stream_next item tag ended sc c = (Ok (Some v), ended', sc', c') \<Longrightarrow> length sc' < length sc"
  by (induction item tag ended sc c rule: response_stream_next.induct)
    (auto split: if_splits prod.splits outcome.splits option.splits intro: less_SucI)

text \<open>What a user who takes all elements of such a stream collects.\<close>

function stream_collect :: "('x item \<Rightarrow> 'c \<Rightarrow> ('v option, 'x error) outcome \<times> 'c) \<Rightarrow> request_id
    \<Rightarrow> bool \<Rightarrow> 'x script \<Rightarrow> 'c \<Rightarrow> ('v list, 'x error) outcome \<times> bool \<times> 'x script \<times> 'c" where
  "stream_collect item tag ended sc c =
     (case response_stream_next item tag ended sc c of
        (Ok None, s) \<Rightarrow> (Ok [], s)
      | (Ok (Some v), ended', sc', c') \<Rightarrow>
          (case stream_collect item tag ended' sc' c' of
             (Ok vs, s) \<Rightarrow> (Ok (v # vs), s)
           | (Err e, s) \<Rightarrow> (Err e, s)
           | (Panic m, s) \<Rightarrow> (Panic m, s)
           | (Pending, s) \<Rightarrow> (Pending, s))
      | (Err e, s) \<Rightarrow> (Err e, s)
      | (Panic m, s) \<Rightarrow> (Panic m, s)
      | (Pending, s) \<Rightarrow> (Pending, s))"
  by pat_completeness auto
termination
proof (relation "measure (\<lambda>(item, tag, ended, sc, c). length sc)", goal_cases)
  case 1
  show ?case by simp
next
  case (2 item tag ended sc c r s x v ended' p sc' c')
  then have "response_stream_next item tag ended sc c = (Ok (Some v), ended', sc', c')" by simp
  from response_stream_next_shorter [OF this] show ?case by simp
qed

declare stream_collect.simps [simp del]

definition collect_stream :: "('x, 'c, 'v) response_stream \<Rightarrow> 'x script \<Rightarrow> 'c
    \<Rightarrow> ('v list, 'x error) outcome \<times> bool \<times> 'x script \<times> 'c" where
  "collect_stream s sc c = (case s of (item, tag, ended) \<Rightarrow> stream_collect item tag ended sc c)"

section \<open>The contract of the item functions\<close>

text \<open>
  An item function turns the responses that \<open>keep\<close> accepts into elements, yields an I/O error as
  an element, and hands over every other response.
\<close>

locale item_stream =
  fixes item :: "'x item \<Rightarrow> 'c \<Rightarrow> (('x error + 'n) option, 'x error) outcome \<times> 'c"
    and K :: "('c, 'x unsolicited_response) channel_ops"
    and keep :: "'x response_data \<Rightarrow> 'n option"
  assumes item_keep: "keep r = Some n \<Longrightarrow> item (Inr r) c = (Ok (Some (Inr n)), c)"
    and item_other: "keep r = None \<Longrightarrow>
          item (Inr r) c = bind_out (handle_unilateral K r c) (\<lambda>_ c'. (Ok None, c'))"
    and item_error: "item (Inl e) c = (Ok (Some (Inl (Io e))), c)"
begin

definition element :: "'x item \<Rightarrow> ('x error + 'n) option" where
  "element i = (case i of Inl e \<Rightarrow> Some (Inl (Io e)) | Inr r \<Rightarrow> map_option Inr (keep r))"

lemma element_simps [simp]:
  "element (Inl e) = Some (Inl (Io e))"
  "element (Inr r) = map_option Inr (keep r)"
  by (simp_all add: element_def)

text \<open>The end of the inner stream or the completion of the command ends the collection.\<close>

lemma collect_end:
  "ends_command tag t \<Longrightarrow>
     stream_collect item tag False (t # sc) c = (Ok [], t \<noteq> None, sc, c)"
  by (erule ends_command_cases) (simp_all add: stream_collect.simps)

lemma collect_run:
  assumes K: "channel_contract K contents capacity is_open" and "is_open c"
    and "\<forall>i \<in> set is. filter_sync i tag" and "ends_command tag t"
  shows "\<exists>c'. stream_collect item tag False (map Some is @ t # sc) c =
           (Ok (List.map_filter element is), t \<noteq> None, sc, c')
     \<and> delivered contents capacity is_open c
          (map unsolicited_of (filter (\<lambda>r. keep r = None) (List.map_filter (\<lambda>i. case i of Inl e \<Rightarrow> None | Inr r \<Rightarrow> Some r) is))) c'"
  using assms(2,3)
proof (induction "is" arbitrary: c)
  case Nil
  then show ?case
    by (simp add: collect_end [OF assms(4)] delivered_refl List.map_filter_simps)
next
  case (Cons i "is")
  show ?case
  proof (cases i)
    case (Inl e)
    with Cons show ?thesis
      by (subst stream_collect.simps) (fastforce simp: item_error List.map_filter_simps)
  next
    case (Inr r)
    show ?thesis
    proof (cases "keep r")
      case (Some n)
      with Inr Cons show ?thesis
        by (subst stream_collect.simps) (fastforce simp: item_keep List.map_filter_simps)
    next
      case None
      obtain c1 where c1: "handle_unilateral K r c = ((Ok (), c1) :: (unit, 'x error) outcome \<times> _)"
        "delivered contents capacity is_open c [unsolicited_of r] c1"
        using handle_unilateral_delivered [OF K Cons.prems(1)] by blast
      then have "is_open c1" by (simp add: delivered_def)
      with Cons obtain c2 where
        c2: "stream_collect item tag False (map Some is @ t # sc) c1 = (Ok (List.map_filter element is), t \<noteq> None, sc, c2)"
        "delivered contents capacity is_open c1 (map unsolicited_of (filter (\<lambda>r. keep r = None)
          (List.map_filter (\<lambda>i. case i of Inl e \<Rightarrow> None | Inr r \<Rightarrow> Some r) is))) c2"
        by auto
      have "stream_collect item tag False (map Some (i # is) @ t # sc) c =
          stream_collect item tag False (map Some is @ t # sc) c1"
        using Inr None c1(1) Cons.prems(2)
        by (subst (1 2) stream_collect.simps) (simp add: item_other)
      with c2 delivered_trans [OF c1(2) c2(2)] Inr None show ?thesis
        by (intro exI [of _ c2]) (simp add: List.map_filter_simps)
    qed
  qed
qed

end

text \<open>One poll of such a stream, without its flag, is a parser of answers.\<close>

definition poll_stream :: "('x, 'c, 'v) response_stream \<Rightarrow> 'x script \<Rightarrow> 'c
    \<Rightarrow> ('v option, 'x error) outcome \<times> 'x script \<times> 'c" where
  "poll_stream s sc c =
     (case s of (item, tag, ended) \<Rightarrow>
        case response_stream_next item tag ended sc c of (r, ended', sc', c') \<Rightarrow> (r, sc', c'))"

context item_stream
begin

text \<open>One answer ends the poll of a stream that has not ended, or takes it further.\<close>

lemma poll_step_cases:
  assumes K: "channel_contract K contents capacity is_open" and op: "is_open c"
  obtains (stop) r where "\<And>sc. poll_stream (item, tag, False) (t # sc) c = (r, sc, c)" and "settled r"
  | (go) c' where "\<And>sc. poll_stream (item, tag, False) (t # sc) c = poll_stream (item, tag, False) sc c'"
      and "is_open c'" and "\<And>sc. hands_over contents capacity is_open (t # sc) c sc c'" and "\<not> finishes tag t"
proof -
  consider "t = None" | i where "t = Some i" "\<not> filter_sync i tag" | e where "t = Some (Inl e)"
    | q n where "t = Some (Inr q)" "filter_sync (Inr q) tag" "keep q = Some n"
    | q where "t = Some (Inr q)" "filter_sync (Inr q) tag" "keep q = None"
    by (metis option.exhaust sum.exhaust)
  then show thesis
  proof cases
    case (5 q)
    obtain c1 where c1: "handle_unilateral K q c = ((Ok (), c1) :: (unit, 'x error) outcome \<times> _)"
      "delivered contents capacity is_open c [unsolicited_of q] c1"
      using handle_unilateral_delivered [OF K op] by blast
    then have "item (Inr q) c = (Ok None, c1)" by (simp add: item_other [OF 5(3)])
    with 5 c1(2) show thesis
      by (intro go [of c1]) (auto simp: poll_stream_def delivered_def intro: hands_over_forward)
  qed (auto intro: stop simp: poll_stream_def item_error item_keep)
qed

lemma poll_shut_step:
  assumes K: "channel_contract K contents capacity is_open" and "\<not> is_open c"
  obtains (stop) r where "\<And>sc. poll_stream (item, tag, False) (t # sc) c = (r, sc, c)" and "settled r"
  | (go) "\<And>sc. poll_stream (item, tag, False) (t # sc) c = poll_stream (item, tag, False) sc c"
  | (shut) "\<And>sc. fst (poll_stream (item, tag, False) (t # sc) c) = Panic closed_message" and "\<not> ch_is_full K c"
proof -
  consider "t = None" | i where "t = Some i" "\<not> filter_sync i tag" | e where "t = Some (Inl e)"
    | q n where "t = Some (Inr q)" "filter_sync (Inr q) tag" "keep q = Some n"
    | q where "t = Some (Inr q)" "filter_sync (Inr q) tag" "keep q = None"
    by (metis option.exhaust sum.exhaust)
  then show thesis
  proof cases
    case (5 q)
    note chan = handle_unilateral_shut [OF assms, of q, where 'e = "'x error"] and other = item_other [OF 5(3), of c]
    show thesis
    proof (cases "ch_is_full K c")
      case True
      with 5 chan(1) other show thesis by (intro go) (simp add: poll_stream_def)
    next
      case False
      with chan(2) obtain c' where "handle_unilateral K q c = ((Panic closed_message, c') :: (unit, 'x error) outcome \<times> _)" by blast
      with 5 False other show thesis by (intro shut) (simp_all add: poll_stream_def)
    qed
  qed (auto intro: stop simp: poll_stream_def item_error item_keep)
qed

end

text \<open>A stream that has ended answers at once.\<close>

lemma poll_ended: "poll_stream (item, tag, True) sc c = (Ok None, sc, c)"
  by (simp add: poll_stream_def)

definition poll_ends :: "request_id \<Rightarrow> bool \<Rightarrow> 'x item option \<Rightarrow> bool" where
  "poll_ends tag ended t \<longleftrightarrow> ended \<or> finishes tag t"

sublocale item_stream \<subseteq> answers: demand_parser "poll_stream (item, tag, ended)" K "poll_ends tag ended" for tag ended
proof
  fix contents capacity is_open c sc r sc' c'
  assume K: "channel_contract K contents capacity is_open"
  show "is_open c \<Longrightarrow> poll_stream (item, tag, ended) sc c = (r, sc', c') \<Longrightarrow>
      hands_over contents capacity is_open sc c sc' c'"
  proof (cases ended)
    case False
    show "is_open c \<Longrightarrow> poll_stream (item, tag, ended) sc c = (r, sc', c') \<Longrightarrow> ?thesis"
      unfolding False [THEN eq_False [THEN iffD2]]
    proof (induction sc arbitrary: c)
      case (Cons t sc)
      show ?case
        using Cons by (cases rule: poll_step_cases [OF K Cons.prems(1), of tag t]) (auto, metis hands_over_trans)
    qed (auto simp: poll_stream_def)
  qed (auto simp: poll_ended)
  show "is_open c \<Longrightarrow> poll_stream (item, tag, ended) sc c = (r, sc', c') \<Longrightarrow>
      settled r \<or> r = Pending \<and> sc' = [] \<and> (\<forall>t \<in> set sc. \<not> poll_ends tag ended t)"
  proof (cases ended)
    case False
    show "is_open c \<Longrightarrow> poll_stream (item, tag, ended) sc c = (r, sc', c') \<Longrightarrow> ?thesis"
      unfolding False [THEN eq_False [THEN iffD2]] poll_ends_def
    proof (induction sc arbitrary: c)
      case (Cons t sc)
      show ?case
        using Cons by (cases rule: poll_step_cases [OF K Cons.prems(1), of tag t]) auto
    qed (auto simp: poll_stream_def)
  qed (auto simp: poll_ended)
  show "is_open c \<Longrightarrow> poll_stream (item, tag, ended) sc c = (r, sc', c') \<Longrightarrow> settled r \<Longrightarrow>
      \<exists>consumed. sc = consumed @ sc' \<and> (\<forall>later. poll_stream (item, tag, ended) (consumed @ later) c = (r, later, c'))"
  proof (cases ended)
    case False
    show "is_open c \<Longrightarrow> poll_stream (item, tag, ended) sc c = (r, sc', c') \<Longrightarrow> settled r \<Longrightarrow> ?thesis"
      unfolding False [THEN eq_False [THEN iffD2]]
    proof (induction sc arbitrary: c)
      case (Cons t sc)
      show ?case
      proof (cases rule: poll_step_cases [OF K Cons.prems(1), of tag t])
        case (1 res)
        with Cons.prems show ?thesis by (intro exI [of _ "[t]"]) auto
      next
        case (2 c1)
        with Cons obtain consumed where "sc = consumed @ sc'"
          "\<forall>later. poll_stream (item, tag, False) (consumed @ later) c1 = (r, later, c')"
          by metis
        with 2 show ?thesis by (intro exI [of _ "t # consumed"]) auto
      qed
    qed (auto simp: poll_stream_def)
  qed (auto simp: poll_ended)
  show "fst (poll_stream (item, tag, ended) sc c) = Panic m \<Longrightarrow> m = closed_message \<and> \<not> ch_is_full K c"
    if "\<not> is_open c" for m
  proof (cases ended)
    case False
    show "fst (poll_stream (item, tag, ended) sc c) = Panic m \<Longrightarrow> ?thesis"
      unfolding False [THEN eq_False [THEN iffD2]]
    proof (induction sc)
      case (Cons t sc)
      then show ?case by (cases rule: poll_shut_step [OF K that, of tag t]) auto
    qed (auto simp: poll_stream_def)
  qed (auto simp: poll_ended)
qed

section \<open>The three parsers\<close>

definition listed_name :: "'x response_data \<Rightarrow> 'x name option" where
  "listed_name r =
     (case parsed r of
        R_MailboxData (MD_List as d n) \<Rightarrow> Some \<lparr>attributes = as, delimiter = d, name = n\<rparr>
      | _ \<Rightarrow> None)"

definition fetched :: "'x response_data \<Rightarrow> 'x fetch option" where
  "fetched r =
     (case parsed r of
        R_Fetch msg attrs \<Rightarrow>
          Some \<lparr>fetch_response = r, message = msg, uid = last_match av_uid attrs,
                size32 = last_match av_size attrs, modseq = last_match av_modseq attrs\<rparr>
      | _ \<Rightarrow> None)"

definition expunged :: "'x response_data \<Rightarrow> u32 option" where
  "expunged r = (case parsed r of R_Expunge i \<Rightarrow> Some i | _ \<Rightarrow> None)"

interpretation name_stream: item_stream "names_item K" K listed_name for K
  by unfold_locales
    (auto simp: names_item_def listed_name_def split: response.splits mailbox_datum.splits)

interpretation fetch_stream: item_stream "fetches_item K" K fetched for K
  by unfold_locales
    (auto simp: fetches_item_def fetched_def Fetch_new_def fold_fetch_attr split: response.splits)

interpretation expunge_stream: item_stream "expunge_item K" K expunged for K
  by unfold_locales
    (auto simp: expunge_item_def expunged_def split: response.splits)

text \<open>What the elements of a stream are, and which of its responses are handed over.\<close>

definition elements :: "('x response_data \<Rightarrow> 'n option) \<Rightarrow> 'x item list \<Rightarrow> ('x error + 'n) list" where
  "elements keep is =
     List.map_filter (\<lambda>i. case i of Inl e \<Rightarrow> Some (Inl (Io e)) | Inr r \<Rightarrow> map_option Inr (keep r)) is"

definition leftovers :: "('x response_data \<Rightarrow> 'n option) \<Rightarrow> 'x item list \<Rightarrow> 'x unsolicited_response list" where
  "leftovers keep is =
     map unsolicited_of (filter (\<lambda>r. keep r = None)
       (List.map_filter (\<lambda>i. case i of Inl e \<Rightarrow> None | Inr r \<Rightarrow> Some r) is))"

lemmas stream_parts = elements_def leftovers_def List.map_filter_simps

text \<open>
  C20: the stream of \<open>FETCH\<close>, \<open>STORE\<close> and their \<open>UID\<close> forms yields exactly the \<open>FETCH\<close> responses up to
  the completion, in order, each with the last UID, size and modification sequence it carries; an
  I/O error is an element and does not end the stream; all other responses are handed over in
  order; nothing panics and nothing behind the completion is read.
\<close>

theorem parse_fetches_run:
  assumes "channel_contract K contents capacity is_open" and "is_open c"
    and "\<forall>i \<in> set is. filter_sync i tag" and "ends_command tag t"
  shows "\<exists>c'. collect_stream (parse_fetches K tag) (map Some is @ t # sc) c =
           (Ok (elements fetched is), t \<noteq> None, sc, c')
     \<and> delivered contents capacity is_open c (leftovers fetched is) c'"
  using fetch_stream.collect_run [OF assms, of sc]
  by (simp add: collect_stream_def parse_fetches_def elements_def leftovers_def fetch_stream.element_def [abs_def])

theorem parse_fetches_run_witness:
  "\<exists>c' f. collect_stream (parse_fetches fifo_ops ''A0001'')
      [Some (Inr exists_4), Some (Inl (Io_Error Kind_Other (Text ''x''))), Some (Inr sample_fetch),
       Some (Inr done_ok)] fresh_channel =
     (Ok [Inl (Io (Io_Error Kind_Other (Text ''x''))), Inr f], True, [], c')
     \<and> message f = 24 \<and> uid f = Some 7 \<and> fifo_queue c' = [U_Exists 4]"
  using parse_fetches_run [OF fifo_contract, of fresh_channel
      "[Inr exists_4, Inl (Io_Error Kind_Other (Text ''x'')), Inr sample_fetch]" "''A0001''" "Some (Inr done_ok)" "[]"]
  by (fastforce simp: sample_defs sample_fetch_def stream_parts fetched_def delivered_def last_match_def)

text \<open>
  C21: the stream of \<open>LIST\<close> and \<open>LSUB\<close> yields exactly the names of the mailbox listings up to the
  completion, in order and unchanged, with I/O errors as elements; all other responses are handed
  over in order, and nothing panics.
\<close>

theorem parse_names_run:
  assumes "channel_contract K contents capacity is_open" and "is_open c"
    and "\<forall>i \<in> set is. filter_sync i tag" and "ends_command tag t"
  shows "\<exists>c'. collect_stream (parse_names K tag) (map Some is @ t # sc) c =
           (Ok (elements listed_name is), t \<noteq> None, sc, c')
     \<and> delivered contents capacity is_open c (leftovers listed_name is) c'"
  using name_stream.collect_run [OF assms, of sc]
  by (simp add: collect_stream_def parse_names_def elements_def leftovers_def name_stream.element_def [abs_def])

theorem parse_names_run_witness:
  "\<exists>c'. collect_stream (parse_names fifo_ops ''A0001'')
      [Some (Inr (sample (R_MailboxData (MD_List [3] (Some ''.'') ''INBOX'')))), Some (Inr exists_4),
       Some (Inr done_ok)] fresh_channel =
     (Ok [Inr \<lparr>attributes = [3], delimiter = Some ''.'', name = ''INBOX''\<rparr>], True, [], c')
     \<and> fifo_queue c' = [U_Exists 4]"
  using parse_names_run [OF fifo_contract, of fresh_channel
      "[Inr (sample (R_MailboxData (MD_List [3] (Some ''.'') ''INBOX''))), Inr exists_4]" "''A0001''" "Some (Inr done_ok)" "[]"]
  by (fastforce simp: sample_defs stream_parts listed_name_def delivered_def)

text \<open>
  The stream of \<open>EXPUNGE\<close> and \<open>UID EXPUNGE\<close> yields exactly the expunged sequence numbers up to
  the completion, in order, with I/O errors as elements; those numbers do not go to the
  unsolicited channel as well, and all other responses do.
\<close>

theorem parse_expunge_run:
  assumes "channel_contract K contents capacity is_open" and "is_open c"
    and "\<forall>i \<in> set is. filter_sync i tag" and "ends_command tag t"
  shows "\<exists>c'. collect_stream (parse_expunge K tag) (map Some is @ t # sc) c =
           (Ok (elements expunged is), t \<noteq> None, sc, c')
     \<and> delivered contents capacity is_open c (leftovers expunged is) c'"
  using expunge_stream.collect_run [OF assms, of sc]
  by (simp add: collect_stream_def parse_expunge_def elements_def leftovers_def expunge_stream.element_def [abs_def])

theorem parse_expunge_run_witness:
  "\<exists>c'. collect_stream (parse_expunge fifo_ops ''A0001'')
      [Some (Inr (sample (R_Expunge 3))), Some (Inr exists_4), Some (Inr (sample (R_Expunge 3))),
       Some (Inr done_ok)] fresh_channel = (Ok [Inr 3, Inr 3], True, [], c')
     \<and> fifo_queue c' = [U_Exists 4]"
  using parse_expunge_run [OF fifo_contract, of fresh_channel
      "[Inr (sample (R_Expunge 3)), Inr exists_4, Inr (sample (R_Expunge 3))]" "''A0001''" "Some (Inr done_ok)" "[]"]
  by (fastforce simp: sample_defs stream_parts expunged_def delivered_def)

section \<open>The fetches a user gets\<close>

lemma fetch_stream_element:
  "response_stream_next (fetches_item K) tag ended sc c = (Ok (Some (Inr f)), ended', sc', c') \<Longrightarrow>
     \<exists>d before. sc = before @ Some (Inr d) # sc' \<and> fetched d = Some f"
proof (induction "fetches_item K" tag ended sc c rule: response_stream_next.induct)
  case (4 tag res sc c)
  show ?case
  proof (cases "filter_sync res tag \<and> (\<exists>c1. fetches_item K res c = (Ok None, c1))")
    case True
    then obtain c1 where "fetches_item K res c = (Ok None, c1)" by blast
    with 4 True obtain d before where "sc = before @ Some (Inr d) # sc'" "fetched d = Some f" by fastforce
    then show ?thesis by (intro exI [of _ d] exI [of _ "Some res # before"]) simp
  next
    case False
    with "4.prems" obtain c1 where item: "fetches_item K res c = (Ok (Some (Inr f)), c1)" and sc: "sc' = sc"
      by (auto split: if_splits prod.splits outcome.splits option.splits)
    from item obtain d where "res = Inr d" and "fetched d = Some f"
      by (cases res; cases "fetched (projr res)")
        (auto simp: fetch_stream.item_error fetch_stream.item_keep fetch_stream.item_other bind_out_Ok_iff)
    with sc show ?thesis by (intro exI [of _ d] exI [of _ "[]"]) simp
  qed
qed auto

lemma fetched_Fetch_new: "fetched d = Some f \<longleftrightarrow> Fetch_new d = (Ok f :: ('x fetch, 'e) outcome)"
  by (auto simp: fetched_def Fetch_new_Ok_iff split: response.split)

text \<open>
  C22: every fetch that a stream of \<open>FETCH\<close> or \<open>STORE\<close> hands to the user is well-formed: it is a
  \<open>FETCH\<close> response the server sent, the last one the stream has read, with that response's message
  number, and every accessor returns on it.  So none of the panics of the accessors can be reached
  through a session.
\<close>

theorem stream_fetches_well_formed:
  fixes f :: "'x fetch"
  assumes "response_stream_next (fetches_item K) tag ended sc c = (Ok (Some (Inr f)), ended', sc', c')"
  shows "(\<exists>before attrs. sc = before @ Some (Inr (fetch_response f)) # sc'
            \<and> parsed (fetch_response f) = R_Fetch (message f) attrs)
       \<and> (\<exists>a. fetch_flags f = (Ok a :: (flag list, 'e) outcome))
       \<and> (\<exists>a. fetch_header f = (Ok a :: (string option, 'e) outcome))
       \<and> (\<exists>a. fetch_body f = (Ok a :: (string option, 'e) outcome))
       \<and> (\<exists>a. fetch_text f = (Ok a :: (string option, 'e) outcome))
       \<and> (\<exists>a. fetch_envelope f = (Ok a :: ('x option, 'e) outcome))
       \<and> (\<exists>a. fetch_section p f = (Ok a :: (string option, 'e) outcome))
       \<and> (\<exists>a. fetch_internal_date d f = (Ok a :: ('d option, 'e) outcome))
       \<and> (\<exists>a. fetch_bodystructure f = (Ok a :: ('x option, 'e) outcome))"
proof -
  obtain r before where r: "sc = before @ Some (Inr r) # sc'" "fetched r = Some f"
    using fetch_stream_element [OF assms] by blast
  from r(2) have new: "Fetch_new r = (Ok f :: ('x fetch, 'e) outcome)" by (rule fetched_Fetch_new [THEN iffD1])
  then have "fetch_response f = r" and "\<exists>attrs. parsed r = R_Fetch (message f) attrs"
    by (auto simp: Fetch_new_Ok_iff)
  with r(1) fetch_accessors_total [OF new] show ?thesis by blast
qed

theorem stream_fetches_well_formed_witness:
  "\<exists>f ended sc c' a. response_stream_next (fetches_item fifo_ops) ''A0001'' False
      [Some (Inr exists_4), Some (Inr sample_fetch), Some (Inr done_ok)] fresh_channel
        = (Ok (Some (Inr f)), ended, sc, c')
     \<and> fetch_body f = (Ok a :: (string option, unit) outcome)"
proof -
  let ?f = "\<lparr>fetch_response = sample_fetch, message = 24, uid = Some 7, size32 = None, modseq = None\<rparr>"
  have "\<exists>c'. response_stream_next (fetches_item fifo_ops) ''A0001'' False
      [Some (Inr exists_4), Some (Inr sample_fetch), Some (Inr done_ok)] fresh_channel
        = (Ok (Some (Inr ?f)), False, [Some (Inr done_ok)], c')"
    by (simp add: sample_defs sample_fetch_def fetches_item_def Fetch_new_def filter_sync_def
        handle_unilateral_def send_expect_def fifo_ops_def)
  then obtain c' where run: "response_stream_next (fetches_item fifo_ops) ''A0001'' False
      [Some (Inr exists_4), Some (Inr sample_fetch), Some (Inr done_ok)] fresh_channel
        = (Ok (Some (Inr ?f)), False, [Some (Inr done_ok)], c')" by blast
  from stream_fetches_well_formed [OF this] obtain a where "fetch_body ?f = (Ok a :: (string option, unit) outcome)"
    by blast
  with run show ?thesis by blast
qed

end
