(* ===== verification/Buffer.thy ===== *)
theory Buffer
  imports Imap_Types
begin

text \<open>
  \<open>Buffer\<close> of \<open>src/imap_stream.rs\<close>: the block of bytes the stream reads into, of which the first
  \<open>offset\<close> are data.
\<close>

section \<open>State and operations\<close>

record buffer =
  block :: string
  offset :: nat

definition BLOCK_SIZE :: nat where
  "BLOCK_SIZE = 1024 * 4"

definition MAX_CAPACITY :: nat where
  "MAX_CAPACITY = 512 * 1024 * 1024"

definition zeroed :: "nat \<Rightarrow> string" where
  "zeroed n = replicate n (CHR 0x00)"

definition Buffer_new :: buffer where
  "Buffer_new = \<lparr>block = zeroed BLOCK_SIZE, offset = 0\<rparr>"

definition used :: "buffer \<Rightarrow> nat" where
  "used b = offset b"

text \<open>
  \<open>&mut self.block[self.offset..]\<close>: the slice is given by its contents; writing bytes to its
  front is \<open>write_free\<close>.
\<close>

definition free_as_mut_slice :: "buffer \<Rightarrow> (string, 'e) outcome" where
  "free_as_mut_slice b =
     (if offset b \<le> length (block b) then Ok (drop (offset b) (block b))
      else Panic ''range start index out of range for slice'')"

definition write_free :: "string \<Rightarrow> buffer \<Rightarrow> buffer" where
  "write_free w b = b\<lparr>block := take (offset b) (block b) @ w @ drop (offset b + length w) (block b)\<rparr>"

definition extend_used :: "nat \<Rightarrow> buffer \<Rightarrow> (unit, 'e) outcome \<times> buffer" where
  "extend_used num_bytes b =
     bind_out (usize_add (offset b) num_bytes, b)
       (\<lambda>n b. (Ok (), b\<lparr>offset := (if n > length (block b) then length (block b) else n)\<rparr>))"

text \<open>\<open>BytesMut::resize(new_size, 0)\<close>.\<close>

definition resize :: "nat \<Rightarrow> string \<Rightarrow> string" where
  "resize n s = take n s @ zeroed (n - length s)"

definition grow :: "nat \<Rightarrow> buffer \<Rightarrow> (unit, 'x io_error) outcome \<times> buffer" where
  "grow num_bytes b =
     bind_out (usize_add (length (block b)) num_bytes, b) (\<lambda>min_size b.
     bind_out (case min_size mod BLOCK_SIZE of
                 0 \<Rightarrow> Ok min_size
               | n \<Rightarrow> usize_add min_size (BLOCK_SIZE - n), b) (\<lambda>new_size b.
       if new_size > MAX_CAPACITY then (Err (Io_Error Kind_Other (Text ''incoming data too large'')), b)
       else (Ok (), b\<lparr>block := resize new_size (block b)\<rparr>)))"

definition ensure_capacity :: "nat \<Rightarrow> buffer \<Rightarrow> (unit, 'x io_error) outcome \<times> buffer" where
  "ensure_capacity required b =
     bind_out (usize_sub (length (block b)) (offset b), b) (\<lambda>free_bytes b.
       let extra_bytes_needed = required - length (block b) in
       bind_out (if free_bytes = 0 \<or> extra_bytes_needed > 0
                 then grow (max BLOCK_SIZE extra_bytes_needed) b else (Ok (), b)) (\<lambda>_ b.
         if offset b < length (block b) then (Ok (), b)
         else (Panic ''assertion failed: self.offset < self.block.len()'', b)))"

definition take_block :: "buffer \<Rightarrow> string \<times> buffer" where
  "take_block b = (block b, b\<lparr>block := zeroed BLOCK_SIZE\<rparr>)"

definition reset_with_data :: "string \<Rightarrow> buffer \<Rightarrow> buffer" where
  "reset_with_data data b =
     (let min_size = length data;
          new_size = (case min_size mod BLOCK_SIZE of
              0 \<Rightarrow> min_size + BLOCK_SIZE
            | n \<Rightarrow> min_size + (BLOCK_SIZE - n))
      in b\<lparr>block := data @ drop (length data) (zeroed new_size), offset := length data\<rparr>)"

definition return_block :: "string \<Rightarrow> buffer \<Rightarrow> buffer" where
  "return_block blk b = b\<lparr>block := blk\<rparr>"

section \<open>Invariant\<close>

text \<open>The data in the buffer, and what holds of every buffer between the calls of the stream.\<close>

definition buffered :: "buffer \<Rightarrow> string" where
  "buffered b = take (offset b) (block b)"

definition buffer_ok :: "buffer \<Rightarrow> bool" where
  "buffer_ok b \<longleftrightarrow>
     offset b \<le> length (block b) \<and> BLOCK_SIZE dvd length (block b)
   \<and> 0 < length (block b) \<and> length (block b) \<le> MAX_CAPACITY"

lemma length_zeroed [simp]: "length (zeroed n) = n"
  by (simp add: zeroed_def)

lemma BLOCK_SIZE_pos [simp]: "0 < BLOCK_SIZE"
  by (simp add: BLOCK_SIZE_def)

lemma length_resize [simp]: "length (resize n s) = n"
  by (simp add: resize_def min_def)

lemma Buffer_new_ok [simp]: "buffer_ok Buffer_new" "buffered Buffer_new = []"
  by (simp_all add: buffer_ok_def buffered_def Buffer_new_def BLOCK_SIZE_def MAX_CAPACITY_def)

lemma length_buffered: "buffer_ok b \<Longrightarrow> length (buffered b) = used b"
  by (simp add: buffer_ok_def buffered_def used_def)

text \<open>Rounding up to a multiple of the block size.\<close>

definition round_up :: "nat \<Rightarrow> nat" where
  "round_up n = (n + BLOCK_SIZE - 1) div BLOCK_SIZE * BLOCK_SIZE"

lemma div_up:
  fixes n m :: nat
  assumes "0 < m"
  shows "(n + m - 1) div m * m = (case n mod m of 0 \<Rightarrow> n | k \<Rightarrow> n + (m - k))"
proof -
  obtain q r where n: "n = q * m + r" and r: "r < m"
    using assms by (metis mod_div_decomp mod_less_divisor)
  show ?thesis
  proof (cases r)
    case 0
    with n r have "(n + m - 1) div m = q"
      by (intro div_nat_eqI) (simp_all add: mult.commute)
    with n 0 r show ?thesis by simp
  next
    case (Suc j)
    with n r have "(n + m - 1) div m = Suc q"
      by (intro div_nat_eqI) (simp_all add: mult.commute)
    with n Suc r show ?thesis by simp
  qed
qed

lemma next_block:
  fixes n m :: nat
  assumes "0 < m"
  shows "(Suc n + m - 1) div m * m = (case n mod m of 0 \<Rightarrow> n + m | k \<Rightarrow> n + (m - k))"
proof -
  have "(Suc n + m - 1) div m * m = n div m * m + m" using assms by (simp add: div_add_self2)
  moreover have "n mod m \<le> m" using assms by simp
  moreover have "n div m * m + n mod m = n" by (rule div_mult_mod_eq)
  moreover have "u = d + m \<Longrightarrow> r \<le> m \<Longrightarrow> d + r = n \<Longrightarrow> u = (case r of 0 \<Rightarrow> n + m | k \<Rightarrow> n + (m - k))" for u d r
    by (cases r) simp_all
  ultimately show ?thesis by blast
qed

lemma round_up_case: "round_up n = (case n mod BLOCK_SIZE of 0 \<Rightarrow> n | k \<Rightarrow> n + (BLOCK_SIZE - k))"
  unfolding round_up_def by (rule div_up) simp

lemma round_up_Suc: "round_up (Suc n) = (case n mod BLOCK_SIZE of 0 \<Rightarrow> n + BLOCK_SIZE | k \<Rightarrow> n + (BLOCK_SIZE - k))"
  unfolding round_up_def by (rule next_block) simp

lemma round_up_dvd [simp]: "BLOCK_SIZE dvd round_up n"
  by (simp add: round_up_def)

lemma round_up_ge [simp]: "n \<le> round_up n"
  by (simp add: round_up_case split: nat.split)

lemma round_up_less: "round_up n < n + BLOCK_SIZE"
  by (simp add: round_up_case split: nat.split)

text \<open>The rounded size is the least multiple of the block size that is large enough.\<close>

lemma round_up_le_iff: "BLOCK_SIZE dvd m \<Longrightarrow> round_up n \<le> m \<longleftrightarrow> n \<le> m"
proof
  assume m: "BLOCK_SIZE dvd m" and "n \<le> m"
  show "round_up n \<le> m"
  proof (rule ccontr)
    assume "\<not> round_up n \<le> m"
    then have "m < round_up n" by simp
    moreover have "BLOCK_SIZE dvd round_up n - m" using m by (simp add: dvd_diff_nat)
    ultimately have "BLOCK_SIZE \<le> round_up n - m" by (simp add: dvd_imp_le)
    with round_up_less [of n] \<open>n \<le> m\<close> BLOCK_SIZE_pos show False by linarith
  qed
next
  show "round_up n \<le> m \<Longrightarrow> n \<le> m" using round_up_ge [of n] by linarith
qed

lemma MAX_CAPACITY_dvd [simp]: "BLOCK_SIZE dvd MAX_CAPACITY"
  by (simp add: BLOCK_SIZE_def MAX_CAPACITY_def)

lemma grow_eq:
  assumes "length (block b) + n + BLOCK_SIZE \<le> usize_limit"
  shows "grow n b =
     (if MAX_CAPACITY < length (block b) + n then (Err (Io_Error Kind_Other (Text ''incoming data too large'')), b)
      else (Ok (), b\<lparr>block := resize (round_up (length (block b) + n)) (block b)\<rparr>))"
proof -
  let ?m = "length (block b) + n"
  have less: "?m < usize_limit" using assms BLOCK_SIZE_pos by linarith
  have "(case ?m mod BLOCK_SIZE of 0 \<Rightarrow> Ok ?m | Suc k \<Rightarrow> usize_add ?m (BLOCK_SIZE - Suc k))
      = (Ok (round_up ?m) :: (nat, 'a io_error) outcome)"
    using assms less BLOCK_SIZE_pos
    by (cases "?m mod BLOCK_SIZE") (simp_all add: round_up_case usize_add_def del: BLOCK_SIZE_pos)
  with less show ?thesis
    using round_up_le_iff [OF MAX_CAPACITY_dvd, of ?m] by (auto simp: grow_def not_le [symmetric])
qed

lemma take_resize: "k \<le> length s \<Longrightarrow> length s \<le> n \<Longrightarrow> take k (resize n s) = take k s"
  by (simp add: resize_def min_def)

lemma full_block_iff:
  assumes "buffer_ok b"
  shows "MAX_CAPACITY < length (block b) + BLOCK_SIZE \<longleftrightarrow> length (block b) = MAX_CAPACITY"
proof
  have ok: "BLOCK_SIZE dvd length (block b)" "length (block b) \<le> MAX_CAPACITY"
    using assms by (simp_all add: buffer_ok_def)
  assume "MAX_CAPACITY < length (block b) + BLOCK_SIZE"
  moreover have "BLOCK_SIZE dvd MAX_CAPACITY - length (block b)" using ok(1) by (simp add: dvd_diff_nat)
  ultimately show "length (block b) = MAX_CAPACITY"
    using ok(2) by (cases "length (block b) < MAX_CAPACITY") (auto dest: dvd_imp_le)
qed simp

text \<open>\<open>ensure_capacity\<close> does nothing, or grows the block and asserts that it did.\<close>

lemma ensure_capacity_eq:
  assumes "offset b \<le> length (block b)"
  shows "ensure_capacity required b =
     (if offset b < length (block b) \<and> required \<le> length (block b) then (Ok (), b)
      else bind_out (grow (max BLOCK_SIZE (required - length (block b))) b) (\<lambda>_ b.
        if offset b < length (block b) then (Ok (), b)
        else (Panic ''assertion failed: self.offset < self.block.len()'', b)))"
  using assms by (auto simp: ensure_capacity_def Let_def)

text \<open>A block that has grown by at least a block size and as far as required.\<close>

lemma grown_block:
  assumes "buffer_ok b" and "BLOCK_SIZE \<le> n" and "length (block b) + n \<le> MAX_CAPACITY" and "required \<le> length (block b) + n"
  defines "b' \<equiv> b\<lparr>block := resize (round_up (length (block b) + n)) (block b)\<rparr>"
  shows "buffer_ok b'" "buffered b' = buffered b" "offset b' < length (block b')" "required \<le> length (block b')"
proof -
  have ok: "offset b \<le> length (block b)" using assms(1) by (simp add: buffer_ok_def)
  have "length (block b) + n \<le> round_up (length (block b) + n)" by (rule round_up_ge)
  with ok assms(2) BLOCK_SIZE_pos have long: "length (block b) < round_up (length (block b) + n)" by linarith
  with ok show "offset b' < length (block b')" "buffered b' = buffered b"
    by (simp_all add: b'_def buffered_def take_resize)
  show "required \<le> length (block b')"
    unfolding b'_def using le_trans [OF assms(4) round_up_ge] by simp
  show "buffer_ok b'"
    using ok long assms(3) round_up_le_iff [OF MAX_CAPACITY_dvd] by (auto simp: b'_def buffer_ok_def)
qed

lemma ensure_capacity_facts:
  assumes "buffer_ok b" and "required + BLOCK_SIZE \<le> usize_limit"
  shows "if required > MAX_CAPACITY \<or> offset b = MAX_CAPACITY
     then ensure_capacity required b =
        ((Err (Io_Error Kind_Other (Text ''incoming data too large'')), b) :: (unit, 'x io_error) outcome \<times> buffer)
     else \<exists>b'. ensure_capacity required b = ((Ok (), b') :: (unit, 'x io_error) outcome \<times> buffer)
       \<and> buffer_ok b' \<and> buffered b' = buffered b \<and> offset b' = offset b
       \<and> offset b' < length (block b') \<and> required \<le> length (block b')"
proof -
  let ?inc = "max BLOCK_SIZE (required - length (block b))"
  have ok: "offset b \<le> length (block b)" "length (block b) \<le> MAX_CAPACITY"
    using assms(1) by (simp_all add: buffer_ok_def)
  have small: "MAX_CAPACITY + 2 * BLOCK_SIZE \<le> usize_limit"
    by (simp add: MAX_CAPACITY_def BLOCK_SIZE_def usize_limit_def)
  have lim: "length (block b) + ?inc + BLOCK_SIZE \<le> usize_limit"
    using assms(2) ok(2) small by (cases "required \<le> length (block b)") (auto simp: max_def)
  consider (roomy) "offset b < length (block b)" "required \<le> length (block b)"
    | (short) "\<not> (offset b < length (block b) \<and> required \<le> length (block b))" by blast
  then show ?thesis
  proof cases
    case roomy
    with ok assms(1) show ?thesis by (auto simp: ensure_capacity_eq [OF ok(1)])
  next
    case short
    have split: "MAX_CAPACITY < length (block b) + ?inc \<longleftrightarrow> required > MAX_CAPACITY \<or> offset b = MAX_CAPACITY"
      using short ok full_block_iff [OF assms(1)] BLOCK_SIZE_pos by (auto simp: max_def simp del: BLOCK_SIZE_pos split: if_splits)
    show ?thesis
    proof (cases "MAX_CAPACITY < length (block b) + ?inc")
      case True
      with split show ?thesis
        by (simp only: ensure_capacity_eq [OF ok(1)] grow_eq [OF lim] short if_True if_False bind_out.simps)
    next
      case False
      then have "length (block b) + ?inc \<le> MAX_CAPACITY" by simp
      from grown_block [OF assms(1) _ this, of required] BLOCK_SIZE_pos split False show ?thesis
        by (auto simp: ensure_capacity_eq [OF ok(1)] grow_eq [OF lim] short)
    qed
  qed
qed

text \<open>
  C16: on a well-formed buffer, for every requirement up to the limits of the address space,
  \<open>ensure_capacity\<close> never panics.  It fails exactly when a full buffer has the maximal size or
  more than the maximal size is required, and then changes nothing.  Otherwise it keeps the data and the invariant and leaves
  a buffer with a free byte that is as large as required.
\<close>

theorem ensure_capacity_correct:
  assumes "buffer_ok b" and "required + BLOCK_SIZE \<le> usize_limit"
  shows "if required > MAX_CAPACITY \<or> offset b = MAX_CAPACITY
     then ensure_capacity required b =
        ((Err (Io_Error Kind_Other (Text ''incoming data too large'')), b) :: (unit, 'x io_error) outcome \<times> buffer)
     else \<exists>b'. ensure_capacity required b = ((Ok (), b') :: (unit, 'x io_error) outcome \<times> buffer)
       \<and> buffer_ok b' \<and> buffered b' = buffered b \<and> offset b' = offset b
       \<and> offset b' < length (block b') \<and> required \<le> length (block b')"
  using ensure_capacity_facts [OF assms] .

theorem ensure_capacity_correct_witness:
  "\<exists>b'. ensure_capacity 5000 Buffer_new = ((Ok (), b') :: (unit, nat io_error) outcome \<times> buffer)
     \<and> 5000 \<le> length (block b')"
  using ensure_capacity_correct [OF Buffer_new_ok(1), of 5000]
  by (auto simp: MAX_CAPACITY_def BLOCK_SIZE_def usize_limit_def Buffer_new_def)

lemma reset_with_data_facts:
  assumes "length data < MAX_CAPACITY"
  shows "buffer_ok (reset_with_data data b)" "buffered (reset_with_data data b) = data"
    "offset (reset_with_data data b) < length (block (reset_with_data data b))"
    "length (block (reset_with_data data b)) \<le> length data + BLOCK_SIZE"
proof -
  let ?n = "case length data mod BLOCK_SIZE of 0 \<Rightarrow> length data + BLOCK_SIZE | n \<Rightarrow> length data + (BLOCK_SIZE - n)"
  have "?n = round_up (Suc (length data))" by (rule round_up_Suc [symmetric])
  then have "reset_with_data data b =
      b\<lparr>block := data @ drop (length data) (zeroed (round_up (Suc (length data)))), offset := length data\<rparr>"
    by (simp add: reset_with_data_def Let_def)
  moreover have "length data < round_up (Suc (length data))"
    by (rule Suc_le_lessD) (rule round_up_ge)
  moreover have "round_up (Suc (length data)) \<le> MAX_CAPACITY"
    using assms by (simp add: round_up_le_iff)
  ultimately show "buffer_ok (reset_with_data data b)" "buffered (reset_with_data data b) = data"
    "offset (reset_with_data data b) < length (block (reset_with_data data b))"
    "length (block (reset_with_data data b)) \<le> length data + BLOCK_SIZE"
    using round_up_less [of "Suc (length data)"] by (auto simp: buffer_ok_def buffered_def)
qed

text \<open>
  \<open>reset_with_data\<close> leaves exactly the given data in the buffer with at least one free byte
  behind it, keeps the invariant for every amount of data below the maximal capacity, and wastes
  at most one block.
\<close>

theorem reset_with_data_correct:
  assumes "length data < MAX_CAPACITY"
  shows "buffer_ok (reset_with_data data b) \<and> buffered (reset_with_data data b) = data
     \<and> offset (reset_with_data data b) < length (block (reset_with_data data b))
     \<and> length (block (reset_with_data data b)) \<le> length data + BLOCK_SIZE"
  using reset_with_data_facts [OF assms] by blast

theorem reset_with_data_correct_witness:
  "buffered (reset_with_data ''abc'' Buffer_new) = ''abc'' \<and> buffer_ok (reset_with_data ''abc'' Buffer_new)"
  using reset_with_data_correct [of "''abc''" Buffer_new] by (simp add: MAX_CAPACITY_def)

end
