(* ===== verification/Imap_Stream.thy ===== *)
theory Imap_Stream
  imports Buffer
begin

text \<open>
  \<open>ImapStream\<close> of \<open>src/imap_stream.rs\<close>: reading bytes from the transport, parsing them into
  responses, and writing requests.

  The transport and \<open>imap_proto\<close>'s response parser are not part of this repository.  The
  transport is the parameters \<open>poll_read\<close> and \<open>W\<close> (the operations of \<open>AsyncRead\<close> and
  \<open>AsyncWriteExt\<close> the crate calls), the parser is the parameter \<open>P\<close>; the locales \<open>byte_source\<close>,
  \<open>eager_source\<close> and \<open>byte_sink\<close> and the predicate \<open>parser_contract\<close> state what the crate relies on.
\<close>

section \<open>The interfaces\<close>

text \<open>
  \<open>poll_read\<close> is given the length of the slice to read into and the transport; the bytes it
  reads are the result, and none of them means the end of the stream.
\<close>

datatype 'x read_result = Read string | Read_Error "'x io_error" | Read_Pending

locale byte_source =
  fixes poll_read :: "nat \<Rightarrow> 'r \<Rightarrow> 'x read_result \<times> 'r"
    and unread :: "'r \<Rightarrow> string"
  assumes read_bytes: "poll_read n r = (Read w, r') \<Longrightarrow> length w \<le> n \<and> unread r = w @ unread r'"
    and read_error: "poll_read n r = (Read_Error e, r') \<Longrightarrow> unread r' = unread r"
    and read_pending: "poll_read n r = (Read_Pending, r') \<Longrightarrow> unread r' = unread r"

text \<open>A source that, in the states \<open>calm\<close>, delivers some bytes whenever there are any.\<close>

locale eager_source = byte_source poll_read unread
  for poll_read :: "nat \<Rightarrow> 'r \<Rightarrow> 'x read_result \<times> 'r" and unread :: "'r \<Rightarrow> string" +
  fixes calm :: "'r \<Rightarrow> bool"
  assumes read_progress: "calm r \<Longrightarrow> unread r \<noteq> [] \<Longrightarrow> 0 < n \<Longrightarrow>
          \<exists>w r'. poll_read n r = (Read w, r') \<and> w \<noteq> [] \<and> calm r'"

text \<open>
  The result of \<open>parse_response\<close>: the rest of the input with a response, a lower bound on the
  number of bytes missing, an unknown number of bytes missing, or a failure.
\<close>

datatype 'x parse_result =
    Parsed string "'x response"
  | Incomplete_Size nat
  | Incomplete_Unknown
  | Parse_Failure 'x

definition parses :: "(string \<Rightarrow> 'x parse_result) \<Rightarrow> string \<Rightarrow> bool" where
  "parses P s \<longleftrightarrow> (case P s of Parsed rem r \<Rightarrow> True | _ \<Rightarrow> False)"

text \<open>
  A streaming parser: a response takes at least a byte from the front of the input, more input
  does not change it, and neither a failure nor a bound on the missing bytes is taken back.  The
  bound is the length of a literal or a token, which \<open>imap_proto\<close> reads as a 32-bit number.
\<close>

definition parser_contract :: "(string \<Rightarrow> 'x parse_result) \<Rightarrow> bool" where
  "parser_contract P \<longleftrightarrow>
     (\<forall>s rem r. P s = Parsed rem r \<longrightarrow> (\<exists>p. p \<noteq> [] \<and> s = p @ rem))
   \<and> (\<forall>s rem r t. P s = Parsed rem r \<longrightarrow> P (s @ t) = Parsed (rem @ t) r)
   \<and> (\<forall>s x t. P s = Parse_Failure x \<longrightarrow> \<not> parses P (s @ t))
   \<and> (\<forall>s n. P s = Incomplete_Size n \<longrightarrow> n \<le> 2 ^ 32)
   \<and> (\<forall>s n t. P s = Incomplete_Size n \<longrightarrow> length t < n \<longrightarrow> \<not> parses P (s @ t))"

lemma parser_contractD:
  assumes "parser_contract P"
  shows parsed_consumes: "\<And>s rem r. P s = Parsed rem r \<Longrightarrow> \<exists>p. p \<noteq> [] \<and> s = p @ rem"
    and parsed_mono: "\<And>s rem r t. P s = Parsed rem r \<Longrightarrow> P (s @ t) = Parsed (rem @ t) r"
    and failure_stable: "\<And>s x t. P s = Parse_Failure x \<Longrightarrow> \<not> parses P (s @ t)"
    and size_bound: "\<And>s n. P s = Incomplete_Size n \<Longrightarrow> n \<le> 2 ^ 32"
    and size_minimal: "\<And>s n t. P s = Incomplete_Size n \<Longrightarrow> length t < n \<Longrightarrow> \<not> parses P (s @ t)"
  using assms unfolding parser_contract_def by blast+

section \<open>Reading\<close>

record 'r imap_stream =
  inner :: 'r
  decode_needs :: nat
  buffer :: buffer

definition ImapStream_new :: "'r \<Rightarrow> 'r imap_stream" where
  "ImapStream_new r = \<lparr>inner = r, decode_needs = 0, buffer = Buffer_new\<rparr>"

definition decode :: "(string \<Rightarrow> 'x parse_result) \<Rightarrow> 'r imap_stream
    \<Rightarrow> ('x response_data option, 'x io_error) outcome \<times> 'r imap_stream" where
  "decode P s =
     (if used (buffer s) < decode_needs s then (Ok None, s)
      else
        (let (blk, b) = take_block (buffer s) in
         if length blk < used b then (Panic ''range end index out of range for slice'', s\<lparr>buffer := b\<rparr>)
         else
           (let buf = take (used b) blk in
            case P buf of
              Parsed remaining response \<Rightarrow>
                (Ok (Some \<lparr>raw = blk, parsed = response\<rparr>),
                 s\<lparr>decode_needs := 0, buffer := reset_with_data remaining b\<rparr>)
            | Incomplete_Size needed \<Rightarrow>
                bind_out (usize_add (used b) needed, s\<lparr>buffer := b\<rparr>) (\<lambda>n s.
                  (Ok None, s\<lparr>decode_needs := n, buffer := return_block blk b\<rparr>))
            | Incomplete_Unknown \<Rightarrow>
                (Ok None, s\<lparr>decode_needs := 0, buffer := return_block blk b\<rparr>)
            | Parse_Failure other \<Rightarrow>
                (Err (Io_Error Kind_Other (Parse_Debug other buf)),
                 s\<lparr>decode_needs := 0, buffer := return_block blk b\<rparr>))))"

text \<open>
  One round of the loop of \<open>poll_next\<close>: \<open>Inl\<close> is a \<open>return\<close> (\<open>Ok\<close> is \<open>Poll::Ready\<close>), \<open>Inr\<close> goes
  on with the next round.  \<open>poll_received\<close> is its second half, after \<open>poll_read\<close> has put the
  bytes \<open>w\<close> into the free part of the buffer and reported their number.
\<close>

definition poll_received :: "(string \<Rightarrow> 'x parse_result) \<Rightarrow> string \<Rightarrow> 'r imap_stream
    \<Rightarrow> ('x item option, 'x io_error) outcome \<times> 'r imap_stream + 'r imap_stream" where
  "poll_received P w s =
     (if length w = 0 then
        (if used (buffer s) > 0 then
           Inl (Ok (Some (Inl (Io_Error Kind_UnexpectedEof (Text ''bytes remaining in stream'')))), s)
         else Inl (Ok None, s))
      else
        (case (extend_used (length w) (buffer s) :: (unit, 'x io_error) outcome \<times> buffer) of
           (Ok _, b) \<Rightarrow>
             (case decode P (s\<lparr>buffer := b\<rparr>) of
                (Ok (Some response), s) \<Rightarrow> Inl (Ok (Some (Inr response)), s)
              | (Ok None, s) \<Rightarrow> Inr s
              | (Err e, s) \<Rightarrow> Inl (Ok (Some (Inl e)), s)
              | (Panic m, s) \<Rightarrow> Inl (Panic m, s)
              | (Pending, s) \<Rightarrow> Inl (Pending, s))
         | (Panic m, b) \<Rightarrow> Inl (Panic m, s\<lparr>buffer := b\<rparr>)
         | (_, b) \<Rightarrow> Inl (Pending, s\<lparr>buffer := b\<rparr>)))"

definition poll_step :: "(string \<Rightarrow> 'x parse_result) \<Rightarrow> (nat \<Rightarrow> 'r \<Rightarrow> 'x read_result \<times> 'r) \<Rightarrow> 'r imap_stream
    \<Rightarrow> ('x item option, 'x io_error) outcome \<times> 'r imap_stream + 'r imap_stream" where
  "poll_step P poll_read s =
     (case ensure_capacity (decode_needs s) (buffer s) of
        (Err e, b) \<Rightarrow> Inl (Ok (Some (Inl e)), s\<lparr>buffer := b\<rparr>)
      | (Panic m, b) \<Rightarrow> Inl (Panic m, s\<lparr>buffer := b\<rparr>)
      | (Pending, b) \<Rightarrow> Inl (Pending, s\<lparr>buffer := b\<rparr>)
      | (Ok _, b) \<Rightarrow>
          (case (free_as_mut_slice b :: (string, 'x io_error) outcome) of
             Ok buf \<Rightarrow>
               if buf = [] then Inl (Panic ''assertion failed: !buf.is_empty()'', s\<lparr>buffer := b\<rparr>)
               else
                 (case poll_read (length buf) (inner s) of
                    (Read_Pending, r) \<Rightarrow> Inl (Pending, s\<lparr>buffer := b, inner := r\<rparr>)
                  | (Read_Error e, r) \<Rightarrow> Inl (Ok (Some (Inl e)), s\<lparr>buffer := b, inner := r\<rparr>)
                  | (Read w, r) \<Rightarrow>
                      poll_received P w (s\<lparr>buffer := write_free (take (length buf) w) b, inner := r\<rparr>))
           | Panic m \<Rightarrow> Inl (Panic m, s\<lparr>buffer := b\<rparr>)
           | _ \<Rightarrow> Inl (Pending, s\<lparr>buffer := b\<rparr>)))"

text \<open>
  The loop ends for every transport and every parser: a round that goes on has read at least one
  byte into a block that is not longer than the maximal capacity, or was that long before.
\<close>

definition headroom :: "'r imap_stream \<Rightarrow> nat" where
  "headroom s = max (length (block (buffer s))) MAX_CAPACITY - offset (buffer s)"

lemma decode_None_buffer:
  assumes "decode P s = (Ok None, s')"
  shows "buffer s' = buffer s \<and> inner s' = inner s"
  using assms
  by (auto simp: decode_def Let_def take_block_def return_block_def bind_out_Ok_iff
      split: if_splits parse_result.splits)

lemma grow_Ok_cases:
  assumes "grow n b = (Ok (), b')"
  shows "offset b' = offset b \<and> length (block b') \<le> MAX_CAPACITY"
  using assms by (auto simp: grow_def bind_out_Ok_iff split: if_splits)

lemma ensure_capacity_Ok_cases:
  assumes "ensure_capacity n b = (Ok (), b')"
  shows "offset b' = offset b \<and> offset b' < length (block b')
       \<and> max (length (block b')) MAX_CAPACITY \<le> max (length (block b)) MAX_CAPACITY"
  using assms
  by (auto simp: ensure_capacity_def Let_def bind_out_Ok_iff split: if_splits dest: grow_Ok_cases)

lemma extend_used_eq:
  "offset b + n < usize_limit \<Longrightarrow>
     extend_used n b = (Ok (), b\<lparr>offset := min (length (block b)) (offset b + n)\<rparr>)"
  by (simp add: extend_used_def min_def)

lemma extend_used_overflow:
  "\<not> offset b + n < usize_limit \<Longrightarrow>
     extend_used n b = (Panic ''attempt to add with overflow'', b)"
  by (simp add: extend_used_def usize_add_def)

lemma poll_received_Inr:
  assumes "poll_received P w s = Inr s'" and "offset (buffer s) < length (block (buffer s))"
  shows "offset (buffer s) < offset (buffer s') \<and> length (block (buffer s')) = length (block (buffer s))"
proof -
  have w: "w \<noteq> []"
    using assms(1) by (auto simp: poll_received_def split: if_splits)
  have lim: "offset (buffer s) + length w < usize_limit"
  proof (rule ccontr)
    assume "\<not> offset (buffer s) + length w < usize_limit"
    with assms(1) w show False by (simp add: poll_received_def extend_used_overflow)
  qed
  let ?b = "(buffer s)\<lparr>offset := min (length (block (buffer s))) (offset (buffer s) + length w)\<rparr>"
  have "decode P (s\<lparr>buffer := ?b\<rparr>) = (Ok None, s')"
    using assms(1) w lim
    by (simp add: poll_received_def extend_used_eq split: prod.splits outcome.splits option.splits)
  from decode_None_buffer [OF this] w assms(2) show ?thesis by (cases w) auto
qed

lemma poll_step_eq:
  assumes "ensure_capacity (decode_needs s) (buffer s) = ((Ok (), b) :: (unit, 'x io_error) outcome \<times> buffer)"
  shows "poll_step P poll_read s =
     (case poll_read (length (block b) - offset b) (inner s) of
        (Read_Pending, r) \<Rightarrow> Inl (Pending, s\<lparr>buffer := b, inner := r\<rparr>)
      | (Read_Error e, r) \<Rightarrow> Inl (Ok (Some (Inl (e :: 'x io_error))), s\<lparr>buffer := b, inner := r\<rparr>)
      | (Read w, r) \<Rightarrow>
          poll_received P w (s\<lparr>buffer := write_free (take (length (block b) - offset b) w) b, inner := r\<rparr>))"
proof -
  from ensure_capacity_Ok_cases [OF assms] have "offset b < length (block b)" by simp
  with assms show ?thesis by (simp add: poll_step_def free_as_mut_slice_def split: prod.split read_result.split)
qed

lemma length_write_free: "offset b + length w \<le> length (block b) \<Longrightarrow> length (block (write_free w b)) = length (block b)"
  by (simp add: write_free_def)

lemma poll_step_headroom:
  assumes "poll_step P poll_read s = Inr s'"
  shows "headroom s' < headroom s"
proof -
  obtain b where b: "ensure_capacity (decode_needs s) (buffer s) = ((Ok (), b) :: (unit, 'a io_error) outcome \<times> _)"
    using assms by (auto simp: poll_step_def split: prod.splits outcome.splits)
  from ensure_capacity_Ok_cases [OF this]
  have off: "offset b = offset (buffer s)" "offset b < length (block b)"
    and len: "max (length (block b)) MAX_CAPACITY \<le> max (length (block (buffer s))) MAX_CAPACITY" by auto
  define n where "n = length (block b) - offset b"
  from assms obtain w r where "poll_received P w (s\<lparr>buffer := write_free (take n w) b, inner := r\<rparr>) = Inr s'"
    by (auto simp: poll_step_eq [OF b] n_def split: prod.splits read_result.splits)
  moreover have "length (block (write_free (take n w) b)) = length (block b)"
    using off by (intro length_write_free) (simp add: n_def)
  ultimately have "offset b < offset (buffer s')" "length (block (buffer s')) = length (block b)"
    using off poll_received_Inr [of P w _ s'] by (fastforce simp: write_free_def)+
  with off len show ?thesis by (auto simp: headroom_def)
qed

function poll_loop :: "(string \<Rightarrow> 'x parse_result) \<Rightarrow> (nat \<Rightarrow> 'r \<Rightarrow> 'x read_result \<times> 'r) \<Rightarrow> 'r imap_stream
    \<Rightarrow> ('x item option, 'x io_error) outcome \<times> 'r imap_stream" where
  "poll_loop P poll_read s =
     (case poll_step P poll_read s of Inl result \<Rightarrow> result | Inr s' \<Rightarrow> poll_loop P poll_read s')"
  by pat_completeness auto
termination
  by (relation "measure (\<lambda>(P, poll_read, s). headroom s)") (auto dest: poll_step_headroom)

declare poll_loop.simps [simp del]

definition poll_next :: "(string \<Rightarrow> 'x parse_result) \<Rightarrow> (nat \<Rightarrow> 'r \<Rightarrow> 'x read_result \<times> 'r) \<Rightarrow> 'r imap_stream
    \<Rightarrow> ('x item option, 'x io_error) outcome \<times> 'r imap_stream" where
  "poll_next P poll_read s =
     (case decode P s of
        (Ok (Some response), s) \<Rightarrow> (Ok (Some (Inr response)), s)
      | (Ok None, s) \<Rightarrow> poll_loop P poll_read s
      | (Err e, s) \<Rightarrow> (Ok (Some (Inl e)), s)
      | (Panic m, s) \<Rightarrow> (Panic m, s)
      | (Pending, s) \<Rightarrow> (Pending, s))"

text \<open>The first \<open>n\<close> rounds of the loop.\<close>

fun poll_rounds :: "nat \<Rightarrow> (string \<Rightarrow> 'x parse_result) \<Rightarrow> (nat \<Rightarrow> 'r \<Rightarrow> 'x read_result \<times> 'r) \<Rightarrow> 'r imap_stream
    \<Rightarrow> ('x item option, 'x io_error) outcome \<times> 'r imap_stream + 'r imap_stream" where
  "poll_rounds 0 P poll_read s = Inr s"
| "poll_rounds (Suc n) P poll_read s =
     (case poll_step P poll_read s of Inl result \<Rightarrow> Inl result | Inr s' \<Rightarrow> poll_rounds n P poll_read s')"

text \<open>
  C12: the loop of \<open>poll_next\<close> ends whatever the transport and the parser do, also when they break
  their contracts: it returns or panics after at most one round more than there are bytes between
  the data in the buffer and the maximal capacity (or the block, when that is longer).
\<close>

theorem poll_loop_terminates:
  "\<exists>n \<le> Suc (max (length (block (buffer s))) MAX_CAPACITY - used (buffer s)).
     poll_rounds n P poll_read s = Inl (poll_loop P poll_read s)"
proof (induction "headroom s" arbitrary: s rule: less_induct)
  case less
  show ?case
  proof (cases "poll_step P poll_read s")
    case (Inl p)
    then show ?thesis by (intro exI [of _ "Suc 0"]) (simp add: poll_loop.simps [of P poll_read s])
  next
    case (Inr s1)
    from poll_step_headroom [OF this] obtain n
      where "n \<le> Suc (headroom s1)" and "poll_rounds n P poll_read s1 = Inl (poll_loop P poll_read s1)"
      using less.hyps [of s1] unfolding headroom_def used_def by blast
    with Inr poll_step_headroom [OF Inr] show ?thesis
      by (intro exI [of _ "Suc n"]) (simp add: poll_loop.simps [of P poll_read s] headroom_def used_def)
  qed
qed

section \<open>The invariant of the stream\<close>

text \<open>
  All bytes of the server that have not been returned as part of a response: those in the buffer
  and those the transport still has.
\<close>

definition stream_bytes :: "('r \<Rightarrow> string) \<Rightarrow> 'r imap_stream \<Rightarrow> string" where
  "stream_bytes unread s = buffered (buffer s) @ unread (inner s)"

text \<open>
  The buffer is well-formed, and \<open>decode_needs\<close> is a lower bound on the input that the next
  response takes: as long as there is less, there is nothing to parse.
\<close>

definition stream_inv :: "(string \<Rightarrow> 'x parse_result) \<Rightarrow> 'r imap_stream \<Rightarrow> bool" where
  "stream_inv P s \<longleftrightarrow>
     buffer_ok (buffer s) \<and> decode_needs s \<le> MAX_CAPACITY + 2 ^ 32
   \<and> (\<forall>t. used (buffer s) + length t < decode_needs s \<longrightarrow> \<not> parses P (buffered (buffer s) @ t))"

lemma stream_inv_new: "stream_inv P (ImapStream_new r)"
  by (simp add: stream_inv_def ImapStream_new_def)

lemma used_le_MAX: "buffer_ok b \<Longrightarrow> used b \<le> MAX_CAPACITY"
  by (simp add: buffer_ok_def used_def)

lemma decode_eq:
  assumes "buffer_ok (buffer s)" and P: "parser_contract P"
  shows "decode P s =
     (if used (buffer s) < decode_needs s then (Ok None, s)
      else
        (case P (buffered (buffer s)) of
           Parsed rem r \<Rightarrow>
             (Ok (Some \<lparr>raw = block (buffer s), parsed = r\<rparr>),
              s\<lparr>decode_needs := 0, buffer := reset_with_data rem (snd (take_block (buffer s)))\<rparr>)
         | Incomplete_Size n \<Rightarrow> (Ok None, s\<lparr>decode_needs := used (buffer s) + n\<rparr>)
         | Incomplete_Unknown \<Rightarrow> (Ok None, s\<lparr>decode_needs := 0\<rparr>)
         | Parse_Failure x \<Rightarrow>
             (Err (Io_Error Kind_Other (Parse_Debug x (buffered (buffer s)))), s\<lparr>decode_needs := 0\<rparr>)))"
proof -
  have same: "return_block (block (buffer s)) ((buffer s)\<lparr>block := zeroed BLOCK_SIZE\<rparr>) = buffer s"
    by (simp add: return_block_def)
  have "used (buffer s) + n < usize_limit" if "P (buffered (buffer s)) = Incomplete_Size n" for n
    using used_le_MAX [OF assms(1)] size_bound [OF P that]
    by (simp add: MAX_CAPACITY_def usize_limit_def)
  with assms(1) show ?thesis
    by (auto simp: decode_def take_block_def Let_def buffered_def used_def buffer_ok_def same [unfolded used_def]
        split: parse_result.split)
qed

text \<open>What a call of \<open>decode\<close> does to the bytes, for each of its results.\<close>

lemma decode_cases:
  assumes inv: "stream_inv P s" and P: "parser_contract P"
  obtains (more) s' where "decode P s = (Ok None, s')" and "stream_inv P s'" and "inner s' = inner s"
      and "buffer s' = buffer s" and "\<not> parses P (buffered (buffer s))"
  | (response) d s' where "decode P s = (Ok (Some d), s')" and "stream_inv P s'" and "inner s' = inner s"
      and "P (buffered (buffer s)) = Parsed (buffered (buffer s')) (parsed d)"
  | (failure) x s' where "decode P s = (Err (Io_Error Kind_Other (Parse_Debug x (buffered (buffer s)))), s')"
      and "stream_inv P s'" and "inner s' = inner s" and "buffer s' = buffer s"
      and "P (buffered (buffer s)) = Parse_Failure x" and "decode_needs s' = 0"
proof (cases "used (buffer s) < decode_needs s")
  case True
  moreover have "\<not> parses P (buffered (buffer s) @ [])"
    using inv True unfolding stream_inv_def by (metis add.right_neutral list.size(3))
  ultimately show thesis
    using inv by (intro more [of s]) (simp_all add: decode_def)
next
  case False
  have ok: "buffer_ok (buffer s)" using inv by (simp add: stream_inv_def)
  note eq = decode_eq [OF ok P] and len = length_buffered [OF ok] and max = used_le_MAX [OF ok]
  show thesis
  proof (cases "P (buffered (buffer s))")
    case (Parsed rem r)
    obtain p where p: "p \<noteq> []" "buffered (buffer s) = p @ rem" using parsed_consumes [OF P Parsed] by blast
    then have "length rem < length (buffered (buffer s))" by (cases p) simp_all
    then have "length rem < MAX_CAPACITY" using len max by linarith
    from reset_with_data_facts [OF this] show thesis
      using False Parsed
      by (intro response [of "\<lparr>raw = block (buffer s), parsed = r\<rparr>"
            "s\<lparr>decode_needs := 0, buffer := reset_with_data rem (snd (take_block (buffer s)))\<rparr>"])
        (simp_all add: eq stream_inv_def)
  next
    case (Incomplete_Size n)
    have "\<not> parses P (buffered (buffer s))"
      using Incomplete_Size by (simp add: parses_def)
    with False Incomplete_Size ok max size_bound [OF P Incomplete_Size] size_minimal [OF P Incomplete_Size] show thesis
      by (intro more [of "s\<lparr>decode_needs := used (buffer s) + n\<rparr>"]) (auto simp: eq stream_inv_def)
  next
    case Incomplete_Unknown
    with False ok show thesis
      by (intro more [of "s\<lparr>decode_needs := 0\<rparr>"]) (simp_all add: eq stream_inv_def parses_def)
  next
    case (Parse_Failure x)
    with False ok show thesis
      by (intro failure [of x "s\<lparr>decode_needs := 0\<rparr>"]) (simp_all add: eq stream_inv_def)
  qed
qed

section \<open>Reading from a source of bytes\<close>

text \<open>
  What a result of \<open>poll_next\<close> says about the bytes before and after the call: a response is the
  first one in them and everything behind it is still there; an error, the end of the stream and
  waiting lose nothing.
\<close>

definition poll_result_ok :: "(string \<Rightarrow> 'x parse_result) \<Rightarrow> ('r \<Rightarrow> string) \<Rightarrow> string
    \<Rightarrow> ('x item option, 'x io_error) outcome \<Rightarrow> 'r imap_stream \<Rightarrow> bool" where
  "poll_result_ok P unread bytes res s' \<longleftrightarrow>
     stream_inv P s'
   \<and> (case res of
        Ok (Some (Inr d)) \<Rightarrow> P bytes = Parsed (stream_bytes unread s') (parsed d)
      | Ok (Some (Inl e)) \<Rightarrow> stream_bytes unread s' = bytes
      | Ok None \<Rightarrow> stream_bytes unread s' = bytes \<and> buffered (buffer s') = []
      | Pending \<Rightarrow> stream_bytes unread s' = bytes
      | Err e \<Rightarrow> False
      | Panic m \<Rightarrow> False)"

lemma offset_write_free [simp]: "offset (write_free w b) = offset b"
  by (simp add: write_free_def)

lemma buffered_write_free:
  assumes "offset b + length w \<le> length (block b)"
  shows "buffered ((write_free w b)\<lparr>offset := offset b + length w\<rparr>) = buffered b @ w"
  using assms by (simp add: buffered_def write_free_def)

lemma buffer_ok_write_free:
  assumes "buffer_ok b" and "offset b + length w \<le> length (block b)"
  shows "buffer_ok ((write_free w b)\<lparr>offset := offset b + length w\<rparr>)"
  using assms by (simp add: buffer_ok_def length_write_free)

text \<open>More data in the buffer keeps the bound of \<open>decode_needs\<close>.\<close>

lemma stream_inv_extend:
  assumes "stream_inv P s" and "buffer_ok b" and "buffered b = buffered (buffer s) @ w"
  shows "stream_inv P (s\<lparr>buffer := b, inner := r\<rparr>)"
proof -
  have "used b = used (buffer s) + length w"
    using assms length_buffered [of b] length_buffered [of "buffer s"] by (simp add: stream_inv_def)
  moreover have "\<not> parses P (buffered (buffer s) @ w @ t)"
    if "used (buffer s) + length (w @ t) < decode_needs s" for t
    using assms(1) that unfolding stream_inv_def by blast
  ultimately show ?thesis
    using assms by (simp add: stream_inv_def add.assoc)
qed

text \<open>The capacity that is asked for never overflows.\<close>

lemma stream_inv_ensure:
  assumes "stream_inv (P :: string \<Rightarrow> 'x parse_result) s"
  obtains (full) "ensure_capacity (decode_needs s) (buffer s) =
        ((Err (Io_Error Kind_Other (Text ''incoming data too large'')), buffer s) :: (unit, 'x io_error) outcome \<times> _)"
      and "decode_needs s > MAX_CAPACITY \<or> used (buffer s) = MAX_CAPACITY"
  | (room) b where "ensure_capacity (decode_needs s) (buffer s) = ((Ok (), b) :: (unit, 'x io_error) outcome \<times> _)"
      and "buffer_ok b" and "buffered b = buffered (buffer s)" and "offset b < length (block b)"
      and "\<not> decode_needs s > MAX_CAPACITY" and "used (buffer s) \<noteq> MAX_CAPACITY"
proof -
  have "buffer_ok (buffer s)" and "decode_needs s + BLOCK_SIZE \<le> usize_limit"
    using assms by (simp_all add: stream_inv_def MAX_CAPACITY_def BLOCK_SIZE_def usize_limit_def)
  from ensure_capacity_facts [OF this] full room show thesis
    by (auto simp: used_def split: if_splits)
qed

context byte_source
begin

text \<open>A round that got bytes decodes what is in the buffer then.\<close>

lemma received_decode:
  assumes inv: "stream_inv (P :: string \<Rightarrow> 'x parse_result) s"
    and b: "buffer_ok b" "buffered b = buffered (buffer s)" "offset b + length w \<le> length (block b)"
    and w: "w \<noteq> []" and r: "unread (inner s) = w @ unread r"
  obtains s1 where "stream_inv P s1" and "stream_bytes unread s1 = stream_bytes unread s" and "inner s1 = r"
    and "poll_received P w (s\<lparr>buffer := write_free w b, inner := r\<rparr>) =
      (case decode P s1 of
         (Ok (Some response), s) \<Rightarrow> Inl (Ok (Some (Inr response)), s)
       | (Ok None, s) \<Rightarrow> Inr s
       | (Err e, s) \<Rightarrow> Inl (Ok (Some (Inl e)), s)
       | (Panic m, s) \<Rightarrow> Inl (Panic m, s)
       | (Pending, s) \<Rightarrow> Inl (Pending, s))"
proof -
  let ?b = "(write_free w b)\<lparr>offset := offset b + length w\<rparr>"
  let ?s = "s\<lparr>buffer := ?b, inner := r\<rparr>"
  have buf: "buffered ?b = buffered (buffer s) @ w" and ok: "buffer_ok ?b"
    using buffered_write_free [OF b(3)] buffer_ok_write_free [OF b(1,3)] b(2) by simp_all
  have "offset b + length w < usize_limit"
    using b(1,3) by (simp add: buffer_ok_def MAX_CAPACITY_def usize_limit_def)
  with b(3) have ext: "extend_used (length w) (write_free w b) = ((Ok (), ?b) :: (unit, 'x io_error) outcome \<times> _)"
    by (simp add: extend_used_eq length_write_free [OF b(3)] min_def)
  have swap: "s\<lparr>inner := r, buffer := ?b\<rparr> = ?s" by simp
  show thesis
  proof (rule that [of ?s])
    show "stream_inv P ?s" using stream_inv_extend [OF inv ok buf] .
    show "stream_bytes unread ?s = stream_bytes unread s" by (simp add: stream_bytes_def buf r)
  qed (use w in \<open>simp_all add: poll_received_def ext swap\<close>)
qed

lemma received_cases:
  assumes inv: "stream_inv (P :: string \<Rightarrow> 'x parse_result) s" and P: "parser_contract P"
    and b: "buffer_ok b" "buffered b = buffered (buffer s)" "offset b + length w \<le> length (block b)"
    and w: "w \<noteq> []" and r: "unread (inner s) = w @ unread r"
  shows "case poll_received P w (s\<lparr>buffer := write_free w b, inner := r\<rparr>) of
      Inl (res, s') \<Rightarrow> poll_result_ok P unread (stream_bytes unread s) res s'
    | Inr s' \<Rightarrow> stream_inv P s' \<and> stream_bytes unread s' = stream_bytes unread s
        \<and> \<not> parses P (buffered (buffer s'))"
proof -
  obtain s1 where s1: "stream_inv P s1" "stream_bytes unread s1 = stream_bytes unread s" "inner s1 = r"
    and run: "poll_received P w (s\<lparr>buffer := write_free w b, inner := r\<rparr>) =
      (case decode P s1 of
         (Ok (Some response), s) \<Rightarrow> Inl (Ok (Some (Inr response)), s)
       | (Ok None, s) \<Rightarrow> Inr s
       | (Err e, s) \<Rightarrow> Inl (Ok (Some (Inl e)), s)
       | (Panic m, s) \<Rightarrow> Inl (Panic m, s)
       | (Pending, s) \<Rightarrow> Inl (Pending, s))"
    by (rule received_decode [OF inv b w r])
  show ?thesis
  proof (cases rule: decode_cases [OF s1(1) P])
    case (1 s')
    with s1(2) show ?thesis by (simp add: run stream_bytes_def)
  next
    case (2 d s')
    from parsed_mono [OF P 2(4), of "unread r"] 2 s1(2,3) show ?thesis
      by (simp add: run poll_result_ok_def stream_bytes_def)
  next
    case (3 x s')
    with s1(2) show ?thesis by (simp add: run poll_result_ok_def stream_bytes_def)
  qed
qed

lemma step_cases:
  assumes inv: "stream_inv P s" and P: "parser_contract P"
  shows "case poll_step P poll_read s of
      Inl (res, s') \<Rightarrow> poll_result_ok P unread (stream_bytes unread s) res s'
    | Inr s' \<Rightarrow> stream_inv P s' \<and> stream_bytes unread s' = stream_bytes unread s
        \<and> \<not> parses P (buffered (buffer s'))"
proof (cases rule: stream_inv_ensure [OF inv])
  case 1
  have "s\<lparr>buffer := buffer s\<rparr> = s" by simp
  with 1 inv show ?thesis by (simp add: poll_step_def poll_result_ok_def)
next
  case (2 b)
  let ?n = "length (block b) - offset b"
  have inv_b: "stream_inv P (s\<lparr>buffer := b, inner := r\<rparr>)" for r
    using stream_inv_extend [OF inv 2(2), of "[]"] 2(3) by simp
  obtain x r where x: "poll_read ?n (inner s) = (x, r)" by fastforce
  show ?thesis
  proof (cases x)
    case (Read w)
    from read_bytes [OF x [unfolded Read]]
    have w: "length w \<le> ?n" "unread (inner s) = w @ unread r" by simp_all
    have step: "poll_step P poll_read s = poll_received P w (s\<lparr>buffer := write_free w b, inner := r\<rparr>)"
      using w(1) x Read by (simp add: poll_step_eq [OF 2(1)])
    show ?thesis
    proof (cases "w = []")
      case True
      have "write_free [] b = b" by (simp add: write_free_def)
      moreover have "used b = 0 \<Longrightarrow> buffered (buffer s) = []"
        unfolding 2(3) [symmetric] by (simp add: used_def buffered_def)
      ultimately show ?thesis
        using True inv_b [of r] w(2) 2
        by (simp add: step poll_received_def poll_result_ok_def stream_bytes_def)
    next
      case False
      have "offset b + length w \<le> length (block b)" using w(1) 2(4) by simp
      from received_cases [OF inv P 2(2,3) this False w(2)] show ?thesis
        by (simp add: step split: sum.splits prod.splits)
    qed
  next
    case (Read_Error e)
    with x read_error [of ?n "inner s" e r] inv_b [of r] 2(3) show ?thesis
      by (simp add: poll_step_eq [OF 2(1)] poll_result_ok_def stream_bytes_def)
  next
    case Read_Pending
    with x read_pending [of ?n "inner s" r] inv_b [of r] 2(3) show ?thesis
      by (simp add: poll_step_eq [OF 2(1)] poll_result_ok_def stream_bytes_def)
  qed
qed

lemma loop_refines:
  assumes "stream_inv P s" and P: "parser_contract P" and "poll_loop P poll_read s = (res, s')"
  shows "poll_result_ok P unread (stream_bytes unread s) res s'"
  using assms(1,3)
proof (induction "headroom s" arbitrary: s rule: less_induct)
  case less
  note step = step_cases [OF less.prems(1) P]
  show ?case
  proof (cases "poll_step P poll_read s")
    case (Inl p)
    with less.prems(2) step show ?thesis by (simp add: poll_loop.simps)
  next
    case (Inr s1)
    with step less.hyps [OF poll_step_headroom [OF Inr]] less.prems(2) show ?thesis
      by (simp add: poll_loop.simps [of P poll_read s])
  qed
qed

text \<open>The refinement: \<open>poll_next\<close> takes the first response from the bytes of the server.\<close>

lemma next_refines:
  assumes inv: "stream_inv P s" and P: "parser_contract P" and run: "poll_next P poll_read s = (res, s')"
  shows "poll_result_ok P unread (stream_bytes unread s) res s'"
proof (cases rule: decode_cases [OF inv P])
  case (1 s1)
  with run loop_refines [OF 1(2) P, of res s'] show ?thesis
    by (simp add: poll_next_def stream_bytes_def)
next
  case (2 d s1)
  from parsed_mono [OF P 2(4), of "unread (inner s)"] 2 run show ?thesis
    by (auto simp: poll_next_def poll_result_ok_def stream_bytes_def)
next
  case (3 x s1)
  with run show ?thesis by (auto simp: poll_next_def poll_result_ok_def stream_bytes_def)
qed

end

section \<open>Progress\<close>

context eager_source
begin

text \<open>
  A round that starts with too little in the buffer, while the bytes of the server begin with a
  response: it ends with a response or goes on, and never gives up.
\<close>

lemma step_progress:
  assumes inv: "stream_inv (P :: string \<Rightarrow> 'x parse_result) s" and P: "parser_contract P"
    and calm: "calm (inner s)" and some: "parses P (stream_bytes unread s)"
    and small: "length (stream_bytes unread s) < MAX_CAPACITY" and none: "\<not> parses P (buffered (buffer s))"
  shows "case poll_step P poll_read s of
      Inl (res, s') \<Rightarrow> (\<exists>d. res = Ok (Some (Inr d))) \<and> calm (inner s')
    | Inr s' \<Rightarrow> calm (inner s')"
proof (cases rule: stream_inv_ensure [OF inv])
  case 1
  have "used (buffer s) + length (unread (inner s)) = length (stream_bytes unread s)"
    using inv length_buffered [of "buffer s"] by (simp add: stream_inv_def stream_bytes_def)
  with 1(2) small have "used (buffer s) + length (unread (inner s)) < decode_needs s" by auto
  with inv have "\<not> parses P (stream_bytes unread s)" by (simp add: stream_inv_def stream_bytes_def)
  with some show ?thesis by simp
next
  case (2 b)
  let ?n = "length (block b) - offset b"
  have "unread (inner s) \<noteq> []" using some none by (auto simp: stream_bytes_def)
  moreover have "0 < ?n" using 2(4) by simp
  ultimately obtain w r where w: "poll_read ?n (inner s) = (Read w, r)" "w \<noteq> []" "calm r"
    using read_progress [OF calm] by blast
  from read_bytes [OF w(1)] have len: "length w \<le> ?n" and r: "unread (inner s) = w @ unread r" by simp_all
  have "offset b + length w \<le> length (block b)" using len 2(4) by simp
  from received_decode [OF inv 2(2,3) this w(2) r]
  obtain s1 where s1: "stream_inv P s1" "stream_bytes unread s1 = stream_bytes unread s" "inner s1 = r"
    and run: "poll_received P w (s\<lparr>buffer := write_free w b, inner := r\<rparr>) =
      (case decode P s1 of
         (Ok (Some response), s) \<Rightarrow> Inl (Ok (Some (Inr response)), s)
       | (Ok None, s) \<Rightarrow> Inr s
       | (Err e, s) \<Rightarrow> Inl (Ok (Some (Inl e)), s)
       | (Panic m, s) \<Rightarrow> Inl (Panic m, s)
       | (Pending, s) \<Rightarrow> Inl (Pending, s))" .
  have step: "poll_step P poll_read s = poll_received P w (s\<lparr>buffer := write_free w b, inner := r\<rparr>)"
    using len w(1) by (simp add: poll_step_eq [OF 2(1)])
  show ?thesis
  proof (cases rule: decode_cases [OF s1(1) P])
    case (1 s')
    with s1(3) w(3) show ?thesis by (simp add: step run)
  next
    case (2 d s')
    with s1(3) w(3) show ?thesis by (simp add: step run)
  next
    case (3 x s')
    from failure_stable [OF P 3(5), of "unread r"] s1(2,3) some show ?thesis
      by (simp add: stream_bytes_def)
  qed
qed

lemma loop_progress:
  assumes "stream_inv (P :: string \<Rightarrow> 'x parse_result) s" and P: "parser_contract P"
    and "calm (inner s)" and "parses P (stream_bytes unread s)"
    and "length (stream_bytes unread s) < MAX_CAPACITY" and "\<not> parses P (buffered (buffer s))"
  shows "\<exists>d s'. poll_loop P poll_read s = (Ok (Some (Inr d)), s') \<and> calm (inner s')"
  using assms(1,3-6)
proof (induction "headroom s" arbitrary: s rule: less_induct)
  case less
  note step = step_progress [OF less.prems(1) P less.prems(2-5)] step_cases [OF less.prems(1) P]
  show ?case
  proof (cases "poll_step P poll_read s")
    case (Inl p)
    with step(1) show ?thesis by (auto simp: poll_loop.simps)
  next
    case (Inr s1)
    with step less.prems have "\<exists>d s'. poll_loop P poll_read s1 = (Ok (Some (Inr d)), s') \<and> calm (inner s')"
      by (intro less.hyps poll_step_headroom [OF Inr]) simp_all
    with Inr show ?thesis by (simp add: poll_loop.simps [of P poll_read s])
  qed
qed

lemma next_progress:
  assumes inv: "stream_inv (P :: string \<Rightarrow> 'x parse_result) s" and P: "parser_contract P"
    and calm: "calm (inner s)" and some: "P (stream_bytes unread s) = Parsed rem r"
    and small: "length (stream_bytes unread s) < MAX_CAPACITY"
  shows "\<exists>d s'. poll_next P poll_read s = (Ok (Some (Inr d)), s') \<and> parsed d = r
     \<and> stream_bytes unread s' = rem \<and> stream_inv P s' \<and> calm (inner s')"
proof -
  have "\<exists>d s'. poll_next P poll_read s = (Ok (Some (Inr d)), s') \<and> calm (inner s')"
  proof (cases rule: decode_cases [OF inv P])
    case (1 s1)
    have "stream_bytes unread s1 = stream_bytes unread s" using 1 by (simp add: stream_bytes_def)
    with 1 calm some small loop_progress [OF 1(2) P] show ?thesis
      by (simp add: poll_next_def parses_def)
  next
    case (2 d s1)
    with calm show ?thesis by (simp add: poll_next_def)
  next
    case (3 x s1)
    from failure_stable [OF P 3(5), of "unread (inner s)"] some show ?thesis
      by (simp add: stream_bytes_def parses_def)
  qed
  then obtain d s' where d: "poll_next P poll_read s = (Ok (Some (Inr d)), s')" "calm (inner s')" by blast
  from next_refines [OF inv P d(1)] some d show ?thesis by (simp add: poll_result_ok_def)
qed

end

text \<open>Several calls of \<open>next().await\<close>, and the same number of responses parsed from a string.\<close>

fun next_responses :: "(string \<Rightarrow> 'x parse_result) \<Rightarrow> (nat \<Rightarrow> 'r \<Rightarrow> 'x read_result \<times> 'r) \<Rightarrow> nat
    \<Rightarrow> 'r imap_stream \<Rightarrow> 'x response list option \<times> 'r imap_stream" where
  "next_responses P poll_read 0 s = (Some [], s)"
| "next_responses P poll_read (Suc n) s =
     (case poll_next P poll_read s of
        (Ok (Some (Inr d)), s') \<Rightarrow>
          (case next_responses P poll_read n s' of
             (Some rs, s'') \<Rightarrow> (Some (parsed d # rs), s'')
           | (None, s'') \<Rightarrow> (None, s''))
      | (_, s') \<Rightarrow> (None, s'))"

fun parse_many :: "(string \<Rightarrow> 'x parse_result) \<Rightarrow> nat \<Rightarrow> string \<Rightarrow> ('x response list \<times> string) option" where
  "parse_many P 0 bytes = Some ([], bytes)"
| "parse_many P (Suc n) bytes =
     (case P bytes of
        Parsed rem r \<Rightarrow> map_option (\<lambda>(rs, rest). (r # rs, rest)) (parse_many P n rem)
      | _ \<Rightarrow> None)"

context eager_source
begin

lemma next_responses_progress:
  assumes P: "parser_contract P"
  shows "stream_inv (P :: string \<Rightarrow> 'x parse_result) s \<Longrightarrow> calm (inner s) \<Longrightarrow>
     length (stream_bytes unread s) < MAX_CAPACITY \<Longrightarrow>
     parse_many P n (stream_bytes unread s) = Some (rs, rest) \<Longrightarrow>
     \<exists>s'. next_responses P poll_read n s = (Some rs, s') \<and> stream_bytes unread s' = rest"
proof (induction n arbitrary: s rs)
  case 0
  then show ?case by simp
next
  case (Suc n)
  obtain rem r rs' where some: "P (stream_bytes unread s) = Parsed rem r"
    and rest: "parse_many P n rem = Some (rs', rest)" and rs: "rs = r # rs'"
    using Suc.prems(4) by (auto split: parse_result.splits)
  obtain p where "stream_bytes unread s = p @ rem" using parsed_consumes [OF P some] by blast
  then have small: "length rem < MAX_CAPACITY" using Suc.prems(3) by simp
  from next_progress [OF Suc.prems(1) P Suc.prems(2) some Suc.prems(3)]
  obtain d s1 where "poll_next P poll_read s = (Ok (Some (Inr d)), s1)" "parsed d = r"
    "stream_bytes unread s1 = rem" "stream_inv P s1" "calm (inner s1)" by blast
  with Suc.IH [of s1 rs'] rest rs small show ?case by auto
qed

end

section \<open>Writing\<close>

text \<open>
  \<open>poll_write\<close> is given the bytes to write and says how many of them the transport took.
  \<open>write\<close> of \<open>AsyncWriteExt\<close> is a single such call, \<open>write_all\<close> calls it until everything is
  taken and fails when the transport takes nothing.
\<close>

datatype 'x write_result = Written nat | Write_Error "'x io_error" | Write_Pending

definition write_once :: "(string \<Rightarrow> 'r \<Rightarrow> 'x write_result \<times> 'r) \<Rightarrow> string \<Rightarrow> 'r \<Rightarrow> (nat, 'x io_error) outcome \<times> 'r" where
  "write_once poll_write buf r =
     (case poll_write buf r of
        (Written n, r') \<Rightarrow> (Ok n, r')
      | (Write_Error e, r') \<Rightarrow> (Err e, r')
      | (Write_Pending, r') \<Rightarrow> (Pending, r'))"

function write_all :: "(string \<Rightarrow> 'r \<Rightarrow> 'x write_result \<times> 'r) \<Rightarrow> string \<Rightarrow> 'r \<Rightarrow> (unit, 'x io_error) outcome \<times> 'r" where
  "write_all poll_write buf r =
     (if buf = [] then (Ok (), r)
      else
        (case poll_write buf r of
           (Written n, r') \<Rightarrow>
             if n = 0 then (Err (Io_Error Kind_WriteZero (Text ''failed to write whole buffer'')), r')
             else write_all poll_write (drop n buf) r'
         | (Write_Error e, r') \<Rightarrow> (Err e, r')
         | (Write_Pending, r') \<Rightarrow> (Pending, r')))"
  by pat_completeness auto
termination
  by (relation "measure (\<lambda>(poll_write, buf, r). length buf)") auto

declare write_all.simps [simp del]

definition encode :: "(string \<Rightarrow> 'r \<Rightarrow> 'x write_result \<times> 'r) \<Rightarrow> request \<Rightarrow> 'r imap_stream
    \<Rightarrow> (unit, 'x io_error) outcome \<times> 'r imap_stream" where
  "encode poll_write msg s =
     (case msg of
        Request tag bytes \<Rightarrow>
          map_prod id (\<lambda>r. s\<lparr>inner := r\<rparr>)
            (bind_out
               (case tag of
                  Some t \<Rightarrow>
                    bind_out (write_all poll_write t (inner s)) (\<lambda>_ r.
                    bind_out (write_once poll_write '' '' r) (\<lambda>_ r. (Ok (), r)))
                | None \<Rightarrow> (Ok (), inner s)) (\<lambda>_ r.
             bind_out (write_all poll_write bytes r) (\<lambda>_ r.
             write_all poll_write [CHR 0x0D, CHR 0x0A] r))))"

definition stream_flush :: "('r \<Rightarrow> (unit, 'x io_error) outcome \<times> 'r) \<Rightarrow> 'r imap_stream
    \<Rightarrow> (unit, 'x io_error) outcome \<times> 'r imap_stream" where
  "stream_flush flush s = map_prod id (\<lambda>r. s\<lparr>inner := r\<rparr>) (flush (inner s))"

definition into_inner :: "'r imap_stream \<Rightarrow> 'r" where
  "into_inner s = inner s"

text \<open>\<open>write_all\<close> and \<open>encode\<close> never panic.\<close>

lemma write_all_no_panic: "\<not> is_panic (fst (write_all poll_write b r))"
proof (induction b arbitrary: r rule: length_induct)
  case (1 b)
  then show ?case
    by (subst write_all.simps) (auto split: prod.split write_result.split)
qed

lemma encode_no_panic: "\<not> is_panic (fst (encode poll_write msg s))"
proof -
  have "\<not> is_panic (fst (write_once poll_write b r))" for b r
    by (simp add: write_once_def split: prod.split write_result.split)
  then show ?thesis
    by (cases msg) (auto simp: encode_def write_all_no_panic is_panic_bind_out_iff split: option.split)
qed

text \<open>The bytes of a request on the wire.\<close>

definition request_bytes :: "request \<Rightarrow> string" where
  "request_bytes msg =
     (case msg of
        Request tag bytes \<Rightarrow>
          (case tag of Some t \<Rightarrow> t @ '' '' | None \<Rightarrow> []) @ bytes @ [CHR 0x0D, CHR 0x0A])"

text \<open>A transport that reports truthfully how many bytes it took, and one that takes some.\<close>

locale byte_sink =
  fixes poll_write :: "string \<Rightarrow> 'r \<Rightarrow> 'x write_result \<times> 'r"
    and written :: "'r \<Rightarrow> string"
  assumes write_some: "poll_write b r = (Written n, r') \<Longrightarrow> n \<le> length b \<and> written r' = written r @ take n b"
    and write_error: "poll_write b r = (Write_Error e, r') \<Longrightarrow> written r' = written r"
    and write_pending: "poll_write b r = (Write_Pending, r') \<Longrightarrow> written r' = written r"
begin

lemma write_all_written:
  assumes "write_all poll_write b r = (res, r')"
  shows "\<exists>k. written r' = written r @ take k b \<and> (res = Ok () \<longrightarrow> length b \<le> k)"
  using assms
proof (induction b arbitrary: r rule: length_induct)
  case (1 b)
  note run = "1.prems" [unfolded write_all.simps [of poll_write b r]]
  show ?case
  proof (cases "b = []")
    case True
    with run show ?thesis by auto
  next
    case False
    obtain x r1 where x: "poll_write b r = (x, r1)" by fastforce
    show ?thesis
    proof (cases x)
      case (Written n)
      with x write_some have n: "n \<le> length b" "written r1 = written r @ take n b" by auto
      show ?thesis
      proof (cases "n = 0")
        case True
        with run False x Written n show ?thesis by (intro exI [of _ 0]) auto
      next
        case pos: False
        with run False x Written have "write_all poll_write (drop n b) r1 = (res, r')" by simp
        moreover have "length (drop n b) < length b" using pos False by simp
        ultimately obtain k where "written r' = written r1 @ take k (drop n b)"
          "res = Ok () \<longrightarrow> length (drop n b) \<le> k"
          using "1.IH" by blast
        with n show ?thesis
          by (intro exI [of _ "n + k"]) (auto simp: take_add)
      qed
    next
      case (Write_Error e)
      with run False x write_error [of b r e r1] show ?thesis by (intro exI [of _ 0]) auto
    next
      case Write_Pending
      with run False x write_pending [of b r r1] show ?thesis by (intro exI [of _ 0]) auto
    qed
  qed
qed

end

text \<open>Bytes that were written one after the other, until a write failed.\<close>

locale live_sink = byte_sink poll_write written
  for poll_write :: "string \<Rightarrow> 'r \<Rightarrow> 'x write_result \<times> 'r" and written :: "'r \<Rightarrow> string" +
  assumes write_progress: "b \<noteq> [] \<Longrightarrow> fst (poll_write b r) \<noteq> Written 0"
begin

lemma write_space:
  assumes "write_once poll_write '' '' r = (res, r')"
  shows "\<exists>k. written r' = written r @ take k '' '' \<and> ((\<exists>n. res = Ok n) \<longrightarrow> length '' '' \<le> k)"
proof -
  obtain x r1 where x: "poll_write '' '' r = (x, r1)" by fastforce
  show ?thesis
  proof (cases x)
    case (Written n)
    with x write_progress [of "'' ''" r] write_some [of "'' ''" r n r1] assms show ?thesis
      by (intro exI [of _ 1]) (auto simp: write_once_def)
  next
    case (Write_Error e)
    with x write_error [of "'' ''" r e r1] assms show ?thesis
      by (intro exI [of _ 0]) (auto simp: write_once_def)
  next
    case Write_Pending
    with x write_pending [of "'' ''" r r1] assms show ?thesis
      by (intro exI [of _ 0]) (auto simp: write_once_def)
  qed
qed

text \<open>Two writers, each of which writes a prefix of its bytes and all of them if it succeeds.\<close>

lemma seq_written:
  assumes "\<exists>k. written (snd p) = written r @ take k a \<and> ((\<exists>x. fst p = Ok x) \<longrightarrow> length a \<le> k)"
    and "\<And>x. fst p = Ok x \<Longrightarrow>
       \<exists>k. written (snd (f x (snd p))) = written (snd p) @ take k b \<and> ((\<exists>y. fst (f x (snd p)) = Ok y) \<longrightarrow> length b \<le> k)"
  shows "\<exists>k. written (snd (bind_out p f)) = written r @ take k (a @ b)
     \<and> ((\<exists>y. fst (bind_out p f) = Ok y) \<longrightarrow> length (a @ b) \<le> k)"
proof (cases "\<exists>x. fst p = Ok x")
  case True
  then obtain x where x: "fst p = Ok x" by blast
  with assms(1) have a: "written (snd p) = written r @ a" by auto
  obtain k where k: "written (snd (f x (snd p))) = written (snd p) @ take k b"
    "(\<exists>y. fst (f x (snd p)) = Ok y) \<longrightarrow> length b \<le> k" using assms(2) [OF x] by blast
  have "bind_out p f = f x (snd p)" using x by (cases p) simp
  with a k show ?thesis by (intro exI [of _ "length a + k"]) simp
next
  case False
  then obtain k where k: "written (snd p) = written r @ take k a" using assms(1) by blast
  obtain y where y: "bind_out p f = (y, snd p)" "\<forall>b. y \<noteq> Ok b"
    using bind_out_fst_not_Ok [of p f] False by blast
  from k y show ?thesis
    by (intro exI [of _ "min k (length a)"]) (cases "k \<le> length a"; simp add: min_def)
qed

lemma encode_written:
  assumes "encode poll_write msg s = (res, s')"
  shows "\<exists>k. written (inner s') = written (inner s) @ take k (request_bytes msg)
     \<and> (res = Ok () \<longrightarrow> length (request_bytes msg) \<le> k)"
proof -
  obtain tag bytes where msg: "msg = Request tag bytes" by (cases msg)
  let ?tag = "case tag of Some t \<Rightarrow> t @ '' '' | None \<Rightarrow> []"
  let ?wt = "case tag of
      Some t \<Rightarrow> bind_out (write_all poll_write t (inner s)) (\<lambda>_ r.
        bind_out (write_once poll_write '' '' r) (\<lambda>_ r. (Ok (), r)))
    | None \<Rightarrow> (Ok (), inner s)"
  let ?wb = "\<lambda>_ r. bind_out (write_all poll_write bytes r) (\<lambda>_ r. write_all poll_write [CHR 0x0D, CHR 0x0A] r)"
  have all: "\<exists>k. written (snd (write_all poll_write b r)) = written r @ take k b
      \<and> ((\<exists>x. fst (write_all poll_write b r) = Ok x) \<longrightarrow> length b \<le> k)" for b r
    using write_all_written [of b r "fst (write_all poll_write b r)" "snd (write_all poll_write b r)"] by auto
  have space: "\<exists>k. written (snd (write_once poll_write '' '' r)) = written r @ take k '' ''
      \<and> ((\<exists>x. fst (write_once poll_write '' '' r) = Ok x) \<longrightarrow> length '' '' \<le> k)" for r
    using write_space [of r "fst (write_once poll_write '' '' r)" "snd (write_once poll_write '' '' r)"] by simp
  have drop: "\<exists>k. written (snd (bind_out (write_once poll_write '' '' r) (\<lambda>_ r. (Ok (), r)))) = written r @ take k ('' '' @ [])
      \<and> ((\<exists>x. fst (bind_out (write_once poll_write '' '' r) (\<lambda>_ r. (Ok (), r))) = Ok x) \<longrightarrow> length ('' '' @ []) \<le> k)" for r
    by (rule seq_written [OF space]) simp
  have wt: "\<exists>k. written (snd ?wt) = written (inner s) @ take k ?tag \<and> ((\<exists>x. fst ?wt = Ok x) \<longrightarrow> length ?tag \<le> k)"
  proof (cases tag)
    case (Some t)
    have "\<exists>k. written (snd ?wt) = written (inner s) @ take k (t @ '' '')
        \<and> ((\<exists>x. fst ?wt = Ok x) \<longrightarrow> length (t @ '' '') \<le> k)"
      unfolding Some option.case by (rule seq_written, rule all) (use drop in simp)
    with Some show ?thesis by simp
  qed simp
  have wb: "\<exists>k. written (snd (?wb x r)) = written r @ take k (bytes @ [CHR 0x0D, CHR 0x0A])
      \<and> ((\<exists>y. fst (?wb x r) = Ok y) \<longrightarrow> length (bytes @ [CHR 0x0D, CHR 0x0A]) \<le> k)" for x r
    by (rule seq_written; rule all)
  have "\<exists>k. written (snd (bind_out ?wt ?wb)) = written (inner s) @ take k (?tag @ bytes @ [CHR 0x0D, CHR 0x0A])
      \<and> ((\<exists>y. fst (bind_out ?wt ?wb) = Ok y) \<longrightarrow> length (?tag @ bytes @ [CHR 0x0D, CHR 0x0A]) \<le> k)"
    by (rule seq_written, rule wt) (rule wb)
  moreover have "?tag @ bytes @ [CHR 0x0D, CHR 0x0A] = request_bytes msg"
    by (simp add: request_bytes_def msg)
  moreover have "encode poll_write msg s = map_prod id (\<lambda>r. s\<lparr>inner := r\<rparr>) (bind_out ?wt ?wb)"
    by (simp add: encode_def msg)
  then have "fst (bind_out ?wt ?wb) = res \<and> inner s' = snd (bind_out ?wt ?wb)"
    using assms by (cases "bind_out ?wt ?wb") auto
  ultimately show ?thesis by simp
qed

end

end
