(* ===== verification/Mock_Stream.thy ===== *)
theory Mock_Stream
  imports Imap_Stream
begin

text \<open>
  \<open>MockStream\<close> of \<open>src/mock_stream.rs\<close>, the transport of the crate's tests: it delivers a fixed
  string and records what is written.  It is shown to keep the laws of the transport interfaces,
  and the properties of \<open>ImapStream\<close> are stated here, where they can be run on it.
\<close>

section \<open>The transport\<close>

record mock_stream =
  mock_buf :: string
  read_pos :: nat
  written_buf :: string
  err_on_read :: bool
  eof_on_read :: bool
  read_delay :: nat

definition MockStream_default :: mock_stream where
  "MockStream_default =
     \<lparr>mock_buf = [], read_pos = 0, written_buf = [], err_on_read = False, eof_on_read = False, read_delay = 0\<rparr>"

definition with_buf :: "string \<Rightarrow> mock_stream \<Rightarrow> mock_stream" where
  "with_buf buf m = m\<lparr>mock_buf := buf\<rparr>"

definition MockStream_new :: "string \<Rightarrow> mock_stream" where
  "MockStream_new buf = with_buf buf MockStream_default"

definition with_eof :: "mock_stream \<Rightarrow> mock_stream" where
  "with_eof m = m\<lparr>eof_on_read := True\<rparr>"

definition with_err :: "mock_stream \<Rightarrow> mock_stream" where
  "with_err m = m\<lparr>err_on_read := True\<rparr>"

definition with_delay :: "mock_stream \<Rightarrow> mock_stream" where
  "with_delay m = m\<lparr>read_delay := 1\<rparr>"

definition mock_poll_read :: "nat \<Rightarrow> mock_stream \<Rightarrow> 'x read_result \<times> mock_stream" where
  "mock_poll_read buf_len m =
     (if eof_on_read m then (Read [], m)
      else if err_on_read m then (Read_Error (Io_Error Kind_Other (Text ''MockStream Error'')), m)
      else if read_pos m \<ge> length (mock_buf m) then (Read_Error (Io_Error Kind_UnexpectedEof (Text ''EOF'')), m)
      else
        (let len = min buf_len (length (mock_buf m) - read_pos m);
             (write_len, delay) = (if read_delay m > 0 then (min len 1, read_delay m - 1) else (len, read_delay m))
         in (Read (take write_len (drop (read_pos m) (mock_buf m))),
             m\<lparr>read_pos := read_pos m + write_len, read_delay := delay\<rparr>)))"

text \<open>
  With the \<open>tokio\<close> runtime \<open>poll_read\<close> appends to a \<open>ReadBuf\<close>, a buffer with a capacity and a
  filled part; \<open>poll_next\<close> then takes what was added as the bytes that were read.
\<close>

record read_buf =
  rb_capacity :: nat
  rb_filled :: string

definition rb_remaining :: "read_buf \<Rightarrow> nat" where
  "rb_remaining buf = rb_capacity buf - length (rb_filled buf)"

definition put_slice :: "string \<Rightarrow> read_buf \<Rightarrow> (unit, 'e) outcome \<times> read_buf" where
  "put_slice w buf =
     (if length w \<le> rb_remaining buf then (Ok (), buf\<lparr>rb_filled := rb_filled buf @ w\<rparr>)
      else (Panic ''buf.len() must fit in remaining()'', buf))"

definition mock_poll_read_tokio :: "read_buf \<Rightarrow> mock_stream \<Rightarrow> (unit, 'x io_error) outcome \<times> read_buf \<times> mock_stream" where
  "mock_poll_read_tokio buf m =
     (if eof_on_read m then (Ok (), buf, m)
      else if err_on_read m then (Err (Io_Error Kind_Other (Text ''MockStream Error'')), buf, m)
      else if read_pos m \<ge> length (mock_buf m) then (Err (Io_Error Kind_UnexpectedEof (Text ''EOF'')), buf, m)
      else
        (let len = min (rb_remaining buf) (length (mock_buf m) - read_pos m);
             (write_len, delay) = (if read_delay m > 0 then (min len 1, read_delay m - 1) else (len, read_delay m))
         in case put_slice (take write_len (drop (read_pos m) (mock_buf m))) buf of
              (r, buf') \<Rightarrow> (r, buf', m\<lparr>read_pos := read_pos m + write_len, read_delay := delay\<rparr>)))"

text \<open>The \<open>tokio\<close> branch of \<open>poll_next\<close>, for a slice of the given length.\<close>

definition tokio_read :: "(read_buf \<Rightarrow> 'r \<Rightarrow> (unit, 'x io_error) outcome \<times> read_buf \<times> 'r) \<Rightarrow> nat \<Rightarrow> 'r
    \<Rightarrow> ('x read_result, 'x io_error) outcome \<times> 'r" where
  "tokio_read poll_read n r =
     (let start = length (rb_filled \<lparr>rb_capacity = n, rb_filled = []\<rparr>) in
      case poll_read \<lparr>rb_capacity = n, rb_filled = []\<rparr> r of
        (Ok _, buf, r') \<Rightarrow> (Ok (Read (drop start (rb_filled buf))), r')
      | (Err e, buf, r') \<Rightarrow> (Ok (Read_Error e), r')
      | (Panic m, buf, r') \<Rightarrow> (Panic m, r')
      | (Pending, buf, r') \<Rightarrow> (Ok Read_Pending, r'))"

text \<open>
  The mock transport behaves the same under both runtimes: what \<open>poll_next\<close> makes of a read
  with \<open>tokio\<close>'s interface is, for every length of the slice and every state, the read with
  \<open>async-std\<close>'s, and \<open>put_slice\<close> never panics.
\<close>

theorem mock_runtimes_agree:
  "tokio_read mock_poll_read_tokio n m = (map_prod Ok id (mock_poll_read n m) ::
     ('x read_result, 'x io_error) outcome \<times> mock_stream)"
  by (auto simp: tokio_read_def mock_poll_read_tokio_def mock_poll_read_def put_slice_def rb_remaining_def Let_def)

definition mock_poll_write :: "string \<Rightarrow> mock_stream \<Rightarrow> 'x write_result \<times> mock_stream" where
  "mock_poll_write buf m = (Written (length buf), m\<lparr>written_buf := written_buf m @ buf\<rparr>)"

definition mock_poll_flush :: "mock_stream \<Rightarrow> (unit, 'x io_error) outcome \<times> mock_stream" where
  "mock_poll_flush m = (Ok (), m)"

section \<open>It keeps the laws of a transport\<close>

definition mock_unread :: "mock_stream \<Rightarrow> string" where
  "mock_unread m = drop (read_pos m) (mock_buf m)"

definition mock_calm :: "mock_stream \<Rightarrow> bool" where
  "mock_calm m \<longleftrightarrow> \<not> eof_on_read m \<and> \<not> err_on_read m"

lemma mock_read_bytes:
  assumes "mock_poll_read n m = (Read w, m')"
  shows "length w \<le> n \<and> mock_unread m = w @ mock_unread m'"
proof -
  have "take k (drop p s) @ drop (p + k) s = drop p s" for k p and s :: string
    by (metis add.commute append_take_drop_id drop_drop)
  with assms show ?thesis
    by (auto simp: mock_poll_read_def mock_unread_def Let_def split: if_splits)
qed

lemma mock_read_other:
  assumes "mock_poll_read n m = (res, m')" and "\<And>w. res \<noteq> Read w"
  shows "mock_unread m' = mock_unread m"
  using assms by (auto simp: mock_poll_read_def Let_def split: if_splits)

interpretation mock_source: byte_source mock_poll_read mock_unread
  by unfold_locales (erule mock_read_bytes, (erule mock_read_other, simp)+)

lemma mock_progress:
  assumes "mock_calm m" and "mock_unread m \<noteq> []" and "0 < n"
  shows "\<exists>w m'. mock_poll_read n m = (Read w, m') \<and> w \<noteq> [] \<and> mock_calm m'"
  using assms by (auto simp: mock_poll_read_def mock_unread_def mock_calm_def Let_def)

interpretation mock_eager: eager_source mock_poll_read mock_unread mock_calm
  by unfold_locales (rule mock_progress)

interpretation mock_sink: live_sink mock_poll_write written_buf
  by unfold_locales (auto simp: mock_poll_write_def)

section \<open>A parser for concrete runs\<close>

text \<open>
  Lines ended by a line feed; a line that begins with \<open>!\<close> cannot be parsed.  It keeps the contract
  of a streaming parser, so the properties below can be run on concrete bytes.
\<close>

definition line_parser :: "string \<Rightarrow> nat parse_result" where
  "line_parser s =
     (case s of
        [] \<Rightarrow> Incomplete_Unknown
      | c # _ \<Rightarrow>
          if c = CHR ''!'' then Parse_Failure 0
          else if CHR 0x0A \<in> set s
          then Parsed (tl (dropWhile (\<lambda>c. c \<noteq> CHR 0x0A) s)) (R_Other (length (takeWhile (\<lambda>c. c \<noteq> CHR 0x0A) s)))
          else Incomplete_Size 1)"

lemma line_parser_Parsed:
  "line_parser s = Parsed rem r \<longleftrightarrow>
     s \<noteq> [] \<and> hd s \<noteq> CHR ''!'' \<and> CHR 0x0A \<in> set s
     \<and> rem = tl (dropWhile (\<lambda>c. c \<noteq> CHR 0x0A) s) \<and> r = R_Other (length (takeWhile (\<lambda>c. c \<noteq> CHR 0x0A) s))"
  by (cases s) (auto simp: line_parser_def)

lemma line_parser_parses:
  "parses line_parser s \<longleftrightarrow> s \<noteq> [] \<and> hd s \<noteq> CHR ''!'' \<and> CHR 0x0A \<in> set s"
  by (cases s) (auto simp: line_parser_def parses_def)

lemma line_parser_contract: "parser_contract line_parser"
  unfolding parser_contract_def
proof (intro conjI allI impI)
  fix s rem r
  assume "line_parser s = Parsed rem r"
  then have s: "CHR 0x0A \<in> set s" and rem: "rem = tl (dropWhile (\<lambda>c. c \<noteq> CHR 0x0A) s)"
    by (auto simp: line_parser_Parsed)
  let ?d = "dropWhile (\<lambda>c. c \<noteq> CHR 0x0A) s"
  have "?d \<noteq> []" using s by (auto simp: dropWhile_eq_Nil_conv)
  then have "s = (takeWhile (\<lambda>c. c \<noteq> CHR 0x0A) s @ [hd ?d]) @ rem" by (simp add: rem)
  then show "\<exists>p. p \<noteq> [] \<and> s = p @ rem" by (metis Nil_is_append_conv not_Cons_self2)
next
  fix s rem r t
  assume "line_parser s = Parsed rem r"
  then have s: "s \<noteq> []" "hd s \<noteq> CHR ''!''" "CHR 0x0A \<in> set s"
    and rem: "rem = tl (dropWhile (\<lambda>c. c \<noteq> CHR 0x0A) s)" "r = R_Other (length (takeWhile (\<lambda>c. c \<noteq> CHR 0x0A) s))"
    by (auto simp: line_parser_Parsed)
  have "dropWhile (\<lambda>c. c \<noteq> CHR 0x0A) s \<noteq> []" using s(3) by (auto simp: dropWhile_eq_Nil_conv)
  with s rem show "line_parser (s @ t) = Parsed (rem @ t) r"
    by (auto simp: line_parser_Parsed dropWhile_append1 takeWhile_append1)
next
  fix s x t
  assume "line_parser s = Parse_Failure x"
  then show "\<not> parses line_parser (s @ t)"
    by (auto simp: line_parser_parses line_parser_def split: list.splits if_splits)
next
  fix s n
  assume "line_parser s = Incomplete_Size n"
  then show "n \<le> 2 ^ 32" by (auto simp: line_parser_def split: list.splits if_splits)
next
  fix s n and t :: string
  assume "line_parser s = Incomplete_Size n" and "length t < n"
  then show "\<not> parses line_parser (s @ t)"
    by (auto simp: line_parser_parses line_parser_def split: list.splits if_splits)
qed

section \<open>Properties of the stream\<close>

text \<open>
  C1: for every transport that reports its bytes truthfully and every streaming parser, one
  \<open>poll_next\<close> keeps the invariant of the stream, never panics, and loses no byte: a response it
  returns is the first response in the bytes of the server, and exactly the bytes behind it
  remain; with an error, at the end of the stream and while it waits, all bytes remain, and the
  stream ends only when no byte is left in the buffer.
\<close>

theorem poll_next_refines:
  assumes "byte_source poll_read unread" and "parser_contract P" and "stream_inv P s"
    and "poll_next P poll_read s = (res, s')"
  shows "stream_inv P s' \<and> \<not> is_panic res
   \<and> (case res of
        Ok (Some (Inr d)) \<Rightarrow> P (stream_bytes unread s) = Parsed (stream_bytes unread s') (parsed d)
      | Ok None \<Rightarrow> stream_bytes unread s' = stream_bytes unread s \<and> buffered (buffer s') = []
      | _ \<Rightarrow> stream_bytes unread s' = stream_bytes unread s)"
  using byte_source.next_refines [OF assms(1,3,2,4)]
  by (auto simp: poll_result_ok_def split: outcome.splits option.splits sum.splits)

theorem poll_next_refines_witness:
  "case poll_next line_parser mock_poll_read (ImapStream_new (MockStream_new [CHR ''a'', CHR 0x0A, CHR ''b''])) of
     (res, s') \<Rightarrow> stream_inv line_parser s' \<and> \<not> is_panic res"
proof -
  obtain res s' where run: "poll_next line_parser mock_poll_read
      (ImapStream_new (MockStream_new [CHR ''a'', CHR 0x0A, CHR ''b''])) = (res, s')" by fastforce
  show ?thesis
    using poll_next_refines [OF mock_source.byte_source_axioms line_parser_contract stream_inv_new run]
    by (simp add: run)
qed

text \<open>
  C2: how the bytes of the server are cut into reads does not matter.  From a transport that
  delivers some bytes as long as there are any, a new stream yields exactly the responses that
  parsing the whole string of bytes gives, in order, and what is left is what the parser left:
  no hint about missing bytes makes it wait or fail, as long as less than the maximal capacity
  is outstanding.
\<close>

theorem responses_independent_of_chunks:
  assumes "eager_source poll_read unread calm" and "parser_contract P" and "calm r"
    and "length (unread r) < MAX_CAPACITY" and "parse_many P n (unread r) = Some (rs, rest)"
  shows "\<exists>s'. next_responses P poll_read n (ImapStream_new r) = (Some rs, s') \<and> stream_bytes unread s' = rest"
proof -
  have "stream_bytes unread (ImapStream_new r) = unread r" and "inner (ImapStream_new r) = r"
    by (simp_all add: stream_bytes_def ImapStream_new_def)
  with eager_source.next_responses_progress [OF assms(1,2) stream_inv_new, of r n rs rest] assms(3-5)
  show ?thesis by simp
qed

theorem responses_independent_of_chunks_witness:
  "\<exists>s'. next_responses line_parser mock_poll_read 2
      (ImapStream_new (with_delay (MockStream_new [CHR ''a'', CHR 0x0A, CHR ''b'', CHR ''c'', CHR 0x0A, CHR ''d'']))) =
     (Some [R_Other 1, R_Other 2], s') \<and> stream_bytes mock_unread s' = ''d''"
proof -
  let ?m = "with_delay (MockStream_new [CHR ''a'', CHR 0x0A, CHR ''b'', CHR ''c'', CHR 0x0A, CHR ''d''])"
  have m: "mock_unread ?m = [CHR ''a'', CHR 0x0A, CHR ''b'', CHR ''c'', CHR 0x0A, CHR ''d'']" "mock_calm ?m"
    by (simp_all add: mock_unread_def mock_calm_def with_delay_def MockStream_new_def with_buf_def MockStream_default_def)
  have "parse_many line_parser 2 (mock_unread ?m) = Some ([R_Other 1, R_Other 2], ''d'')"
    by (simp add: m(1) numeral_2_eq_2 line_parser_def)
  moreover have "length (mock_unread ?m) < MAX_CAPACITY" by (simp add: m(1) MAX_CAPACITY_def)
  ultimately show ?thesis
    using responses_independent_of_chunks [OF mock_eager.eager_source_axioms line_parser_contract, of ?m 2]
    by (simp only: m(2) simp_thms)
qed

text \<open>
  C36: a parse failure is final.  When the buffered bytes cannot be parsed, \<open>poll_next\<close> returns the
  failure without reading, keeps the bytes, and returns the same failure at every further call,
  whatever the transport would deliver.
\<close>

theorem parse_failure_sticky:
  assumes "parser_contract P" and "stream_inv P s" and "decode_needs s \<le> used (buffer s)"
    and "P (buffered (buffer s)) = Parse_Failure x"
  shows "\<exists>s'. poll_next P poll_read s =
           (Ok (Some (Inl (Io_Error Kind_Other (Parse_Debug x (buffered (buffer s)))))), s')
     \<and> inner s' = inner s
     \<and> poll_next P poll_read s' =
           (Ok (Some (Inl (Io_Error Kind_Other (Parse_Debug x (buffered (buffer s)))))), s')"
proof -
  have ok: "buffer_ok (buffer s)" using assms(2) by (simp add: stream_inv_def)
  let ?s = "s\<lparr>decode_needs := 0\<rparr>"
  have "decode P s = (Err (Io_Error Kind_Other (Parse_Debug x (buffered (buffer s)))), ?s)"
    using assms by (simp add: decode_eq [OF ok])
  moreover have "decode P ?s = (Err (Io_Error Kind_Other (Parse_Debug x (buffered (buffer s)))), ?s)"
    using assms ok by (simp add: decode_eq)
  ultimately show ?thesis by (intro exI [of _ ?s]) (simp add: poll_next_def)
qed

theorem parse_failure_sticky_witness:
  "\<exists>s'. poll_next line_parser mock_poll_read
        ((ImapStream_new (MockStream_new ''ok''))\<lparr>buffer := reset_with_data ''!x'' Buffer_new\<rparr>) =
      (Ok (Some (Inl (Io_Error Kind_Other (Parse_Debug 0 ''!x'')))), s')
    \<and> poll_next line_parser mock_poll_read s' = (Ok (Some (Inl (Io_Error Kind_Other (Parse_Debug 0 ''!x'')))), s')"
proof -
  let ?s = "(ImapStream_new (MockStream_new ''ok''))\<lparr>buffer := reset_with_data ''!x'' Buffer_new\<rparr>"
  have b: "buffer_ok (buffer ?s)" "buffered (buffer ?s) = ''!x''"
    using reset_with_data_facts [of "''!x''" Buffer_new] by (simp_all add: MAX_CAPACITY_def)
  then have "stream_inv line_parser ?s" by (simp add: stream_inv_def ImapStream_new_def)
  from parse_failure_sticky [OF line_parser_contract this, of 0 mock_poll_read] b show ?thesis
    by (auto simp: ImapStream_new_def line_parser_def)
qed

text \<open>
  C17: \<open>encode\<close> writes a prefix of tag, space, command and line end, never anything else, and all of
  it when it succeeds, on every transport that reports truthfully how much it took and takes at
  least a byte of every non-empty write.
\<close>

theorem encode_exact:
  assumes "live_sink poll_write written" and "encode poll_write msg s = (res, s')"
  shows "(\<exists>k. written (inner s') = written (inner s) @ take k (request_bytes msg))
     \<and> (res = Ok () \<longrightarrow> written (inner s') = written (inner s) @ request_bytes msg)"
  using live_sink.encode_written [OF assms] by auto

theorem encode_exact_witness:
  "case encode mock_poll_write (Request (Some ''A0001'') ''NOOP'') (ImapStream_new (MockStream_new [])) of
     (res, s') \<Rightarrow> res = (Ok () :: (unit, nat io_error) outcome)
       \<and> written_buf (inner s') = ''A0001 NOOP'' @ [CHR 0x0D, CHR 0x0A]"
proof -
  obtain res :: "(unit, nat io_error) outcome" and s' where
    run: "encode mock_poll_write (Request (Some ''A0001'') ''NOOP'') (ImapStream_new (MockStream_new [])) = (res, s')"
    by fastforce
  moreover from this have "res = Ok ()"
    by (auto simp: encode_def write_all.simps write_once_def mock_poll_write_def)
  ultimately show ?thesis
    using encode_exact [OF mock_sink.live_sink_axioms run]
    by (simp add: request_bytes_def ImapStream_new_def MockStream_new_def with_buf_def MockStream_default_def)
qed

text \<open>
  The space behind the tag is written with a single \<open>write\<close> whose result is not looked at: a
  transport that takes nothing at that moment loses it, and \<open>encode\<close> reports success.
\<close>

definition stalling_write :: "string \<Rightarrow> nat \<times> string \<Rightarrow> nat write_result \<times> nat \<times> string" where
  "stalling_write buf s =
     (if fst s = 1 then (Written 0, fst s + 1, snd s) else (Written (length buf), fst s + 1, snd s @ buf))"

interpretation stalling_sink: byte_sink stalling_write snd
  by unfold_locales (auto simp: stalling_write_def split: if_splits)

lemma encode_loses_space:
  "encode stalling_write (Request (Some ''A0001'') ''NOOP'') (ImapStream_new (0, [])) =
     (Ok (), (ImapStream_new (4, ''A0001NOOP'' @ [CHR 0x0D, CHR 0x0A])))"
  by (simp add: encode_def write_all.simps write_once_def stalling_write_def ImapStream_new_def)

end
