(* ===== verification/Commands.thy ===== *)
theory Commands
  imports Imap_Types
begin

text \<open>
  How arguments are put into command lines: \<open>quote!\<close> and \<open>validate_str\<close> of \<open>src/client.rs\<close>,
  \<open>escape\<close> and \<open>format_identification\<close> of \<open>src/extensions/id.rs\<close>, and a reader of quoted strings
  as RFC 3501 describes them, against which they are checked.
\<close>

section \<open>Quoting\<close>

abbreviation dquote :: char where
  "dquote \<equiv> CHR 0x22"

abbreviation bslash :: char where
  "bslash \<equiv> CHR 0x5C"

abbreviation LF :: char where
  "LF \<equiv> CHR 0x0A"

abbreviation CR :: char where
  "CR \<equiv> CHR 0x0D"

definition quote :: "string \<Rightarrow> string" where
  "quote x = [dquote] @ replace_char dquote [bslash, dquote] (replace_char bslash [bslash, bslash] x) @ [dquote]"

definition validate_str :: "string \<Rightarrow> (string, 'x error) outcome" where
  "validate_str value =
     (let quoted = quote value in
      if LF \<in> set quoted then Err (Validate LF)
      else if CR \<in> set quoted then Err (Validate CR)
      else Ok quoted)"

definition escape :: "string \<Rightarrow> string" where
  "escape s = replace_char dquote [bslash, dquote] (replace_char bslash [bslash, bslash] s)"

definition format_pair :: "string \<times> string option \<Rightarrow> string" where
  "format_pair kv =
     (case kv of (k, v) \<Rightarrow>
        [dquote] @ escape k @ [dquote] @ '' ''
        @ (case v of None \<Rightarrow> ''NIL'' | Some v \<Rightarrow> [dquote] @ escape v @ [dquote]))"

text \<open>\<open>join(" ")\<close>.\<close>

fun join_space :: "string list \<Rightarrow> string" where
  "join_space [] = []"
| "join_space [s] = s"
| "join_space (s # ss) = s @ '' '' @ join_space ss"

definition format_identification :: "(string \<times> string option) list \<Rightarrow> string" where
  "format_identification ps = join_space (map format_pair ps)"

section \<open>Reading quoted strings\<close>

text \<open>
  Behind an opening quote: a backslash takes the next character, which has to be a quote or a
  backslash, and a quote ends the string.  The result is the string with the rest of the input.
\<close>

fun read_quoted_body :: "string \<Rightarrow> (string \<times> string) option" where
  "read_quoted_body [] = None"
| "read_quoted_body (c # s) =
     (if c = dquote then Some ([], s)
      else if c = bslash then
        (case s of
           [] \<Rightarrow> None
         | d # s' \<Rightarrow>
             if d = dquote \<or> d = bslash
             then map_option (\<lambda>(v, rest). (d # v, rest)) (read_quoted_body s') else None)
      else if c = CR \<or> c = LF then None
      else map_option (\<lambda>(v, rest). (c # v, rest)) (read_quoted_body s))"

definition read_quoted :: "string \<Rightarrow> (string \<times> string) option" where
  "read_quoted s = (case s of c # s' \<Rightarrow> if c = dquote then read_quoted_body s' else None | [] \<Rightarrow> None)"

definition read_nstring :: "string \<Rightarrow> (string option \<times> string) option" where
  "read_nstring s =
     (if take 3 s = ''NIL'' then Some (None, drop 3 s)
      else map_option (\<lambda>(v, rest). (Some v, rest)) (read_quoted s))"

definition read_space :: "string \<Rightarrow> string option" where
  "read_space s = (case s of c # s' \<Rightarrow> if c = CHR '' '' then Some s' else None | [] \<Rightarrow> None)"

definition read_pair :: "string \<Rightarrow> ((string \<times> string option) \<times> string) option" where
  "read_pair s =
     Option.bind (read_quoted s) (\<lambda>(k, s1).
     Option.bind (read_space s1) (\<lambda>s2.
     Option.bind (read_nstring s2) (\<lambda>(v, s3). Some ((k, v), s3))))"

text \<open>\<open>n\<close> pairs with spaces between them, and nothing behind them.\<close>

fun read_pairs :: "nat \<Rightarrow> string \<Rightarrow> (string \<times> string option) list option" where
  "read_pairs 0 s = (if s = [] then Some [] else None)"
| "read_pairs (Suc n) s =
     Option.bind (read_pair s) (\<lambda>(p, s').
       if n = 0 then (if s' = [] then Some [p] else None)
       else Option.bind (read_space s') (\<lambda>s''. map_option ((#) p) (read_pairs n s'')))"

section \<open>Properties\<close>

lemma quote_escape: "quote x = [dquote] @ escape x @ [dquote]"
  by (simp add: quote_def escape_def)

lemma escape_Nil [simp]: "escape [] = []"
  by (simp add: escape_def)

lemma replace_char_append: "replace_char x r (s @ t) = replace_char x r s @ replace_char x r t"
  by (simp add: replace_char_def)

lemma escape_Cons [simp]:
  "escape (c # s) =
     (if c = bslash then [bslash, bslash] else if c = dquote then [bslash, dquote] else [c]) @ escape s"
  by (simp add: escape_def replace_char_append)

lemma set_quote: "LF \<in> set (quote v) \<longleftrightarrow> LF \<in> set v" "CR \<in> set (quote v) \<longleftrightarrow> CR \<in> set v"
  by (induction v) (auto simp: quote_escape)

lemma read_quoted_body_escape:
  "LF \<notin> set v \<Longrightarrow> CR \<notin> set v \<Longrightarrow> read_quoted_body (escape v @ dquote # rest) = Some (v, rest)"
  by (induction v) auto

lemma read_quoted_quote:
  "LF \<notin> set v \<Longrightarrow> CR \<notin> set v \<Longrightarrow> read_quoted (dquote # escape v @ dquote # rest) = Some (v, rest)"
  by (simp add: read_quoted_def read_quoted_body_escape)

lemma validate_str_cases:
  "validate_str v =
     (if LF \<in> set v then Err (Validate LF) else if CR \<in> set v then Err (Validate CR) else Ok (quote v))"
  by (simp add: validate_str_def Let_def set_quote)

lemma validate_str_single_line:
  "validate_str v = Ok q \<Longrightarrow> LF \<notin> set q \<and> CR \<notin> set q"
  by (auto simp: validate_str_def Let_def split: if_splits)

text \<open>
  C27: \<open>validate_str\<close> accepts exactly the strings without a line feed and a carriage return, reports
  a line feed before a carriage return, and what it returns is one quoted string of RFC 3501
  that reads back as the argument, whatever follows it on the line.
\<close>

theorem validate_str_correct:
  "case (validate_str v :: (string, 'x error) outcome) of
     Ok q \<Rightarrow> LF \<notin> set v \<and> CR \<notin> set v \<and> LF \<notin> set q \<and> CR \<notin> set q \<and> read_quoted (q @ rest) = Some (v, rest)
   | Err e \<Rightarrow> (e = Validate LF \<and> LF \<in> set v) \<or> (e = Validate CR \<and> CR \<in> set v \<and> LF \<notin> set v)
   | _ \<Rightarrow> False"
  by (auto simp: validate_str_cases set_quote) (simp add: quote_escape read_quoted_quote)

lemma read_pair_format:
  assumes "LF \<notin> set k" "CR \<notin> set k" and "\<And>w. v = Some w \<Longrightarrow> LF \<notin> set w \<and> CR \<notin> set w"
  shows "read_pair (format_pair (k, v) @ rest) = Some ((k, v), rest)"
  using assms
  by (cases v)
    (simp_all add: read_pair_def format_pair_def read_quoted_quote read_space_def read_nstring_def eval_nat_numeral)

text \<open>
  C40: the pairs of the \<open>ID\<close> command survive: when no key and no value has a line feed or a carriage
  return, the text that \<open>format_identification\<close> writes reads back as exactly those pairs, quotes,
  backslashes and missing values included.
\<close>

theorem format_identification_roundtrip:
  assumes "\<forall>(k, v) \<in> set ps. LF \<notin> set k \<and> CR \<notin> set k \<and> (\<forall>w. v = Some w \<longrightarrow> LF \<notin> set w \<and> CR \<notin> set w)"
  shows "read_pairs (length ps) (format_identification ps) = Some ps"
  using assms
proof (induction ps rule: induct_list012)
  case 1
  show ?case by (simp add: format_identification_def)
next
  case (2 p)
  obtain k v where p: "p = (k, v)" by (cases p)
  with 2 show ?case
    using read_pair_format [of k v "[]"] by (simp add: format_identification_def)
next
  case (3 p q ps)
  obtain k v where p: "p = (k, v)" by (cases p)
  have "format_identification (p # q # ps) = format_pair p @ '' '' @ format_identification (q # ps)"
    by (simp add: format_identification_def)
  moreover have "read_pairs (length (q # ps)) (format_identification (q # ps)) = Some (q # ps)"
    using 3 by simp
  moreover have "read_pair (format_pair p @ rest) = Some (p, rest)" for rest
    using 3(3) read_pair_format [of k v rest] by (simp add: p)
  ultimately show ?case by (simp add: read_space_def)
qed

theorem format_identification_roundtrip_witness:
  "read_pairs 2 (format_identification [(''name'', Some [dquote, bslash]), (''os'', None)]) =
     Some [(''name'', Some [dquote, bslash]), (''os'', None)]"
  using format_identification_roundtrip [of "[(''name'', Some [dquote, bslash]), (''os'', None)]"]
  by (simp add: eval_nat_numeral)

text \<open>
  \<open>quote!\<close> and \<open>escape\<close> let line ends through: the quoted text contains a line feed exactly when
  the argument does, so a method that only quotes its argument sends whatever stands behind a
  line feed as a line of its own.
\<close>

theorem quote_keeps_line_ends:
  "(LF \<in> set (quote v) \<longleftrightarrow> LF \<in> set v) \<and> (CR \<in> set (quote v) \<longleftrightarrow> CR \<in> set v)
   \<and> (LF \<in> set (escape v) \<longleftrightarrow> LF \<in> set v)"
  using set_quote [of v] by (auto simp: quote_escape)

end
