(* ===== verification/Connection.thy ===== *)
theory Connection
  imports Id_Generator Mock_Stream Parse_Mailbox
begin

text \<open>
  \<open>Connection\<close> of \<open>src/client.rs\<close>: sending tagged and untagged commands, and waiting for the
  completion of a command.

  A connection is the stream it writes to, the answers that \<open>stream.next().await\<close> is going to
  give (the script of the environment, which \<open>poll_next\<close> of the stream produces from the bytes of
  the server), and the generator of tags.  \<open>T\<close> is the writing side of the transport.
\<close>

section \<open>State and operations\<close>

record ('r, 'x) transport =
  tr_write :: "string \<Rightarrow> 'r \<Rightarrow> 'x write_result \<times> 'r"
  tr_flush :: "'r \<Rightarrow> (unit, 'x io_error) outcome \<times> 'r"

record ('r, 'x) connection =
  stream :: "'r imap_stream"
  incoming :: "'x script"
  request_ids :: id_generator

text \<open>An operation of the stream, its I/O error converted by \<open>?\<close>.\<close>

definition on_stream :: "('r imap_stream \<Rightarrow> (unit, 'x io_error) outcome \<times> 'r imap_stream)
    \<Rightarrow> ('r, 'x) connection \<Rightarrow> (unit, 'x error) outcome \<times> ('r, 'x) connection" where
  "on_stream f cn = (case f (stream cn) of (r, st) \<Rightarrow> (map_err Io r, cn\<lparr>stream := st\<rparr>))"

definition connection_into_inner :: "('r, 'x) connection \<Rightarrow> 'r" where
  "connection_into_inner cn = into_inner (stream cn)"

definition read_response :: "('r, 'x) connection \<Rightarrow> ('x item option, 'x error) outcome \<times> ('r, 'x) connection" where
  "read_response cn =
     (case incoming cn of [] \<Rightarrow> (Pending, cn) | t # sc \<Rightarrow> (Ok t, cn\<lparr>incoming := sc\<rparr>))"

definition run_command_untagged :: "('r, 'x) transport \<Rightarrow> string \<Rightarrow> ('r, 'x) connection
    \<Rightarrow> (unit, 'x error) outcome \<times> ('r, 'x) connection" where
  "run_command_untagged T command cn =
     bind_out (on_stream (encode (tr_write T) (Request None command)) cn) (\<lambda>_ cn.
     bind_out (on_stream (stream_flush (tr_flush T)) cn) (\<lambda>_ cn.
       (Ok (), cn)))"

definition run_command :: "('r, 'x) transport \<Rightarrow> string \<Rightarrow> ('r, 'x) connection
    \<Rightarrow> (request_id, 'x error) outcome \<times> ('r, 'x) connection" where
  "run_command T command cn =
     (case id_next (request_ids cn) of (r, g) \<Rightarrow>
        bind_out (r, cn\<lparr>request_ids := g\<rparr>) (\<lambda>request_id cn.
        bind_out (on_stream (encode (tr_write T) (Request (Some request_id) command)) cn) (\<lambda>_ cn.
        bind_out (on_stream (stream_flush (tr_flush T)) cn) (\<lambda>_ cn.
          (Ok request_id, cn)))))"

text \<open>
  \<open>check_done_ok_from\<close>: the body of its loop decides on a response (\<open>Some\<close> is a \<open>return\<close>), the
  loop reads the next one.  \<open>K\<close> is the channel to hand responses over to, if there is one.
\<close>

definition forward_to :: "('c, 'x unsolicited_response) channel_ops option \<Rightarrow> 'x response_data \<Rightarrow> 'c
    \<Rightarrow> (unit, 'x error) outcome \<times> 'c" where
  "forward_to K r c = (case K of None \<Rightarrow> (Ok (), c) | Some K \<Rightarrow> handle_unilateral K r c)"

definition check_done_body :: "('c, 'x unsolicited_response) channel_ops option \<Rightarrow> request_id
    \<Rightarrow> 'x response_data \<Rightarrow> 'c \<Rightarrow> (unit, 'x error) outcome option \<times> 'c" where
  "check_done_body K tag response c =
     (let go_on = (case forward_to K response c of
            (Ok _, c') \<Rightarrow> (None, c')
          | (r, c') \<Rightarrow> (Some r, c'))
      in case parsed response of
           R_Done t st code information \<Rightarrow>
             (case check_status_ok st code information of
                Ok _ \<Rightarrow> if t = tag then (Some (Ok ()), c) else go_on
              | r \<Rightarrow> (Some r, c))
         | _ \<Rightarrow> go_on)"

fun check_done_ok_from :: "('c, 'x unsolicited_response) channel_ops option \<Rightarrow> request_id
    \<Rightarrow> 'x response_data \<Rightarrow> 'x script \<Rightarrow> 'c \<Rightarrow> (unit, 'x error) outcome \<times> 'x script \<times> 'c" where
  "check_done_ok_from K tag response sc c =
     (case check_done_body K tag response c of
        (Some r, c') \<Rightarrow> (r, sc, c')
      | (None, c') \<Rightarrow>
          (case sc of
             [] \<Rightarrow> (Pending, [], c')
           | None # sc' \<Rightarrow> (Err ConnectionLost, sc', c')
           | Some (Inl e) # sc' \<Rightarrow> (Err (Io e), sc', c')
           | Some (Inr response') # sc' \<Rightarrow> check_done_ok_from K tag response' sc' c'))"

declare check_done_ok_from.simps [simp del]

definition check_done_ok :: "('c, 'x unsolicited_response) channel_ops option \<Rightarrow> request_id
    \<Rightarrow> 'x script \<Rightarrow> 'c \<Rightarrow> (unit, 'x error) outcome \<times> 'x script \<times> 'c" where
  "check_done_ok K tag sc c =
     (case sc of
        [] \<Rightarrow> (Pending, [], c)
      | None # sc' \<Rightarrow> (Err ConnectionLost, sc', c)
      | Some (Inl e) # sc' \<Rightarrow> (Err (Io e), sc', c)
      | Some (Inr first_res) # sc' \<Rightarrow> check_done_ok_from K tag first_res sc' c)"

text \<open>A parser run on the answers of a connection.\<close>

definition on_incoming :: "('x script \<Rightarrow> 'c \<Rightarrow> ('a, 'x error) outcome \<times> 'x script \<times> 'c)
    \<Rightarrow> ('r, 'x) connection \<Rightarrow> 'c \<Rightarrow> ('a, 'x error) outcome \<times> ('r, 'x) connection \<times> 'c" where
  "on_incoming f cn c = (case f (incoming cn) c of (r, sc, c') \<Rightarrow> (r, cn\<lparr>incoming := sc\<rparr>, c'))"

definition run_command_and_check_ok :: "('r, 'x) transport \<Rightarrow> ('c, 'x unsolicited_response) channel_ops option
    \<Rightarrow> string \<Rightarrow> ('r, 'x) connection \<Rightarrow> 'c \<Rightarrow> (unit, 'x error) outcome \<times> ('r, 'x) connection \<times> 'c" where
  "run_command_and_check_ok T K command cn c =
     (case run_command T command cn of
        (Ok tag, cn') \<Rightarrow> on_incoming (check_done_ok K tag) cn' c
      | (Err e, cn') \<Rightarrow> (Err e, cn', c)
      | (Panic m, cn') \<Rightarrow> (Panic m, cn', c)
      | (Pending, cn') \<Rightarrow> (Pending, cn', c))"

section \<open>Waiting for the completion is a reply loop\<close>

text \<open>The completion of another command with a failure ends the wait as well.\<close>

definition done_failure :: "'x response_data \<Rightarrow> 'x error option" where
  "done_failure r = (case parsed r of R_Done t st code info \<Rightarrow> status_failure st code info | _ \<Rightarrow> None)"

definition done_result :: "unit \<Rightarrow> 'x response_data \<Rightarrow> (unit, 'x error) outcome" where
  "done_result acc d = (case done_failure d of None \<Rightarrow> Ok () | Some e \<Rightarrow> Err e)"

lemma check_done_body_cases:
  "check_done_body K tag r c =
     (case done_failure r of
        Some e \<Rightarrow> (Some (Err e), c)
      | None \<Rightarrow>
          if completes tag r then (Some (Ok ()), c)
          else (case forward_to K r c of (Ok _, c') \<Rightarrow> (None, c') | (res, c') \<Rightarrow> (Some res, c')))"
  by (simp add: check_done_body_def done_failure_def completes_def response_data_request_id_def Let_def
      check_status_ok_cases split: response.split option.split)

lemma check_done_ok_Cons:
  "check_done_ok K tag (Some (Inr r) # sc) c =
     (case check_done_body K tag r c of
        (Some res, c') \<Rightarrow> (res, sc, c')
      | (None, c') \<Rightarrow> check_done_ok K tag sc c')"
  by (simp add: check_done_ok_def check_done_ok_from.simps [of K tag r] split: prod.split option.split)

lemma check_done_ok_simps [simp]:
  "check_done_ok K tag [] c = (Pending, [], c)"
  "check_done_ok K tag (None # sc) c = (Err ConnectionLost, sc, c)"
  "check_done_ok K tag (Some (Inl e) # sc) c = (Err (Io e), sc, c)"
  by (simp_all add: check_done_ok_def)

lemma done_result_settled [simp]: "settled (done_result acc d)"
  by (simp add: done_result_def split: option.split)

interpretation check_done: accumulating_loop
  "\<lambda>tag (_::unit). check_done_ok (Some K) tag" "keep_reaction (\<lambda>_. None :: unit option) (\<lambda>_ acc. acc) done_failure"
  "handle_unilateral K" done_result "\<lambda>_. Err ConnectionLost" K "\<lambda>_. None" "\<lambda>_ acc. acc" done_failure
  for K
  by unfold_locales
    (auto simp: keep_reaction_def check_done_ok_Cons check_done_body_cases done_result_def forward_to_def
      split: option.splits)

text \<open>Without a channel the responses are dropped.\<close>

interpretation check_done_silent: reply_loop
  "\<lambda>tag (_::unit). check_done_ok None tag" "keep_reaction (\<lambda>_. None :: unit option) (\<lambda>_ acc. acc) done_failure"
  "\<lambda>_ c. (Ok (), c)" done_result "\<lambda>_. Err ConnectionLost"
  by unfold_locales
    (auto simp: keep_reaction_def check_done_ok_Cons check_done_body_cases done_result_def forward_to_def
      split: option.splits)

lemma absorb_all_silent:
  "\<forall>r \<in> set rs. done_failure r = None \<Longrightarrow>
     absorb_all (keep_reaction (\<lambda>_. None :: unit option) (\<lambda>_ acc. acc) done_failure) (\<lambda>_ c. (Ok (), c)) () rs c = (Ok (), c)"
  by (induction rs) (simp_all add: keep_reaction_def)

lemma done_result_Done:
  "parsed d = R_Done tag st code info \<Longrightarrow> done_result acc d = check_status_ok st code info"
  by (simp add: done_result_def done_failure_def check_status_ok_cases)

text \<open>
  C18: waiting for the completion of a command returns the status of that completion and reads
  nothing behind it; every response before it is handed over in order; when the connection ends
  first the error is \<open>ConnectionLost\<close>.
\<close>

theorem check_done_ok_run:
  assumes "channel_contract K contents capacity is_open" and "is_open c"
    and "\<forall>r \<in> set rs. \<not> completes tag r" and "\<forall>r \<in> set rs. done_failure r = None"
    and "parsed d = R_Done tag st code info"
  shows "(\<exists>c'. check_done_ok (Some K) tag (responses rs @ Some (Inr d) # sc) c = (check_status_ok st code info, sc, c')
       \<and> delivered contents capacity is_open c (map unsolicited_of rs) c')
     \<and> (\<exists>c'. check_done_ok (Some K) tag (responses rs @ None # sc) c = (Err ConnectionLost, sc, c')
       \<and> delivered contents capacity is_open c (map unsolicited_of rs) c')"
proof -
  have "completes tag d" using assms(5) by (simp add: completes_iff)
  from check_done.run_keep_complete [OF assms(1-4) this, where sc = sc]
    check_done.run_keep_end [OF assms(1-4), where sc = sc]
  show ?thesis by (simp add: done_result_Done [OF assms(5)])
qed

theorem check_done_ok_run_witness:
  "\<exists>c'. check_done_ok (Some fifo_ops) ''A0001'' [Some (Inr exists_4), Some (Inr done_no)] fresh_channel =
     (Err (No (Code_Info None None)), [], c') \<and> fifo_queue c' = [U_Exists 4]"
  using check_done_ok_run [OF fifo_contract, of fresh_channel "[exists_4]" "''A0001''" done_no Status_No None None "[]"]
  by (fastforce simp: sample_defs done_failure_def check_status_ok_def delivered_def)

text \<open>
  A \<open>NO\<close> or \<open>BAD\<close> that completes some other command ends the wait for this one with that
  error, and the completion of this one stays unread.
\<close>

theorem check_done_ok_other_failure:
  assumes "channel_contract K contents capacity is_open" and "is_open c"
    and "\<forall>r \<in> set rs. \<not> completes tag r" and "\<forall>r \<in> set rs. done_failure r = None"
    and "parsed d = R_Done other st code info" and "other \<noteq> tag" and "st \<noteq> Status_Ok"
  shows "\<exists>c' e. check_done_ok (Some K) tag (responses rs @ Some (Inr d) # sc) c = (Err e, sc, c')
     \<and> check_status_ok st code info = Err e"
proof -
  have "\<not> completes tag d" using assms(5,6) by (simp add: completes_iff)
  moreover obtain e where e: "status_failure st code info = Some e"
    using assms(7) status_failure_None_iff by (metis not_None_eq)
  moreover from e assms(5) have "done_failure d = Some e" by (simp add: done_failure_def)
  ultimately show ?thesis
    using check_done.run_keep_fail [OF assms(1-4), of d e sc] by (auto simp: check_status_ok_cases)
qed

theorem check_done_ok_other_failure_witness:
  "\<exists>c' e. check_done_ok (Some fifo_ops) ''A0002'' [Some (Inr done_no), Some (Inr exists_4)] fresh_channel =
      (Err e, [Some (Inr exists_4)], c')
    \<and> check_status_ok (Status_No :: nat status) None None = Err e"
  using check_done_ok_other_failure [OF fifo_contract, of fresh_channel "[]" "''A0002''" done_no "''A0001''" Status_No
      None None "[Some (Inr exists_4)]"]
  by (simp add: sample_defs)

section \<open>What a command puts on the wire\<close>

text \<open>A transport that is a sink, and whose \<open>flush\<close> adds nothing.\<close>

locale command_sink = live_sink "tr_write T" written
  for T :: "('r, 'x) transport" and written :: "'r \<Rightarrow> string" +
  assumes flush_written: "written (snd (tr_flush T r)) = written r"
begin

abbreviation wire :: "('r, 'x) connection \<Rightarrow> string" where
  "wire cn \<equiv> written (inner (stream cn))"

lemma on_stream_encode:
  assumes "on_stream (encode (tr_write T) msg) cn = (res, cn')"
  shows "(\<exists>k. wire cn' = wire cn @ take k (request_bytes msg))
     \<and> (res = Ok () \<longrightarrow> wire cn' = wire cn @ request_bytes msg)
     \<and> incoming cn' = incoming cn \<and> request_ids cn' = request_ids cn"
proof -
  obtain r st where run: "encode (tr_write T) msg (stream cn) = (r, st)" by fastforce
  then obtain k where "written (inner st) = wire cn @ take k (request_bytes msg)"
    "r = Ok () \<longrightarrow> length (request_bytes msg) \<le> k"
    using encode_written by blast
  moreover have "res = map_err Io r" and "cn' = cn\<lparr>stream := st\<rparr>"
    using assms by (simp_all add: on_stream_def run)
  ultimately show ?thesis by (intro conjI exI [of _ k]) simp_all
qed

lemma on_stream_flush:
  assumes "on_stream (stream_flush (tr_flush T)) cn = (res, cn')"
  shows "wire cn' = wire cn \<and> incoming cn' = incoming cn \<and> request_ids cn' = request_ids cn"
  using assms flush_written [of "inner (stream cn)"]
  by (cases "tr_flush T (inner (stream cn))") (auto simp: on_stream_def stream_flush_def)

lemma run_command_untagged_wire:
  assumes "run_command_untagged T command cn = (Ok (), cn')"
  shows "wire cn' = wire cn @ command @ [CHR 0x0D, CHR 0x0A] \<and> incoming cn' = incoming cn
     \<and> request_ids cn' = request_ids cn"
  using assms
  by (auto simp: run_command_untagged_def bind_out_Ok_iff request_bytes_def
      dest!: on_stream_encode on_stream_flush)

lemma run_command_wire:
  assumes "run_command T command cn = (Ok tag, cn')"
  shows "wire cn' = wire cn @ tag @ '' '' @ command @ [CHR 0x0D, CHR 0x0A] \<and> incoming cn' = incoming cn
     \<and> id_next (request_ids cn) = (Ok tag :: (request_id, 'x error) outcome, request_ids cn')"
  using assms
  by (cases "id_next (request_ids cn) :: (request_id, 'x error) outcome \<times> _")
    (auto simp: run_command_def bind_out_Ok_iff request_bytes_def dest!: on_stream_encode on_stream_flush)

end

text \<open>
  C29: a command that was sent is on the wire as one request, tag, space, command and line end,
  under the tag that is returned for waiting; the tag is the next one of the generator, and no
  answer of the server has been read.
\<close>

theorem run_command_sends:
  assumes "command_sink T written" and "run_command T command cn = (Ok tag, cn')"
    and "Suc (unat (next_id (request_ids cn))) < 2 ^ 64"
  shows "written (inner (stream cn')) = written (inner (stream cn)) @ tag @ '' '' @ command @ [CHR 0x0D, CHR 0x0A]
     \<and> tag = format_tag (Suc (unat (next_id (request_ids cn))) mod 10000)
     \<and> next_id (request_ids cn') = next_id (request_ids cn) + 1
     \<and> incoming cn' = incoming cn"
proof -
  from command_sink.run_command_wire [OF assms(1,2)]
  have "request_ids cn' = (request_ids cn)\<lparr>next_id := next_id (request_ids cn) + 1\<rparr>"
    by (simp add: id_next_Ok [OF assms(3)])
  with command_sink.run_command_wire [OF assms(1,2)] show ?thesis
    by (simp add: id_next_Ok [OF assms(3)])
qed

definition mock_transport :: "(mock_stream, nat) transport" where
  "mock_transport = \<lparr>tr_write = mock_poll_write, tr_flush = mock_poll_flush\<rparr>"

interpretation mock_commands: command_sink mock_transport written_buf
  by unfold_locales (auto simp: mock_transport_def mock_poll_write_def mock_poll_flush_def)

definition mock_connection :: "nat script \<Rightarrow> (mock_stream, nat) connection" where
  "mock_connection sc =
     \<lparr>stream = ImapStream_new MockStream_default, incoming = sc, request_ids = IdGenerator_new\<rparr>"

lemma mock_on_stream [simp]:
  "on_stream (encode (tr_write mock_transport) msg) cn =
     (Ok (), cn\<lparr>stream := (stream cn)\<lparr>inner := (inner (stream cn))\<lparr>written_buf := written_buf (inner (stream cn)) @ request_bytes msg\<rparr>\<rparr>\<rparr>)"
  "on_stream (stream_flush (tr_flush mock_transport)) cn = (Ok (), cn)"
proof -
  have all: "write_all mock_poll_write b m = ((Ok (), m\<lparr>written_buf := written_buf m @ b\<rparr>) :: (unit, 'x io_error) outcome \<times> _)"
    for b m
    by (cases "b = []") (simp_all add: write_all.simps [of mock_poll_write b] write_all.simps [of _ "[]"] mock_poll_write_def)
  show "on_stream (encode (tr_write mock_transport) msg) cn =
     (Ok (), cn\<lparr>stream := (stream cn)\<lparr>inner := (inner (stream cn))\<lparr>written_buf := written_buf (inner (stream cn)) @ request_bytes msg\<rparr>\<rparr>\<rparr>)"
    by (cases msg)
      (auto simp: on_stream_def encode_def mock_transport_def all write_once_def mock_poll_write_def request_bytes_def
        split: option.split)
  show "on_stream (stream_flush (tr_flush mock_transport)) cn = (Ok (), cn)"
    by (simp add: on_stream_def stream_flush_def mock_transport_def mock_poll_flush_def)
qed

lemma mock_id_next: "id_next IdGenerator_new = (Ok ''A0001'', \<lparr>next_id = 1\<rparr>)"
proof -
  have "format_tag 1 = ''A0001''" by code_simp
  then show ?thesis by (simp add: id_next_Ok IdGenerator_new_def)
qed

lemma mock_run_command:
  "\<exists>cn'. run_command mock_transport command (mock_connection sc) = (Ok ''A0001'', cn')
     \<and> incoming cn' = sc \<and> written_buf (inner (stream cn')) = ''A0001 '' @ command @ [CHR 0x0D, CHR 0x0A]"
  by (simp add: run_command_def mock_connection_def mock_id_next request_bytes_def ImapStream_new_def MockStream_default_def)

theorem run_command_sends_witness:
  "\<exists>cn'. run_command mock_transport ''NOOP'' (mock_connection []) = (Ok ''A0001'', cn')
     \<and> written_buf (inner (stream cn')) = ''A0001 NOOP'' @ [CHR 0x0D, CHR 0x0A]"
proof -
  obtain cn' where run: "run_command mock_transport ''NOOP'' (mock_connection []) = (Ok ''A0001'', cn')"
    using mock_run_command by blast
  show ?thesis
    using run_command_sends [OF mock_commands.command_sink_axioms run] run
    by (simp add: mock_connection_def IdGenerator_new_def ImapStream_new_def MockStream_default_def)
qed

end
