(* ===== verification/Session.thy ===== *)
theory Session
  imports Connection Commands Response_Streams
begin

text \<open>
  \<open>Client\<close> and \<open>Session\<close> of \<open>src/client.rs\<close>: logging in, authenticating, and one definition per
  command of a session, which builds the command line, sends it, and runs the parser of its
  answers.
\<close>

section \<open>Sessions\<close>

text \<open>
  The sender and the receiver of the bounded channel are one component of the state; the user
  takes messages out of it between the calls.
\<close>

record ('r, 'x, 'c) session =
  conn :: "('r, 'x) connection"
  unsolicited :: 'c

definition Session_new :: "('c, 'x unsolicited_response) channel_ops \<Rightarrow> ('r, 'x) connection \<Rightarrow> ('r, 'x, 'c) session" where
  "Session_new K cn = \<lparr>conn = cn, unsolicited = ch_bounded K 100\<rparr>"

definition on_conn :: "(('r, 'x) connection \<Rightarrow> ('a, 'x error) outcome \<times> ('r, 'x) connection)
    \<Rightarrow> ('r, 'x, 'c) session \<Rightarrow> ('a, 'x error) outcome \<times> ('r, 'x, 'c) session" where
  "on_conn f s = (case f (conn s) of (r, cn) \<Rightarrow> (r, s\<lparr>conn := cn\<rparr>))"

text \<open>A parser of the answers, with the session's channel for the unsolicited ones.\<close>

definition parse_answers :: "('x script \<Rightarrow> 'c \<Rightarrow> ('a, 'x error) outcome \<times> 'x script \<times> 'c)
    \<Rightarrow> ('r, 'x, 'c) session \<Rightarrow> ('a, 'x error) outcome \<times> ('r, 'x, 'c) session" where
  "parse_answers f s =
     (case on_incoming f (conn s) (unsolicited s) of (r, cn, c) \<Rightarrow> (r, s\<lparr>conn := cn, unsolicited := c\<rparr>))"

definition session_run_command :: "('r, 'x) transport \<Rightarrow> string \<Rightarrow> ('r, 'x, 'c) session
    \<Rightarrow> (request_id, 'x error) outcome \<times> ('r, 'x, 'c) session" where
  "session_run_command T command = on_conn (run_command T command)"

definition session_run_command_untagged :: "('r, 'x) transport \<Rightarrow> string \<Rightarrow> ('r, 'x, 'c) session
    \<Rightarrow> (unit, 'x error) outcome \<times> ('r, 'x, 'c) session" where
  "session_run_command_untagged T command = on_conn (run_command_untagged T command)"

definition session_read_response :: "('r, 'x, 'c) session
    \<Rightarrow> ('x item option, 'x error) outcome \<times> ('r, 'x, 'c) session" where
  "session_read_response = on_conn read_response"

definition session_run_command_and_check_ok :: "('r, 'x) transport \<Rightarrow> ('c, 'x unsolicited_response) channel_ops
    \<Rightarrow> string \<Rightarrow> ('r, 'x, 'c) session \<Rightarrow> (unit, 'x error) outcome \<times> ('r, 'x, 'c) session" where
  "session_run_command_and_check_ok T K command s =
     (case run_command_and_check_ok T (Some K) command (conn s) (unsolicited s) of
        (r, cn, c) \<Rightarrow> (r, s\<lparr>conn := cn, unsolicited := c\<rparr>))"

section \<open>Logging in\<close>

text \<open>
  A client is a connection that has not been turned into a session.  An error returns it with the
  error.
\<close>

type_synonym ('r, 'x, 'c) login_result = "(('r, 'x, 'c) session, 'x error \<times> ('r, 'x) connection) outcome"

definition Client_new :: "'x script \<Rightarrow> 'r \<Rightarrow> ('r, 'x) connection" where
  "Client_new sc r = \<lparr>stream = ImapStream_new r, incoming = sc, request_ids = IdGenerator_new\<rparr>"

definition client_into_inner :: "('r, 'x) connection \<Rightarrow> 'r" where
  "client_into_inner cn = connection_into_inner cn"

text \<open>\<open>ok_or_unauth_client_err!\<close>.\<close>

fun or_unauth :: "('a, 'x error) outcome \<times> ('r, 'x) connection \<Rightarrow> ('a \<Rightarrow> ('r, 'x) connection \<Rightarrow> ('r, 'x, 'c) login_result)
    \<Rightarrow> ('r, 'x, 'c) login_result" where
  "or_unauth (Ok a, cn) f = f a cn"
| "or_unauth (Err e, cn) f = Err (e, cn)"
| "or_unauth (Panic m, cn) f = Panic m"
| "or_unauth (Pending, cn) f = Pending"

definition login :: "('r, 'x) transport \<Rightarrow> ('c, 'x unsolicited_response) channel_ops \<Rightarrow> string \<Rightarrow> string
    \<Rightarrow> ('r, 'x) connection \<Rightarrow> ('r, 'x, 'c) login_result" where
  "login T K username password cn =
     or_unauth (validate_str username, cn) (\<lambda>u cn.
     or_unauth (validate_str password, cn) (\<lambda>p cn.
     or_unauth (case run_command_and_check_ok T None (''LOGIN '' @ u @ '' '' @ p) cn () of (r, cn, _) \<Rightarrow> (r, cn))
       (\<lambda>_ cn. Ok (Session_new K cn))))"

text \<open>
  \<open>base64\<close>'s standard engine and the user's authenticator are parameters: \<open>decode\<close> gives an error
  or the bytes, \<open>process\<close> the answer to a challenge with the authenticator's next state.
\<close>

record 'x base64 =
  b64_decode :: "string \<Rightarrow> 'x + string"
  b64_encode :: "string \<Rightarrow> string"

definition challenge_of :: "'x base64 \<Rightarrow> string option \<Rightarrow> (string, 'x error) outcome" where
  "challenge_of B information =
     (case information of
        Some text \<Rightarrow>
          (case b64_decode B text of
             Inl e \<Rightarrow> Err (Parse (Authentication text (Some e)))
           | Inr bytes \<Rightarrow> Ok bytes)
      | None \<Rightarrow> Ok [])"

text \<open>The script is the answers still to come; the connection keeps them when the handshake ends.\<close>

fun do_auth_handshake :: "('r, 'x) transport \<Rightarrow> ('c, 'x unsolicited_response) channel_ops \<Rightarrow> 'x base64
    \<Rightarrow> (string \<Rightarrow> 'a \<Rightarrow> string \<times> 'a) \<Rightarrow> request_id \<Rightarrow> 'a \<Rightarrow> ('r, 'x) connection \<Rightarrow> 'x script
    \<Rightarrow> ('r, 'x, 'c) login_result" where
  "do_auth_handshake T K B process tag authenticator cn [] = Pending"
| "do_auth_handshake T K B process tag authenticator cn (None # sc) = Err (ConnectionLost, cn\<lparr>incoming := sc\<rparr>)"
| "do_auth_handshake T K B process tag authenticator cn (Some (Inl e) # sc) = Err (Io e, cn\<lparr>incoming := sc\<rparr>)"
| "do_auth_handshake T K B process tag authenticator cn (Some (Inr res) # sc) =
     (case parsed res of
        R_Continue code information \<Rightarrow>
          (case challenge_of B information of
             Ok challenge \<Rightarrow>
               (case process challenge authenticator of (raw_response, authenticator') \<Rightarrow>
                  (case run_command_untagged T (b64_encode B raw_response) cn of
                     (Ok _, cn') \<Rightarrow> do_auth_handshake T K B process tag authenticator' cn' sc
                   | (Err e, cn') \<Rightarrow> Err (e, cn'\<lparr>incoming := sc\<rparr>)
                   | (Panic m, cn') \<Rightarrow> Panic m
                   | (Pending, cn') \<Rightarrow> Pending))
           | Err e \<Rightarrow> Err (e, cn\<lparr>incoming := sc\<rparr>)
           | Panic m \<Rightarrow> Panic m
           | Pending \<Rightarrow> Pending)
      | _ \<Rightarrow>
          (case check_done_ok_from None tag res sc () of
             (r, sc', _) \<Rightarrow> or_unauth (r, cn\<lparr>incoming := sc'\<rparr>) (\<lambda>_ cn. Ok (Session_new K cn))))"

definition authenticate :: "('r, 'x) transport \<Rightarrow> ('c, 'x unsolicited_response) channel_ops \<Rightarrow> 'x base64
    \<Rightarrow> (string \<Rightarrow> 'a \<Rightarrow> string \<times> 'a) \<Rightarrow> string \<Rightarrow> 'a \<Rightarrow> ('r, 'x) connection \<Rightarrow> ('r, 'x, 'c) login_result" where
  "authenticate T K B process auth_type authenticator cn =
     or_unauth (run_command T (''AUTHENTICATE '' @ auth_type) cn) (\<lambda>tag cn.
       do_auth_handshake T K B process tag authenticator cn (incoming cn))"

section \<open>The commands of a session\<close>

definition select :: "('r, 'x) transport \<Rightarrow> ('c, 'x unsolicited_response) channel_ops \<Rightarrow> string
    \<Rightarrow> ('r, 'x, 'c) session \<Rightarrow> (mailbox, 'x error) outcome \<times> ('r, 'x, 'c) session" where
  "select T K mailbox_nm s =
     bind_out (validate_str mailbox_nm, s) (\<lambda>q s.
     bind_out (session_run_command T (''SELECT '' @ q) s) (\<lambda>tag s.
       parse_answers (parse_mailbox K tag) s))"

definition select_condstore :: "('r, 'x) transport \<Rightarrow> ('c, 'x unsolicited_response) channel_ops \<Rightarrow> string
    \<Rightarrow> ('r, 'x, 'c) session \<Rightarrow> (mailbox, 'x error) outcome \<times> ('r, 'x, 'c) session" where
  "select_condstore T K mailbox_nm s =
     bind_out (validate_str mailbox_nm, s) (\<lambda>q s.
     bind_out (session_run_command T (''SELECT '' @ q @ '' (CONDSTORE)'') s) (\<lambda>tag s.
       parse_answers (parse_mailbox K tag) s))"

definition examine :: "('r, 'x) transport \<Rightarrow> ('c, 'x unsolicited_response) channel_ops \<Rightarrow> string
    \<Rightarrow> ('r, 'x, 'c) session \<Rightarrow> (mailbox, 'x error) outcome \<times> ('r, 'x, 'c) session" where
  "examine T K mailbox_nm s =
     bind_out (validate_str mailbox_nm, s) (\<lambda>q s.
     bind_out (session_run_command T (''EXAMINE '' @ q) s) (\<lambda>tag s.
       parse_answers (parse_mailbox K tag) s))"

text \<open>\<open>fetch\<close>.\<close>

definition fetch_messages :: "('r, 'x) transport \<Rightarrow> ('c, 'x unsolicited_response) channel_ops \<Rightarrow> string \<Rightarrow> string
    \<Rightarrow> ('r, 'x, 'c) session \<Rightarrow> (('x, 'c, 'x error + 'x fetch) response_stream, 'x error) outcome \<times> ('r, 'x, 'c) session" where
  "fetch_messages T K sequence_set query s =
     bind_out (session_run_command T (''FETCH '' @ sequence_set @ '' '' @ query) s) (\<lambda>tag s.
       (Ok (parse_fetches K tag), s))"

definition uid_fetch :: "('r, 'x) transport \<Rightarrow> ('c, 'x unsolicited_response) channel_ops \<Rightarrow> string \<Rightarrow> string
    \<Rightarrow> ('r, 'x, 'c) session \<Rightarrow> (('x, 'c, 'x error + 'x fetch) response_stream, 'x error) outcome \<times> ('r, 'x, 'c) session" where
  "uid_fetch T K uid_set query s =
     bind_out (session_run_command T (''UID FETCH '' @ uid_set @ '' '' @ query) s) (\<lambda>tag s.
       (Ok (parse_fetches K tag), s))"

definition noop :: "('r, 'x) transport \<Rightarrow> ('c, 'x unsolicited_response) channel_ops
    \<Rightarrow> ('r, 'x, 'c) session \<Rightarrow> (unit, 'x error) outcome \<times> ('r, 'x, 'c) session" where
  "noop T K s =
     bind_out (session_run_command T ''NOOP'' s) (\<lambda>tag s.
       parse_answers (parse_noop K tag) s)"

definition logout :: "('r, 'x) transport \<Rightarrow> ('c, 'x unsolicited_response) channel_ops
    \<Rightarrow> ('r, 'x, 'c) session \<Rightarrow> (unit, 'x error) outcome \<times> ('r, 'x, 'c) session" where
  "logout T K s =
     session_run_command_and_check_ok T K ''LOGOUT'' s"

definition create :: "('r, 'x) transport \<Rightarrow> ('c, 'x unsolicited_response) channel_ops \<Rightarrow> string
    \<Rightarrow> ('r, 'x, 'c) session \<Rightarrow> (unit, 'x error) outcome \<times> ('r, 'x, 'c) session" where
  "create T K mailbox_nm s =
     bind_out (validate_str mailbox_nm, s) (\<lambda>q s.
     session_run_command_and_check_ok T K (''CREATE '' @ q) s)"

text \<open>\<open>delete\<close>.\<close>

definition delete_mailbox :: "('r, 'x) transport \<Rightarrow> ('c, 'x unsolicited_response) channel_ops \<Rightarrow> string
    \<Rightarrow> ('r, 'x, 'c) session \<Rightarrow> (unit, 'x error) outcome \<times> ('r, 'x, 'c) session" where
  "delete_mailbox T K mailbox_nm s =
     bind_out (validate_str mailbox_nm, s) (\<lambda>q s.
     session_run_command_and_check_ok T K (''DELETE '' @ q) s)"

text \<open>\<open>rename\<close>.\<close>

definition rename_mailbox :: "('r, 'x) transport \<Rightarrow> ('c, 'x unsolicited_response) channel_ops \<Rightarrow> string \<Rightarrow> string
    \<Rightarrow> ('r, 'x, 'c) session \<Rightarrow> (unit, 'x error) outcome \<times> ('r, 'x, 'c) session" where
  "rename_mailbox T K source target s =
     session_run_command_and_check_ok T K (''RENAME '' @ quote source @ '' '' @ quote target) s"

definition subscribe :: "('r, 'x) transport \<Rightarrow> ('c, 'x unsolicited_response) channel_ops \<Rightarrow> string
    \<Rightarrow> ('r, 'x, 'c) session \<Rightarrow> (unit, 'x error) outcome \<times> ('r, 'x, 'c) session" where
  "subscribe T K mailbox_nm s =
     session_run_command_and_check_ok T K (''SUBSCRIBE '' @ quote mailbox_nm) s"

definition unsubscribe :: "('r, 'x) transport \<Rightarrow> ('c, 'x unsolicited_response) channel_ops \<Rightarrow> string
    \<Rightarrow> ('r, 'x, 'c) session \<Rightarrow> (unit, 'x error) outcome \<times> ('r, 'x, 'c) session" where
  "unsubscribe T K mailbox_nm s =
     session_run_command_and_check_ok T K (''UNSUBSCRIBE '' @ quote mailbox_nm) s"

text \<open>\<open>capabilities\<close>.\<close>

definition session_capabilities :: "('r, 'x) transport \<Rightarrow> ('c, 'x unsolicited_response) channel_ops
    \<Rightarrow> ('r, 'x, 'c) session \<Rightarrow> (capabilities, 'x error) outcome \<times> ('r, 'x, 'c) session" where
  "session_capabilities T K s =
     bind_out (session_run_command T ''CAPABILITY'' s) (\<lambda>tag s.
       parse_answers (parse_capabilities K tag) s)"

definition expunge :: "('r, 'x) transport \<Rightarrow> ('c, 'x unsolicited_response) channel_ops
    \<Rightarrow> ('r, 'x, 'c) session \<Rightarrow> (('x, 'c, 'x error + u32) response_stream, 'x error) outcome \<times> ('r, 'x, 'c) session" where
  "expunge T K s =
     bind_out (session_run_command T ''EXPUNGE'' s) (\<lambda>tag s.
       (Ok (parse_expunge K tag), s))"

definition uid_expunge :: "('r, 'x) transport \<Rightarrow> ('c, 'x unsolicited_response) channel_ops \<Rightarrow> string
    \<Rightarrow> ('r, 'x, 'c) session \<Rightarrow> (('x, 'c, 'x error + u32) response_stream, 'x error) outcome \<times> ('r, 'x, 'c) session" where
  "uid_expunge T K uid_set s =
     bind_out (session_run_command T (''UID EXPUNGE '' @ uid_set) s) (\<lambda>tag s.
       (Ok (parse_expunge K tag), s))"

definition check :: "('r, 'x) transport \<Rightarrow> ('c, 'x unsolicited_response) channel_ops
    \<Rightarrow> ('r, 'x, 'c) session \<Rightarrow> (unit, 'x error) outcome \<times> ('r, 'x, 'c) session" where
  "check T K s =
     session_run_command_and_check_ok T K ''CHECK'' s"

text \<open>\<open>close\<close>.\<close>

definition close_mailbox :: "('r, 'x) transport \<Rightarrow> ('c, 'x unsolicited_response) channel_ops
    \<Rightarrow> ('r, 'x, 'c) session \<Rightarrow> (unit, 'x error) outcome \<times> ('r, 'x, 'c) session" where
  "close_mailbox T K s =
     session_run_command_and_check_ok T K ''CLOSE'' s"

definition store :: "('r, 'x) transport \<Rightarrow> ('c, 'x unsolicited_response) channel_ops \<Rightarrow> string \<Rightarrow> string
    \<Rightarrow> ('r, 'x, 'c) session \<Rightarrow> (('x, 'c, 'x error + 'x fetch) response_stream, 'x error) outcome \<times> ('r, 'x, 'c) session" where
  "store T K sequence_set query s =
     bind_out (session_run_command T (''STORE '' @ sequence_set @ '' '' @ query) s) (\<lambda>tag s.
       (Ok (parse_fetches K tag), s))"

definition uid_store :: "('r, 'x) transport \<Rightarrow> ('c, 'x unsolicited_response) channel_ops \<Rightarrow> string \<Rightarrow> string
    \<Rightarrow> ('r, 'x, 'c) session \<Rightarrow> (('x, 'c, 'x error + 'x fetch) response_stream, 'x error) outcome \<times> ('r, 'x, 'c) session" where
  "uid_store T K uid_set query s =
     bind_out (session_run_command T (''UID STORE '' @ uid_set @ '' '' @ query) s) (\<lambda>tag s.
       (Ok (parse_fetches K tag), s))"

definition copy :: "('r, 'x) transport \<Rightarrow> ('c, 'x unsolicited_response) channel_ops \<Rightarrow> string \<Rightarrow> string
    \<Rightarrow> ('r, 'x, 'c) session \<Rightarrow> (unit, 'x error) outcome \<times> ('r, 'x, 'c) session" where
  "copy T K sequence_set mailbox_nm s =
     session_run_command_and_check_ok T K (''COPY '' @ sequence_set @ '' '' @ mailbox_nm) s"

definition uid_copy :: "('r, 'x) transport \<Rightarrow> ('c, 'x unsolicited_response) channel_ops \<Rightarrow> string \<Rightarrow> string
    \<Rightarrow> ('r, 'x, 'c) session \<Rightarrow> (unit, 'x error) outcome \<times> ('r, 'x, 'c) session" where
  "uid_copy T K uid_set mailbox_nm s =
     session_run_command_and_check_ok T K (''UID COPY '' @ uid_set @ '' '' @ mailbox_nm) s"

definition mv :: "('r, 'x) transport \<Rightarrow> ('c, 'x unsolicited_response) channel_ops \<Rightarrow> string \<Rightarrow> string
    \<Rightarrow> ('r, 'x, 'c) session \<Rightarrow> (unit, 'x error) outcome \<times> ('r, 'x, 'c) session" where
  "mv T K sequence_set mailbox_nm s =
     bind_out (validate_str mailbox_nm, s) (\<lambda>q s.
     session_run_command_and_check_ok T K (''MOVE '' @ sequence_set @ '' '' @ q) s)"

definition uid_mv :: "('r, 'x) transport \<Rightarrow> ('c, 'x unsolicited_response) channel_ops \<Rightarrow> string \<Rightarrow> string
    \<Rightarrow> ('r, 'x, 'c) session \<Rightarrow> (unit, 'x error) outcome \<times> ('r, 'x, 'c) session" where
  "uid_mv T K uid_set mailbox_nm s =
     bind_out (validate_str mailbox_nm, s) (\<lambda>q s.
     session_run_command_and_check_ok T K (''UID MOVE '' @ uid_set @ '' '' @ q) s)"

definition unwrap_or :: "'a option \<Rightarrow> 'a \<Rightarrow> 'a" where
  "unwrap_or x d = (case x of Some a \<Rightarrow> a | None \<Rightarrow> d)"

text \<open>\<open>list\<close>.\<close>

definition list_mailboxes :: "('r, 'x) transport \<Rightarrow> ('c, 'x unsolicited_response) channel_ops \<Rightarrow> string option \<Rightarrow> string option
    \<Rightarrow> ('r, 'x, 'c) session \<Rightarrow> (('x, 'c, 'x error + 'x name) response_stream, 'x error) outcome \<times> ('r, 'x, 'c) session" where
  "list_mailboxes T K reference_name mailbox_pattern s =
     bind_out (session_run_command T (''LIST '' @ quote (unwrap_or reference_name []) @ '' ''
         @ unwrap_or mailbox_pattern [dquote, dquote]) s) (\<lambda>tag s.
       (Ok (parse_names K tag), s))"

definition lsub :: "('r, 'x) transport \<Rightarrow> ('c, 'x unsolicited_response) channel_ops \<Rightarrow> string option \<Rightarrow> string option
    \<Rightarrow> ('r, 'x, 'c) session \<Rightarrow> (('x, 'c, 'x error + 'x name) response_stream, 'x error) outcome \<times> ('r, 'x, 'c) session" where
  "lsub T K reference_name mailbox_pattern s =
     bind_out (session_run_command T (''LSUB '' @ quote (unwrap_or reference_name []) @ '' ''
         @ unwrap_or mailbox_pattern []) s) (\<lambda>tag s.
       (Ok (parse_names K tag), s))"

definition status :: "('r, 'x) transport \<Rightarrow> ('c, 'x unsolicited_response) channel_ops \<Rightarrow> string \<Rightarrow> string
    \<Rightarrow> ('r, 'x, 'c) session \<Rightarrow> (mailbox, 'x error) outcome \<times> ('r, 'x, 'c) session" where
  "status T K mailbox_nm data_items s =
     bind_out (validate_str mailbox_nm, s) (\<lambda>q s.
     bind_out (session_run_command T (''STATUS '' @ q @ '' '' @ data_items) s) (\<lambda>tag s.
       parse_answers (parse_status K mailbox_nm tag) s))"

text \<open>
  \<open>append\<close> writes the message to the transport itself, behind the stream's back, once the server
  has asked for it, and takes the next answer, whatever it is, as the end of the command.
\<close>

definition write_content :: "('r, 'x) transport \<Rightarrow> string \<Rightarrow> ('r, 'x) connection
    \<Rightarrow> (unit, 'x error) outcome \<times> ('r, 'x) connection" where
  "write_content T content cn =
     on_stream (\<lambda>st. map_prod id (\<lambda>r. st\<lparr>inner := r\<rparr>) (write_all (tr_write T) content (inner st))) cn"

definition append_content :: "('r, 'x) transport \<Rightarrow> string \<Rightarrow> ('r, 'x, 'c) session
    \<Rightarrow> (unit, 'x error) outcome \<times> ('r, 'x, 'c) session" where
  "append_content T content s =
     bind_out (on_conn (write_content T content) s) (\<lambda>_ s.
     bind_out (on_conn (write_content T [CR, LF]) s) (\<lambda>_ s.
     bind_out (on_conn (on_stream (stream_flush (tr_flush T))) s) (\<lambda>_ s.
     bind_out (session_read_response s) (\<lambda>answer s.
       (case answer of Some (Inl err) \<Rightarrow> Err (Io err) | _ \<Rightarrow> Ok (), s)))))"

definition append_message :: "('r, 'x) transport \<Rightarrow> string \<Rightarrow> string \<Rightarrow> ('r, 'x, 'c) session
    \<Rightarrow> (unit, 'x error) outcome \<times> ('r, 'x, 'c) session" where
  "append_message T mailbox_nm content s =
     bind_out (session_run_command T
       (''APPEND '' @ [dquote] @ mailbox_nm @ [dquote] @ '' {'' @ decimal (length content) @ ''}'') s) (\<lambda>_ s.
     bind_out (session_read_response s) (\<lambda>answer s.
       case answer of
         Some (Inr res) \<Rightarrow>
           (case parsed res of
              R_Continue code information \<Rightarrow> append_content T content s
            | _ \<Rightarrow> (Err Append, s))
       | Some (Inl err) \<Rightarrow> (Err (Io err), s)
       | None \<Rightarrow> (Err Append, s)))"

definition search :: "('r, 'x) transport \<Rightarrow> ('c, 'x unsolicited_response) channel_ops \<Rightarrow> string
    \<Rightarrow> ('r, 'x, 'c) session \<Rightarrow> (u32 set, 'x error) outcome \<times> ('r, 'x, 'c) session" where
  "search T K query s =
     bind_out (session_run_command T (''SEARCH '' @ query) s) (\<lambda>tag s.
       parse_answers (parse_ids K tag) s)"

definition uid_search :: "('r, 'x) transport \<Rightarrow> ('c, 'x unsolicited_response) channel_ops \<Rightarrow> string
    \<Rightarrow> ('r, 'x, 'c) session \<Rightarrow> (u32 set, 'x error) outcome \<times> ('r, 'x, 'c) session" where
  "uid_search T K query s =
     bind_out (session_run_command T (''UID SEARCH '' @ query) s) (\<lambda>tag s.
       parse_answers (parse_ids K tag) s)"

definition get_quota :: "('r, 'x) transport \<Rightarrow> ('c, 'x unsolicited_response) channel_ops \<Rightarrow> string
    \<Rightarrow> ('r, 'x, 'c) session \<Rightarrow> (quota, 'x error) outcome \<times> ('r, 'x, 'c) session" where
  "get_quota T K quota_root_nm s =
     bind_out (session_run_command T (''GETQUOTA '' @ quote quota_root_nm) s) (\<lambda>tag s.
       parse_answers (parse_get_quota K tag) s)"

definition get_quota_root :: "('r, 'x) transport \<Rightarrow> ('c, 'x unsolicited_response) channel_ops \<Rightarrow> string
    \<Rightarrow> ('r, 'x, 'c) session \<Rightarrow> (quota_root list \<times> quota list, 'x error) outcome \<times> ('r, 'x, 'c) session" where
  "get_quota_root T K mailbox_nm s =
     bind_out (session_run_command T (''GETQUOTAROOT '' @ quote mailbox_nm) s) (\<lambda>tag s.
       parse_answers (parse_get_quota_root K tag) s)"

definition get_metadata :: "('r, 'x) transport \<Rightarrow> ('c, 'x unsolicited_response) channel_ops \<Rightarrow> string \<Rightarrow> string \<Rightarrow> string
    \<Rightarrow> ('r, 'x, 'c) session \<Rightarrow> ('x list, 'x error) outcome \<times> ('r, 'x, 'c) session" where
  "get_metadata T K mailbox_nm options entry_specifier s =
     (let opts = (if options = [] then [] else '' '' @ options) in
     bind_out (session_run_command T (''GETMETADATA '' @ quote mailbox_nm @ '' '' @ opts @ entry_specifier) s) (\<lambda>tag s.
       parse_answers (parse_metadata K mailbox_nm tag) s))"

text \<open>\<open>id\<close>.\<close>

definition server_id :: "('r, 'x) transport \<Rightarrow> ('c, 'x unsolicited_response) channel_ops \<Rightarrow> (string \<times> string option) list
    \<Rightarrow> ('r, 'x, 'c) session \<Rightarrow> ((string \<rightharpoonup> string) option, 'x error) outcome \<times> ('r, 'x, 'c) session" where
  "server_id T K identification s =
     bind_out (session_run_command T (''ID ('' @ format_identification identification @ '')'') s) (\<lambda>tag s.
       parse_answers (parse_id K tag) s)"

text \<open>\<open>id_nil\<close>.\<close>

definition server_id_nil :: "('r, 'x) transport \<Rightarrow> ('c, 'x unsolicited_response) channel_ops
    \<Rightarrow> ('r, 'x, 'c) session \<Rightarrow> ((string \<rightharpoonup> string) option, 'x error) outcome \<times> ('r, 'x, 'c) session" where
  "server_id_nil T K s =
     bind_out (session_run_command T ''ID NIL'' s) (\<lambda>tag s.
       parse_answers (parse_id K tag) s)"
section \<open>What the methods do\<close>

lemma session_run_command_Ok:
  "run_command T command (conn s) = (Ok tag, cn) \<Longrightarrow>
     session_run_command T command s = (Ok tag, s\<lparr>conn := cn\<rparr>)"
  by (simp add: session_run_command_def on_conn_def)

lemma parse_answers_eq:
  "f (incoming (conn s)) (unsolicited s) = (r, sc, c) \<Longrightarrow>
     parse_answers f s = (r, s\<lparr>conn := (conn s)\<lparr>incoming := sc\<rparr>, unsolicited := c\<rparr>)"
  by (simp add: parse_answers_def on_incoming_def)

lemma validate_str_Ok: "LF \<notin> set v \<Longrightarrow> CR \<notin> set v \<Longrightarrow> validate_str v = Ok (quote v)"
  by (simp add: validate_str_cases)

lemma validate_str_Err:
  "LF \<in> set v \<or> CR \<in> set v \<Longrightarrow> validate_str v = Err (Validate (if LF \<in> set v then LF else CR))"
  by (auto simp: validate_str_cases)

text \<open>
  C28: a mailbox name with a line feed or a carriage return is refused by \<open>select\<close>,
  \<open>select_condstore\<close>, \<open>examine\<close>, \<open>create\<close>, \<open>delete\<close>, \<open>mv\<close>, \<open>uid_mv\<close> and \<open>status\<close>, and such a user
  name or password by \<open>login\<close>, with the offending character as the error and the session or the
  connection unchanged: nothing is sent, no tag is taken, no answer is read.
\<close>

theorem invalid_names_rejected:
  assumes "LF \<in> set m \<or> CR \<in> set m" and "e = Validate (if LF \<in> set m then LF else CR)"
  shows "select T K m s = (Err e, s) \<and> select_condstore T K m s = (Err e, s) \<and> examine T K m s = (Err e, s)
     \<and> create T K m s = (Err e, s) \<and> delete_mailbox T K m s = (Err e, s)
     \<and> mv T K seqs m s = (Err e, s) \<and> uid_mv T K seqs m s = (Err e, s) \<and> status T K m items s = (Err e, s)
     \<and> login T K m pass cn = Err (e, cn)
     \<and> (LF \<notin> set user \<and> CR \<notin> set user \<longrightarrow> login T K user m cn = Err (e, cn))"
  using assms(1)
  by (simp only: select_def select_condstore_def examine_def create_def delete_mailbox_def mv_def uid_mv_def
      status_def login_def validate_str_Err [OF assms(1), folded assms(2)] bind_out.simps or_unauth.simps)
    (simp add: validate_str_Ok assms(2))

definition sample_session :: "nat script \<Rightarrow> (mock_stream, nat, nat unsolicited_response fifo) session" where
  "sample_session sc = \<lparr>conn = mock_connection sc, unsolicited = fresh_channel\<rparr>"

theorem invalid_names_rejected_witness:
  "select mock_transport fifo_ops (''a'' @ [LF]) (sample_session []) = (Err (Validate LF), sample_session [])"
  using invalid_names_rejected [of "''a'' @ [LF]" "Validate LF" mock_transport fifo_ops "sample_session []"] by simp

text \<open>
  C13: \<open>select\<close> from end to end.  On a mailbox name without line ends it puts one line on the wire,
  the next tag and \<open>SELECT\<close> with the name as a quoted string, returns the mailbox that the answers
  before the completion describe when the completion says \<open>OK\<close>, hands the other answers over in
  order and leaves the answers behind the completion unread.
\<close>

theorem select_run:
  assumes "command_sink T written" and "channel_contract K contents capacity is_open"
    and "is_open (unsolicited s)" and "LF \<notin> set m" and "CR \<notin> set m"
    and "run_command T (''SELECT '' @ quote m) (conn s) = (Ok tag, cn)"
    and "incoming (conn s) = responses rs @ Some (Inr d) # sc"
    and "\<forall>r \<in> set rs. \<not> completes tag r" and "\<forall>r \<in> set rs. data_failure r = None"
    and "parsed d = R_Done tag Status_Ok code info"
  shows "\<exists>s'. select T K m s = (Ok (mailbox_of rs), s') \<and> incoming (conn s') = sc
     \<and> written (inner (stream (conn s'))) =
         written (inner (stream (conn s))) @ tag @ '' SELECT '' @ quote m @ [CR, LF]
     \<and> delivered contents capacity is_open (unsolicited s)
         (map unsolicited_of (filter (\<lambda>r. mailbox_update r = None) rs)) (unsolicited s')"
proof -
  note wire = command_sink.run_command_wire [OF assms(1,6)]
  have "completes tag d" using assms(10) by (simp add: completes_iff)
  from mailbox.run_keep_complete [OF assms(2,3,8,9) this, where acc = Mailbox_default and sc = sc]
  obtain c' where c': "parse_mailbox K tag (incoming (conn s)) (unsolicited s) = (Ok (mailbox_of rs), sc, c')"
    "delivered contents capacity is_open (unsolicited s)
       (map unsolicited_of (filter (\<lambda>r. mailbox_update r = None) rs)) c'"
    by (auto simp: parse_mailbox_def fold_mailbox_update completed_Done [OF assms(10)] check_status_ok_def assms(7))
  have "select T K m s = parse_answers (parse_mailbox K tag) (s\<lparr>conn := cn\<rparr>)"
    using session_run_command_Ok [OF assms(6)] assms(4,5) by (simp add: select_def validate_str_Ok)
  with c' wire show ?thesis
    by (simp add: parse_answers_eq [of "parse_mailbox K tag" "s\<lparr>conn := cn\<rparr>", where sc = sc and c = c'])
qed

theorem select_run_witness:
  "\<exists>s'. select mock_transport fifo_ops ''INBOX''
        (sample_session [Some (Inr exists_4), Some (Inr done_ok), None]) =
      (Ok (mailbox_of [exists_4]), s')
    \<and> written_buf (inner (stream (conn s'))) = ''A0001 SELECT '' @ quote ''INBOX'' @ [CR, LF]"
proof -
  let ?s = "sample_session [Some (Inr exists_4), Some (Inr done_ok), None]"
  obtain cn where run: "run_command mock_transport (''SELECT '' @ quote ''INBOX'') (conn ?s) = (Ok ''A0001'', cn)"
    using mock_run_command unfolding sample_session_def by fastforce
  have "written_buf (inner (stream (conn ?s))) = []"
    by (simp add: sample_session_def mock_connection_def ImapStream_new_def MockStream_default_def)
  then show ?thesis
    using select_run [OF mock_commands.command_sink_axioms fifo_contract _ _ _ run, of "[exists_4]" done_ok "[None]" None None]
    by (auto simp: sample_session_def mock_connection_def sample_defs data_failure_def)
qed

text \<open>
  C35: \<open>copy\<close> sends the mailbox name as it is: when it contains a line end, one call puts two lines on
  the wire, of which the second is whatever the name says.
\<close>

theorem copy_sends_two_lines:
  assumes "command_sink T written"
    and "run_command T (''COPY '' @ seqs @ '' '' @ m @ [CR, LF] @ line) (conn s) = (Ok tag, cn)"
  shows "\<exists>s'. snd (copy T K seqs (m @ [CR, LF] @ line) s) = s'
     \<and> written (inner (stream (conn s'))) = written (inner (stream (conn s)))
         @ request_bytes (Request (Some tag) (''COPY '' @ seqs @ '' '' @ m))
         @ request_bytes (Request None line)"
proof -
  have "snd (copy T K seqs (m @ [CR, LF] @ line) s) =
      (case check_done_ok (Some K) tag (incoming cn) (unsolicited s) of
         (r, sc, c) \<Rightarrow> s\<lparr>conn := cn\<lparr>incoming := sc\<rparr>, unsolicited := c\<rparr>)"
    by (simp add: copy_def session_run_command_and_check_ok_def run_command_and_check_ok_def on_incoming_def
        assms(2) [simplified] split: prod.split)
  with command_sink.run_command_wire [OF assms] show ?thesis
    by (simp add: request_bytes_def split: prod.split)
qed

theorem copy_sends_two_lines_witness:
  "written_buf (inner (stream (conn (snd (copy mock_transport fifo_ops ''1'' (''a'' @ [CR, LF] @ ''X DELETE b'') (sample_session []))))))
     = ''A0001 COPY 1 a'' @ [CR, LF] @ ''X DELETE b'' @ [CR, LF]"
proof -
  let ?s = "sample_session []"
  obtain cn where run: "run_command mock_transport (''COPY '' @ ''1'' @ '' '' @ ''a'' @ [CR, LF] @ ''X DELETE b'') (conn ?s)
      = (Ok ''A0001'', cn)"
    using mock_run_command unfolding sample_session_def by fastforce
  have "written_buf (inner (stream (conn ?s))) = []"
    by (simp add: sample_session_def mock_connection_def ImapStream_new_def MockStream_default_def)
  then show ?thesis
    using copy_sends_two_lines [OF mock_commands.command_sink_axioms run, of fifo_ops] by (simp add: request_bytes_def)
qed

section \<open>Appending, logging in, authenticating\<close>

text \<open>A transport that takes everything at once.\<close>

definition reliable :: "('r, 'x) transport \<Rightarrow> bool" where
  "reliable T \<longleftrightarrow>
     (\<forall>b r. fst (write_all (tr_write T) b r) = Ok ()) \<and> (\<forall>r. fst (tr_flush T r) = Ok ())
   \<and> (\<forall>b r. \<exists>n. fst (write_once (tr_write T) b r) = Ok n)"

lemma mock_reliable: "reliable mock_transport"
proof -
  have "write_all mock_poll_write b m = ((Ok (), m\<lparr>written_buf := written_buf m @ b\<rparr>) :: (unit, nat io_error) outcome \<times> _)"
    for b m
    by (cases "b = []") (simp_all add: write_all.simps [of mock_poll_write b] write_all.simps [of _ "[]"] mock_poll_write_def)
  then show ?thesis
    by (simp add: reliable_def mock_transport_def mock_poll_flush_def write_once_def mock_poll_write_def)
qed

lemma on_stream_flush_total:
  "reliable T \<Longrightarrow> \<exists>cn'. on_stream (stream_flush (tr_flush T)) cn = (Ok (), cn')"
  by (cases "tr_flush T (inner (stream cn))")
    (auto simp: on_stream_def stream_flush_def reliable_def dest: spec [of _ "inner (stream cn)"])

lemma on_stream_encode_total:
  assumes "reliable T"
  shows "\<exists>cn'. on_stream (encode (tr_write T) msg) cn = (Ok (), cn')"
proof -
  have all: "\<exists>r'. write_all (tr_write T) b r = (Ok (), r')" for b r
    using assms unfolding reliable_def by (metis prod.collapse)
  have once: "\<exists>n r'. write_once (tr_write T) b r = (Ok n, r')" for b r
    using assms unfolding reliable_def by (metis prod.collapse)
  have "\<exists>st. encode (tr_write T) msg (stream cn) = (Ok (), st)"
  proof (cases msg)
    case (Request tag bytes)
    let ?r = "inner (stream cn)"
    obtain r1 where r1: "(case tag of
          Some t \<Rightarrow> bind_out (write_all (tr_write T) t ?r) (\<lambda>_ r. bind_out (write_once (tr_write T) '' '' r) (\<lambda>_ r. (Ok (), r)))
        | None \<Rightarrow> (Ok (), ?r)) = (Ok (), r1)"
      using all [of _ ?r] once by (cases tag) (auto simp: bind_out_Ok_iff, metis)
    obtain r2 where r2: "write_all (tr_write T) bytes r1 = (Ok (), r2)" using all by blast
    obtain r3 where r3: "write_all (tr_write T) [CR, LF] r2 = (Ok (), r3)" using all by blast
    show ?thesis by (simp add: encode_def Request r1 r2 r3)
  qed
  then show ?thesis by (auto simp: on_stream_def)
qed

context command_sink
begin

lemma write_content_wire:
  assumes "reliable T"
  shows "\<exists>cn'. write_content T b cn = (Ok (), cn') \<and> wire cn' = wire cn @ b
     \<and> incoming cn' = incoming cn \<and> request_ids cn' = request_ids cn"
proof -
  obtain r where r: "write_all (tr_write T) b (inner (stream cn)) = (Ok (), r)"
    using assms unfolding reliable_def by (metis prod.collapse)
  with write_all_written [OF r] show ?thesis
    by (auto simp: write_content_def on_stream_def)
qed

lemma flush_wire:
  assumes "reliable T"
  shows "\<exists>cn'. on_stream (stream_flush (tr_flush T)) cn = (Ok (), cn') \<and> wire cn' = wire cn
     \<and> incoming cn' = incoming cn \<and> request_ids cn' = request_ids cn"
  using on_stream_flush_total [OF assms, of cn] on_stream_flush by blast

lemma encode_wire:
  assumes "reliable T"
  shows "\<exists>cn'. on_stream (encode (tr_write T) msg) cn = (Ok (), cn') \<and> wire cn' = wire cn @ request_bytes msg
     \<and> incoming cn' = incoming cn \<and> request_ids cn' = request_ids cn"
  using on_stream_encode_total [OF assms, of msg cn] on_stream_encode by blast

lemma run_command_untagged_total:
  assumes "reliable T"
  shows "\<exists>cn'. run_command_untagged T command cn = (Ok (), cn')
     \<and> wire cn' = wire cn @ command @ [CR, LF] \<and> incoming cn' = incoming cn"
proof -
  obtain cn1 where "on_stream (encode (tr_write T) (Request None command)) cn = (Ok (), cn1)"
    "wire cn1 = wire cn @ request_bytes (Request None command)" "incoming cn1 = incoming cn"
    using encode_wire [OF assms] by blast
  moreover obtain cn2 where "on_stream (stream_flush (tr_flush T)) cn1 = (Ok (), cn2)" "wire cn2 = wire cn1"
    "incoming cn2 = incoming cn1"
    using flush_wire [OF assms] by blast
  ultimately show ?thesis by (simp add: run_command_untagged_def request_bytes_def)
qed

lemma append_content_total:
  assumes "reliable T" and "incoming (conn s) = answer # sc"
  shows "\<exists>s'. append_content T content s = ((case answer of Some (Inl err) \<Rightarrow> Err (Io err) | _ \<Rightarrow> Ok ()), s')
     \<and> wire (conn s') = wire (conn s) @ content @ [CR, LF] \<and> incoming (conn s') = sc \<and> unsolicited s' = unsolicited s"
proof -
  obtain cn1 where "write_content T content (conn s) = (Ok (), cn1)" "wire cn1 = wire (conn s) @ content"
    "incoming cn1 = incoming (conn s)"
    using write_content_wire [OF assms(1)] by blast
  moreover obtain cn2 where "write_content T [CR, LF] cn1 = (Ok (), cn2)" "wire cn2 = wire cn1 @ [CR, LF]"
    "incoming cn2 = incoming cn1"
    using write_content_wire [OF assms(1)] by blast
  moreover obtain cn3 where "on_stream (stream_flush (tr_flush T)) cn2 = (Ok (), cn3)" "wire cn3 = wire cn2"
    "incoming cn3 = incoming cn2"
    using flush_wire [OF assms(1)] by blast
  ultimately show ?thesis
    using assms(2) by (simp add: append_content_def on_conn_def session_read_response_def read_response_def)
qed

end

text \<open>
  C34: \<open>append\<close> announces the exact length of the message, writes the message and a line end once the
  server has asked for it, and then takes one more answer of any kind for its success: a \<open>NO\<close>, an
  untagged response or the end of the connection as well.  It reads nothing behind that answer, so
  a completion that comes later stays unread.
\<close>

theorem append_run:
  assumes "command_sink T written" and "reliable T"
    and "run_command T (''APPEND '' @ [dquote] @ m @ [dquote] @ '' {'' @ decimal (length content) @ ''}'') (conn s) = (Ok tag, cn)"
    and "incoming (conn s) = Some (Inr go_ahead) # answer # sc" and "parsed go_ahead = R_Continue code info"
    and "\<And>err. answer \<noteq> Some (Inl err)"
  shows "\<exists>s'. append_message T m content s = (Ok (), s') \<and> incoming (conn s') = sc \<and> unsolicited s' = unsolicited s
     \<and> written (inner (stream (conn s'))) = written (inner (stream (conn s)))
         @ tag @ '' APPEND '' @ [dquote] @ m @ [dquote] @ '' {'' @ decimal (length content) @ ''}'' @ [CR, LF]
         @ content @ [CR, LF]"
proof -
  note wire = command_sink.run_command_wire [OF assms(1,3)]
  let ?s = "s\<lparr>conn := cn\<lparr>incoming := answer # sc\<rparr>\<rparr>"
  have "append_message T m content s = append_content T content ?s"
    using session_run_command_Ok [OF assms(3)] wire assms(4,5)
    by (simp add: append_message_def session_read_response_def on_conn_def read_response_def)
  moreover have "(case answer of Some (Inl err) \<Rightarrow> Err (Io err) | _ \<Rightarrow> Ok ()) = (Ok () :: (unit, 'b error) outcome)"
    using assms(6) by (simp split: option.split sum.split)
  ultimately show ?thesis
    using command_sink.append_content_total [OF assms(1,2), of ?s answer sc content] wire by auto
qed

theorem append_run_witness:
  "\<exists>s'. append_message mock_transport ''Sent'' ''hi''
        (sample_session [Some (Inr (sample (R_Continue None None))), Some (Inr exists_4), Some (Inr done_no)]) = (Ok (), s')
     \<and> incoming (conn s') = [Some (Inr done_no)]"
proof -
  let ?s = "sample_session [Some (Inr (sample (R_Continue None None))), Some (Inr exists_4), Some (Inr done_no)]"
  obtain cn where run: "run_command mock_transport
      (''APPEND '' @ [dquote] @ ''Sent'' @ [dquote] @ '' {'' @ decimal (length ''hi'') @ ''}'') (conn ?s) = (Ok ''A0001'', cn)"
    using mock_run_command unfolding sample_session_def by fastforce
  show ?thesis
    using append_run [OF mock_commands.command_sink_axioms mock_reliable run, of "sample (R_Continue None None)"
        "Some (Inr exists_4)" "[Some (Inr done_no)]" None None]
    by (auto simp: sample_session_def mock_connection_def sample_def)
qed

text \<open>
  C14: \<open>login\<close> sends user name and password as quoted strings in one line, and then the completion
  decides: with \<open>OK\<close> the connection becomes a session with an empty, open channel for 100
  unsolicited responses; with any other status the error comes with the connection, which can be
  used again.  Untagged responses before the completion are dropped.
\<close>

theorem login_run:
  assumes "command_sink T written" and "channel_contract K contents capacity is_open"
    and "LF \<notin> set u" "CR \<notin> set u" "LF \<notin> set p" "CR \<notin> set p"
    and "run_command T (''LOGIN '' @ quote u @ '' '' @ quote p) cn = (Ok tag, cn1)"
    and "incoming cn = responses rs @ Some (Inr d) # sc"
    and "\<forall>r \<in> set rs. \<not> completes tag r" and "\<forall>r \<in> set rs. done_failure r = None"
    and "parsed d = R_Done tag st code info"
  shows "\<exists>cn'. incoming cn' = sc
     \<and> written (inner (stream cn')) = written (inner (stream cn)) @ tag @ '' LOGIN '' @ quote u @ '' '' @ quote p @ [CR, LF]
     \<and> (case check_status_ok st code info of
          Ok _ \<Rightarrow> (\<exists>s. login T K u p cn = Ok s \<and> conn s = cn' \<and> contents (unsolicited s) = []
            \<and> capacity (unsolicited s) = 100 \<and> is_open (unsolicited s))
        | Err e \<Rightarrow> login T K u p cn = Err (e, cn')
        | _ \<Rightarrow> False)"
proof -
  note wire = command_sink.run_command_wire [OF assms(1,7)]
  have "completes tag d" using assms(11) by (simp add: completes_iff)
  from check_done_silent.run_complete [OF assms(9) absorb_all_silent [OF assms(10)] this, where sc = sc]
  have "check_done_ok None tag (incoming cn1) () = (check_status_ok st code info, sc, ())"
    using wire assms(8) by (simp add: done_result_Done [OF assms(11)])
  then have run: "run_command_and_check_ok T None (''LOGIN '' @ quote u @ '' '' @ quote p) cn () =
      (check_status_ok st code info, cn1\<lparr>incoming := sc\<rparr>, ())"
    by (simp add: run_command_and_check_ok_def assms(7) [simplified] on_incoming_def)
  have channel: "contents (ch_bounded K 100) = [] \<and> capacity (ch_bounded K 100) = 100 \<and> is_open (ch_bounded K 100)"
    using assms(2) unfolding channel_contract_def by simp
  show ?thesis
  proof (intro exI [of _ "cn1\<lparr>incoming := sc\<rparr>"] conjI)
    show "case check_status_ok st code info of
          Ok _ \<Rightarrow> (\<exists>s. login T K u p cn = Ok s \<and> conn s = cn1\<lparr>incoming := sc\<rparr> \<and> contents (unsolicited s) = []
            \<and> capacity (unsolicited s) = 100 \<and> is_open (unsolicited s))
        | Err e \<Rightarrow> login T K u p cn = Err (e, cn1\<lparr>incoming := sc\<rparr>)
        | _ \<Rightarrow> False"
      using channel
      by (cases st) (simp_all add: login_def validate_str_Ok assms(3-6) run [simplified] Session_new_def check_status_ok_def)
  qed (use wire in simp_all)
qed

theorem login_run_witness:
  "\<exists>s. login mock_transport fifo_ops ''u'' ''p'' (mock_connection [Some (Inr exists_4), Some (Inr done_ok)]) = Ok s
     \<and> unsolicited s = (ch_bounded fifo_ops 100 :: nat unsolicited_response fifo)"
proof -
  let ?cn = "mock_connection [Some (Inr exists_4), Some (Inr done_ok)]"
  obtain cn1 where run: "run_command mock_transport (''LOGIN '' @ quote ''u'' @ '' '' @ quote ''p'') ?cn = (Ok ''A0001'', cn1)"
    using mock_run_command by fastforce
  from login_run [OF mock_commands.command_sink_axioms fifo_contract _ _ _ _ run, of "[exists_4]" done_ok "[]" Status_Ok None None]
  obtain s where "login mock_transport fifo_ops ''u'' ''p'' ?cn = Ok s" "fifo_queue (unsolicited s) = []"
    "fifo_capacity (unsolicited s) = 100" "\<not> fifo_closed (unsolicited s)"
    by (auto simp: mock_connection_def sample_defs done_failure_def check_status_ok_def)
  then show ?thesis by (intro exI [of _ s]) (simp add: fifo_ops_def)
qed

text \<open>
  The lines with which an authenticator answers a list of challenges, \<open>None\<close> when one of the
  responses is not a challenge or cannot be decoded.
\<close>

fun sasl_replies :: "'x base64 \<Rightarrow> (string \<Rightarrow> 'a \<Rightarrow> string \<times> 'a) \<Rightarrow> 'a \<Rightarrow> 'x response_data list \<Rightarrow> string list option" where
  "sasl_replies B process a [] = Some []"
| "sasl_replies B process a (r # rs) =
     (case parsed r of
        R_Continue code information \<Rightarrow>
          (case challenge_of B information of
             Ok challenge \<Rightarrow>
               (case process challenge a of (raw_response, a') \<Rightarrow>
                  map_option ((#) (b64_encode B raw_response)) (sasl_replies B process a' rs))
           | _ \<Rightarrow> None)
      | _ \<Rightarrow> None)"

definition reply_lines :: "string list \<Rightarrow> string" where
  "reply_lines replies = concat (map (\<lambda>r. r @ [CR, LF]) replies)"

context command_sink
begin

lemma handshake_challenges:
  assumes "reliable T"
  shows "sasl_replies B process a cs = Some replies \<Longrightarrow>
     \<exists>a' cn'. do_auth_handshake T K B process tag a cn (responses cs @ sc) = do_auth_handshake T K B process tag a' cn' sc
       \<and> wire cn' = wire cn @ reply_lines replies"
proof (induction cs arbitrary: a cn replies)
  case Nil
  then show ?case by (auto simp: reply_lines_def)
next
  case (Cons r cs)
  then obtain code info challenge raw_resp a1 replies' where
    r: "parsed r = R_Continue code info" "challenge_of B info = Ok challenge" "process challenge a = (raw_resp, a1)"
    and rest: "sasl_replies B process a1 cs = Some replies'" "replies = b64_encode B raw_resp # replies'"
    by (auto split: response.splits outcome.splits prod.splits)
  obtain cn1 where cn1: "run_command_untagged T (b64_encode B raw_resp) cn = (Ok (), cn1)"
    "wire cn1 = wire cn @ b64_encode B raw_resp @ [CR, LF]"
    using run_command_untagged_total [OF assms] by blast
  from Cons.IH [OF rest(1), of cn1] r cn1 rest(2) show ?case by (auto simp: reply_lines_def)
qed

end

text \<open>
  C15: the \<open>AUTHENTICATE\<close> handshake answers every challenge, in order, with one untagged line, the
  encoding of what the authenticator makes of the decoded challenge (an empty one where the server
  gave none), and then the completion decides between a session and an error that comes with the
  connection.
\<close>

theorem authenticate_run:
  assumes "command_sink T written" and "reliable T"
    and "run_command T (''AUTHENTICATE '' @ auth_type) cn = (Ok tag, cn1)"
    and "incoming cn = responses cs @ Some (Inr d) # sc"
    and "sasl_replies B process a cs = Some replies" and "parsed d = R_Done tag st code info"
  shows "\<exists>cn'. incoming cn' = sc
     \<and> written (inner (stream cn')) =
         written (inner (stream cn)) @ tag @ '' AUTHENTICATE '' @ auth_type @ [CR, LF] @ reply_lines replies
     \<and> authenticate T K B process auth_type a cn =
         (case check_status_ok st code info of
            Ok _ \<Rightarrow> Ok (Session_new K cn')
          | Err e \<Rightarrow> Err (e, cn')
          | Panic m \<Rightarrow> Panic m
          | Pending \<Rightarrow> Pending)"
proof -
  note wire = command_sink.run_command_wire [OF assms(1,3)]
  obtain a' cn2 where cn2: "do_auth_handshake T K B process tag a cn1 (responses cs @ Some (Inr d) # sc) =
      do_auth_handshake T K B process tag a' cn2 (Some (Inr d) # sc)"
    "written (inner (stream cn2)) = written (inner (stream cn1)) @ reply_lines replies"
    using command_sink.handshake_challenges [OF assms(1,2,5)] by blast
  have "completes tag d" using assms(6) by (simp add: completes_iff)
  from check_done_silent.loop_complete [OF this, of sc "()"]
  have "check_done_ok_from None tag d sc () = (check_status_ok st code info, sc, ())"
    by (simp add: check_done_ok_def done_result_Done [OF assms(6)])
  then have "authenticate T K B process auth_type a cn =
         (case check_status_ok st code info of
            Ok _ \<Rightarrow> Ok (Session_new K (cn2\<lparr>incoming := sc\<rparr>))
          | Err e \<Rightarrow> Err (e, cn2\<lparr>incoming := sc\<rparr>)
          | Panic m \<Rightarrow> Panic m
          | Pending \<Rightarrow> Pending)"
    using wire cn2(1) assms(3,4,6) by (cases st) (simp_all add: authenticate_def check_status_ok_def)
  with wire cn2(2) show ?thesis by (intro exI [of _ "cn2\<lparr>incoming := sc\<rparr>"]) simp
qed

definition plain_base64 :: "nat base64" where
  "plain_base64 = \<lparr>b64_decode = Inr, b64_encode = (\<lambda>s. s)\<rparr>"

theorem authenticate_run_witness:
  "\<exists>cn'. authenticate mock_transport fifo_ops plain_base64 (\<lambda>ch n. (ch @ ''!'', Suc n)) ''PLAIN'' 0
        (mock_connection [Some (Inr (sample (R_Continue None (Some ''x'')))), Some (Inr done_ok)]) =
      Ok (Session_new fifo_ops cn')
    \<and> written_buf (inner (stream cn')) = ''A0001 AUTHENTICATE PLAIN'' @ [CR, LF] @ ''x!'' @ [CR, LF]"
proof -
  let ?cn = "mock_connection [Some (Inr (sample (R_Continue None (Some ''x'')))), Some (Inr done_ok)]"
  obtain cn1 where run: "run_command mock_transport (''AUTHENTICATE '' @ ''PLAIN'') ?cn = (Ok ''A0001'', cn1)"
    using mock_run_command by fastforce
  have "sasl_replies plain_base64 (\<lambda>ch n. (ch @ ''!'', Suc n)) 0 [sample (R_Continue None (Some ''x''))] = Some [''x!'']"
    by (simp add: sample_def challenge_of_def plain_base64_def)
  from authenticate_run [OF mock_commands.command_sink_axioms mock_reliable run _ this, of done_ok "[]" Status_Ok None None fifo_ops]
  show ?thesis
    by (auto simp: mock_connection_def sample_defs check_status_ok_def reply_lines_def ImapStream_new_def MockStream_default_def)
qed

end
