(* ===== verification/Idle.thy ===== *)
theory Idle
  imports Session
begin

text \<open>
  \<open>src/extensions/idle.rs\<close>: the handle on a session that idles.  \<open>init\<close> sends \<open>IDLE\<close>, \<open>wait\<close> waits
  for something to happen, \<open>done\<close> sends \<open>DONE\<close> and gives the session back.
\<close>

section \<open>The handle\<close>

record ('r, 'x, 'c) handle =
  session_of :: "('r, 'x, 'c) session"
  idle_id :: "request_id option"

definition Handle_new :: "('r, 'x, 'c) session \<Rightarrow> ('r, 'x, 'c) handle" where
  "Handle_new s = \<lparr>session_of = s, idle_id = None\<rparr>"

definition idle :: "('r, 'x, 'c) session \<Rightarrow> ('r, 'x, 'c) handle" where
  "idle s = Handle_new s"

text \<open>The handle as a stream: the responses of the session's stream.\<close>

definition handle_next :: "('r, 'x, 'c) handle \<Rightarrow> ('x item option, 'x error) outcome \<times> ('r, 'x, 'c) handle" where
  "handle_next h =
     (case session_read_response (session_of h) of (r, s) \<Rightarrow> (r, h\<lparr>session_of := s\<rparr>))"

section \<open>Starting to idle\<close>

text \<open>
  The loop of \<open>init\<close>.  A completion of the command itself with \<open>BAD\<close> is an error with the text of
  the completion, whose absence is a panic (\<open>unwrap\<close>); everything else but a continuation is
  handed over.
\<close>

fun idle_init_loop :: "('c, 'x unsolicited_response) channel_ops \<Rightarrow> request_id \<Rightarrow> 'x script \<Rightarrow> 'c
    \<Rightarrow> (unit, 'x error) outcome \<times> 'x script \<times> 'c" where
  "idle_init_loop K tag [] c = (Pending, [], c)"
| "idle_init_loop K tag (None # sc) c = (Err (Io (Io_Error Kind_ConnectionRefused (Text []))), sc, c)"
| "idle_init_loop K tag (Some (Inl e) # sc) c = (Err (Io e), sc, c)"
| "idle_init_loop K tag (Some (Inr res) # sc) c =
     (case parsed res of
        R_Continue code information \<Rightarrow> (Ok (), sc, c)
      | R_Done t st code information \<Rightarrow>
          if t = tag \<and> st = Status_Bad then
            (case information of
               None \<Rightarrow> (Panic ''called `Option::unwrap()` on a `None` value'', sc, c)
             | Some text \<Rightarrow> (Err (Io (Io_Error Kind_ConnectionRefused (Text text))), sc, c))
          else after (handle_unilateral K res c) sc (\<lambda>_ c'. idle_init_loop K tag sc c')
      | _ \<Rightarrow> after (handle_unilateral K res c) sc (\<lambda>_ c'. idle_init_loop K tag sc c'))"

definition on_session :: "(('r, 'x, 'c) session \<Rightarrow> ('a, 'x error) outcome \<times> ('r, 'x, 'c) session)
    \<Rightarrow> ('r, 'x, 'c) handle \<Rightarrow> ('a, 'x error) outcome \<times> ('r, 'x, 'c) handle" where
  "on_session f h = (case f (session_of h) of (r, s) \<Rightarrow> (r, h\<lparr>session_of := s\<rparr>))"

definition idle_init :: "('r, 'x) transport \<Rightarrow> ('c, 'x unsolicited_response) channel_ops \<Rightarrow> ('r, 'x, 'c) handle
    \<Rightarrow> (unit, 'x error) outcome \<times> ('r, 'x, 'c) handle" where
  "idle_init T K h =
     bind_out (on_session (session_run_command T ''IDLE'') h) (\<lambda>tag h.
       on_session (parse_answers (idle_init_loop K tag)) (h\<lparr>idle_id := Some tag\<rparr>))"

section \<open>Waiting\<close>

datatype 'x idle_response = ManualInterrupt | Timeout | NewData "'x response_data"

text \<open>
  What ends one \<open>timeout(dur, interruptible_stream.next()).await\<close>: the time, the interrupt (the
  stop source was dropped), or an answer of the stream.
\<close>

datatype idle_event = Time_Elapsed | Interrupted | Stream_Answers

fun idle_wait_loop :: "('c, 'x unsolicited_response) channel_ops \<Rightarrow> idle_event list \<Rightarrow> 'x script \<Rightarrow> 'c
    \<Rightarrow> ('x idle_response, 'x error) outcome \<times> 'x script \<times> 'c" where
  "idle_wait_loop K [] sc c = (Pending, sc, c)"
| "idle_wait_loop K (Time_Elapsed # evs) sc c = (Ok Timeout, sc, c)"
| "idle_wait_loop K (Interrupted # evs) sc c = (Ok ManualInterrupt, sc, c)"
| "idle_wait_loop K (Stream_Answers # evs) [] c = (Pending, [], c)"
| "idle_wait_loop K (Stream_Answers # evs) (None # sc) c = (Ok ManualInterrupt, sc, c)"
| "idle_wait_loop K (Stream_Answers # evs) (Some (Inl e) # sc) c = (Err (Io e), sc, c)"
| "idle_wait_loop K (Stream_Answers # evs) (Some (Inr resp) # sc) c =
     (case parsed resp of
        R_Data Status_Ok code information \<Rightarrow> idle_wait_loop K evs sc c
      | R_Continue code information \<Rightarrow> idle_wait_loop K evs sc c
      | R_Done t st code information \<Rightarrow>
          after (handle_unilateral K resp c) sc (\<lambda>_ c'. idle_wait_loop K evs sc c')
      | _ \<Rightarrow> (Ok (NewData resp), sc, c))"

definition idle_wait_with_timeout :: "('c, 'x unsolicited_response) channel_ops \<Rightarrow> idle_event list
    \<Rightarrow> ('r, 'x, 'c) handle \<Rightarrow> ('x idle_response, 'x error) outcome \<times> ('r, 'x, 'c) handle" where
  "idle_wait_with_timeout K evs h =
     (if idle_id h = None then (Panic ''Cannot listen to response without starting IDLE'', h)
      else on_session (parse_answers (idle_wait_loop K evs)) h)"

text \<open>\<open>wait\<close> waits for a day; how long a wait may take is up to the events.\<close>

definition idle_wait :: "('c, 'x unsolicited_response) channel_ops \<Rightarrow> idle_event list
    \<Rightarrow> ('r, 'x, 'c) handle \<Rightarrow> ('x idle_response, 'x error) outcome \<times> ('r, 'x, 'c) handle" where
  "idle_wait K evs h = idle_wait_with_timeout K evs h"

section \<open>Ending\<close>

text \<open>\<open>done\<close> consumes the handle: an error loses the session.\<close>

definition idle_done :: "('r, 'x) transport \<Rightarrow> ('c, 'x unsolicited_response) channel_ops \<Rightarrow> ('r, 'x, 'c) handle
    \<Rightarrow> (('r, 'x, 'c) session, 'x error) outcome" where
  "idle_done T K h =
     (case idle_id h of
        None \<Rightarrow> Panic ''Cannot call DONE on a non initialized idle connection''
      | Some tag \<Rightarrow>
          (case bind_out (session_run_command_untagged T ''DONE'' (session_of h)) (\<lambda>_ s.
                  parse_answers (check_done_ok (Some K) tag) s) of
             (Ok _, s) \<Rightarrow> Ok s
           | (Err e, s) \<Rightarrow> Err e
           | (Panic m, s) \<Rightarrow> Panic m
           | (Pending, s) \<Rightarrow> Pending))"

section \<open>The loop of init\<close>

definition continues :: "'x response_data \<Rightarrow> bool" where
  "continues r = (case parsed r of R_Continue _ _ \<Rightarrow> True | _ \<Rightarrow> False)"

definition refuses :: "request_id \<Rightarrow> 'x response_data \<Rightarrow> bool" where
  "refuses tag r = (case parsed r of R_Done t st _ _ \<Rightarrow> t = tag \<and> st = Status_Bad | _ \<Rightarrow> False)"

lemma idle_init_other:
  "\<not> continues r \<Longrightarrow> \<not> refuses tag r \<Longrightarrow>
     idle_init_loop K tag (Some (Inr r) # sc) c = after (handle_unilateral K r c) sc (\<lambda>_ c'. idle_init_loop K tag sc c')"
  by (auto simp: continues_def refuses_def split: response.split)

lemma idle_init_skip:
  assumes K: "channel_contract K contents capacity is_open" and "is_open c"
    and "\<forall>r \<in> set rs. \<not> continues r \<and> \<not> refuses tag r"
  shows "\<exists>c'. idle_init_loop K tag (responses rs @ sc) c = idle_init_loop K tag sc c'
     \<and> delivered contents capacity is_open c (map unsolicited_of rs) c'"
  using assms(2,3)
proof (induction rs arbitrary: c)
  case Nil
  then show ?case using delivered_refl [of is_open c contents capacity] by auto
next
  case (Cons r rs)
  obtain c1 where c1: "handle_unilateral K r c = ((Ok (), c1) :: (unit, 'b error) outcome \<times> _)"
    "delivered contents capacity is_open c [unsolicited_of r] c1"
    using handle_unilateral_delivered [OF K Cons.prems(1)] by blast
  then have "is_open c1" by (simp add: delivered_def)
  with Cons obtain c2 where c2: "idle_init_loop K tag (responses rs @ sc) c1 = idle_init_loop K tag sc c2"
    "delivered contents capacity is_open c1 (map unsolicited_of rs) c2" by auto
  have "idle_init_loop K tag (responses (r # rs) @ sc) c = idle_init_loop K tag sc c2"
    using Cons.prems(2) c1(1) c2(1) by (simp add: idle_init_other del: idle_init_loop.simps)
  with delivered_trans [OF c1(2) c2(2)] show ?case by (intro exI [of _ c2]) simp
qed

section \<open>The loop of wait\<close>

text \<open>The answers that \<open>wait\<close> does not report: keepalives, continuations and completions.\<close>

definition passes :: "'x response_data \<Rightarrow> bool" where
  "passes r = (case parsed r of
       R_Data Status_Ok _ _ \<Rightarrow> True | R_Continue _ _ \<Rightarrow> True | R_Done _ _ _ _ \<Rightarrow> True | _ \<Rightarrow> False)"

definition is_done :: "'x response_data \<Rightarrow> bool" where
  "is_done r = (case parsed r of R_Done _ _ _ _ \<Rightarrow> True | _ \<Rightarrow> False)"

lemma idle_wait_pass:
  assumes "passes r"
  shows "idle_wait_loop K (Stream_Answers # evs) (Some (Inr r) # sc) c =
     (if is_done r then after (handle_unilateral K r c) sc (\<lambda>_ c'. idle_wait_loop K evs sc c')
      else idle_wait_loop K evs sc c)"
  using assms by (auto simp: passes_def is_done_def split: response.splits status.splits)

lemma idle_wait_new:
  "\<not> passes r \<Longrightarrow> idle_wait_loop K (Stream_Answers # evs) (Some (Inr r) # sc) c = (Ok (NewData r), sc, c)"
  by (auto simp: passes_def split: response.splits status.splits)

lemma idle_wait_skip:
  assumes K: "channel_contract K contents capacity is_open" and "is_open c" and "\<forall>r \<in> set rs. passes r"
  shows "\<exists>c'. idle_wait_loop K (replicate (length rs) Stream_Answers @ evs) (responses rs @ sc) c = idle_wait_loop K evs sc c'
     \<and> delivered contents capacity is_open c (map unsolicited_of (filter is_done rs)) c'"
  using assms(2,3)
proof (induction rs arbitrary: c)
  case Nil
  then show ?case using delivered_refl [of is_open c contents capacity] by auto
next
  case (Cons r rs)
  show ?case
  proof (cases "is_done r")
    case True
    obtain c1 where c1: "handle_unilateral K r c = ((Ok (), c1) :: (unit, 'b error) outcome \<times> _)"
      "delivered contents capacity is_open c [unsolicited_of r] c1"
      using handle_unilateral_delivered [OF K Cons.prems(1)] by blast
    then have "is_open c1" by (simp add: delivered_def)
    with Cons obtain c2 where
      c2: "idle_wait_loop K (replicate (length rs) Stream_Answers @ evs) (responses rs @ sc) c1 = idle_wait_loop K evs sc c2"
      "delivered contents capacity is_open c1 (map unsolicited_of (filter is_done rs)) c2" by auto
    have "idle_wait_loop K (replicate (length (r # rs)) Stream_Answers @ evs) (responses (r # rs) @ sc) c = idle_wait_loop K evs sc c2"
      using Cons.prems(2) True c1(1) c2(1) by (simp add: idle_wait_pass del: idle_wait_loop.simps)
    with delivered_trans [OF c1(2) c2(2)] True show ?thesis by (intro exI [of _ c2]) simp
  next
    case False
    with Cons show ?thesis by (simp add: idle_wait_pass del: idle_wait_loop.simps)
  qed
qed

section \<open>Properties\<close>

text \<open>What \<open>init\<close> does is what its loop does behind the line it sends.\<close>

lemma idle_init_eq:
  assumes "command_sink T written"
    and "run_command T ''IDLE'' (conn (session_of h)) = (Ok tag, cn)"
    and "idle_init_loop K tag (incoming (conn (session_of h))) (unsolicited (session_of h)) = (r, sc, c')"
  shows "\<exists>h'. idle_init T K h = (r, h') \<and> idle_id h' = Some tag \<and> incoming (conn (session_of h')) = sc
     \<and> written (inner (stream (conn (session_of h')))) =
         written (inner (stream (conn (session_of h)))) @ tag @ '' IDLE'' @ [CR, LF]
     \<and> unsolicited (session_of h') = c'"
  using command_sink.run_command_wire [OF assms(1,2)] assms(3)
  by (simp add: idle_init_def on_session_def session_run_command_Ok [OF assms(2)] parse_answers_def on_incoming_def)

text \<open>
  C32: starting to idle sends \<open>IDLE\<close> under the next tag, remembers that tag, waits for the server to
  ask for more and reads nothing behind that; every other response before it is handed over in
  order, a \<open>NO\<close> for the very command included.
\<close>

theorem idle_init_run:
  assumes "command_sink T written" and "channel_contract K contents capacity is_open"
    and "is_open (unsolicited (session_of h))"
    and "run_command T ''IDLE'' (conn (session_of h)) = (Ok tag, cn)"
    and "incoming (conn (session_of h)) = responses rs @ Some (Inr g) # sc"
    and "\<forall>r \<in> set rs. \<not> continues r \<and> \<not> refuses tag r" and "continues g"
  shows "\<exists>h'. idle_init T K h = (Ok (), h') \<and> idle_id h' = Some tag \<and> incoming (conn (session_of h')) = sc
     \<and> written (inner (stream (conn (session_of h')))) =
         written (inner (stream (conn (session_of h)))) @ tag @ '' IDLE'' @ [CR, LF]
     \<and> delivered contents capacity is_open (unsolicited (session_of h)) (map unsolicited_of rs) (unsolicited (session_of h'))"
proof -
  obtain c' where c': "idle_init_loop K tag (responses rs @ Some (Inr g) # sc) (unsolicited (session_of h)) =
      idle_init_loop K tag (Some (Inr g) # sc) c'"
    "delivered contents capacity is_open (unsolicited (session_of h)) (map unsolicited_of rs) c'"
    using idle_init_skip [OF assms(2,3,6)] by blast
  have "idle_init_loop K tag (Some (Inr g) # sc) c' = (Ok (), sc, c')"
    using assms(7) by (simp add: continues_def split: response.splits)
  with c'(1) assms(5) have "idle_init_loop K tag (incoming (conn (session_of h))) (unsolicited (session_of h)) = (Ok (), sc, c')"
    by (simp only:)
  from idle_init_eq [OF assms(1,4) this] c'(2) show ?thesis by blast
qed

definition sample_handle :: "nat script \<Rightarrow> (mock_stream, nat, nat unsolicited_response fifo) handle" where
  "sample_handle sc = Handle_new (sample_session sc)"

lemmas sample_handle_defs = sample_handle_def Handle_new_def sample_session_def mock_connection_def

lemma sample_handle_run:
  "\<exists>cn. run_command mock_transport command (conn (session_of (sample_handle sc))) = (Ok ''A0001'', cn)"
  using mock_run_command [of command sc] by (auto simp: sample_handle_def Handle_new_def sample_session_def)

theorem idle_init_run_witness:
  "\<exists>h'. idle_init mock_transport fifo_ops (sample_handle [Some (Inr done_no), Some (Inr (sample (R_Continue None None)))]) = (Ok (), h')
     \<and> idle_id h' = Some ''A0001'' \<and> fifo_queue (unsolicited (session_of h')) = [U_Other done_no]"
proof -
  let ?h = "sample_handle [Some (Inr done_no), Some (Inr (sample (R_Continue None None)))]"
  obtain cn where run: "run_command mock_transport ''IDLE'' (conn (session_of ?h)) = (Ok ''A0001'', cn)"
    using sample_handle_run by blast
  show ?thesis
    using idle_init_run [OF mock_commands.command_sink_axioms fifo_contract _ run, of "[done_no]" "sample (R_Continue None None)" "[]"]
    by (auto simp: sample_handle_defs sample_defs continues_def refuses_def delivered_def)
qed

text \<open>
  C33: what the completion of \<open>IDLE\<close> itself does while \<open>init\<close> waits, wherever it comes among the
  answers.  A \<open>BAD\<close> with a text ends \<open>init\<close> with an error of that text and a \<open>BAD\<close> without a text with
  a panic, the responses before it handed over and those behind it unread.  Any other status is
  handed over like a response of another command and does not end \<open>init\<close>: as long as the server,
  which has refused the command, makes no request, \<open>init\<close> hands over whatever comes and waits, and
  when the connection ends it reports a refused connection without the text of the completion.
\<close>

theorem idle_init_completion:
  assumes "command_sink T written" and "channel_contract K contents capacity is_open"
    and "is_open (unsolicited (session_of h))"
    and "run_command T ''IDLE'' (conn (session_of h)) = (Ok tag, cn)"
    and "incoming (conn (session_of h)) = responses rs @ Some (Inr d) # later"
    and "\<forall>r \<in> set rs. \<not> continues r \<and> \<not> refuses tag r" and "parsed d = R_Done tag st code info"
  shows "\<exists>r h'. idle_init T K h = (r, h') \<and> idle_id h' = Some tag
     \<and> written (inner (stream (conn (session_of h')))) =
         written (inner (stream (conn (session_of h)))) @ tag @ '' IDLE'' @ [CR, LF]
     \<and> (if st = Status_Bad then
          r = (case info of
                 None \<Rightarrow> Panic ''called `Option::unwrap()` on a `None` value''
               | Some text \<Rightarrow> Err (Io (Io_Error Kind_ConnectionRefused (Text text))))
          \<and> incoming (conn (session_of h')) = later
          \<and> delivered contents capacity is_open (unsolicited (session_of h)) (map unsolicited_of rs) (unsolicited (session_of h'))
        else
          (\<forall>more sc. (\<forall>q \<in> set more. \<not> continues q \<and> \<not> refuses tag q) \<longrightarrow>
             later = responses more @ sc \<longrightarrow> sc = [] \<or> hd sc = None \<longrightarrow>
             r = (if sc = [] then Pending else Err (Io (Io_Error Kind_ConnectionRefused (Text []))))
             \<and> incoming (conn (session_of h')) = tl sc
             \<and> delivered contents capacity is_open (unsolicited (session_of h))
                 (map unsolicited_of (rs @ d # more)) (unsolicited (session_of h'))))"
proof -
  let ?c = "unsolicited (session_of h)" and ?loop = "idle_init_loop K tag"
  obtain r sc' c' where run: "?loop (incoming (conn (session_of h))) ?c = (r, sc', c')" by (metis prod.exhaust)
  obtain h' where h': "idle_init T K h = (r, h')" "idle_id h' = Some tag" "incoming (conn (session_of h')) = sc'"
    "written (inner (stream (conn (session_of h')))) = written (inner (stream (conn (session_of h)))) @ tag @ '' IDLE'' @ [CR, LF]"
    "unsolicited (session_of h') = c'"
    using idle_init_eq [OF assms(1,4) run] by blast
  show ?thesis
  proof (cases "st = Status_Bad")
    case True
    obtain c1 where c1: "?loop (responses rs @ Some (Inr d) # later) ?c = ?loop (Some (Inr d) # later) c1"
      "delivered contents capacity is_open ?c (map unsolicited_of rs) c1"
      using idle_init_skip [OF assms(2,3,6)] by blast
    from c1(1) True assms(5,7) run have "r = (case info of
        None \<Rightarrow> Panic ''called `Option::unwrap()` on a `None` value''
      | Some text \<Rightarrow> Err (Io (Io_Error Kind_ConnectionRefused (Text text))))" "sc' = later" "c' = c1"
      by (auto split: option.splits)
    with True h' c1(2) show ?thesis by simp
  next
    case False
    have "r = (if sc = [] then Pending else Err (Io (Io_Error Kind_ConnectionRefused (Text []))))
        \<and> sc' = tl sc \<and> delivered contents capacity is_open ?c (map unsolicited_of (rs @ d # more)) c'"
      if "\<forall>q \<in> set more. \<not> continues q \<and> \<not> refuses tag q" "later = responses more @ sc" "sc = [] \<or> hd sc = None" for more sc
    proof -
      have "\<forall>q \<in> set (rs @ d # more). \<not> continues q \<and> \<not> refuses tag q"
        using assms(6,7) that(1) False by (auto simp: continues_def refuses_def)
      from idle_init_skip [OF assms(2,3) this, of sc] obtain c2 where
        c2: "?loop (responses (rs @ d # more) @ sc) ?c = ?loop sc c2"
        "delivered contents capacity is_open ?c (map unsolicited_of (rs @ d # more)) c2" by blast
      have "?loop (responses (rs @ d # more) @ sc) ?c = (r, sc', c')" using run assms(5) that(2) by simp
      with c2 have "?loop sc c2 = (r, sc', c')" by (simp only:)
      with that(3) c2(2) show ?thesis by (cases sc) auto
    qed
    with False h' show ?thesis by auto
  qed
qed

theorem idle_init_completion_witness:
  "(\<exists>h'. idle_init mock_transport fifo_ops (sample_handle (responses [exists_4, sample (R_Done ''A0001'' Status_Bad None None), exists_4]))
       = (Panic ''called `Option::unwrap()` on a `None` value'', h')
     \<and> incoming (conn (session_of h')) = [Some (Inr exists_4)] \<and> fifo_queue (unsolicited (session_of h')) = [U_Exists 4])
   \<and> fst (idle_init mock_transport fifo_ops (sample_handle (responses [exists_4, done_no, exists_4]))) = Pending"
proof -
  let ?bad = "sample (R_Done ''A0001'' Status_Bad None None)"
  let ?h = "\<lambda>d. sample_handle (responses [exists_4, d, exists_4])"
  note completion = idle_init_completion [OF mock_commands.command_sink_axioms fifo_contract, of _ _ _ "[exists_4]" _ "[Some (Inr exists_4)]"]
  note sample = sample_handle_defs sample_defs continues_def refuses_def delivered_def
  obtain cn where "run_command mock_transport ''IDLE'' (conn (session_of (?h ?bad))) = (Ok ''A0001'', cn)"
    using sample_handle_run by blast
  from completion [OF _ this, of ?bad Status_Bad None None]
  have "\<exists>h'. idle_init mock_transport fifo_ops (?h ?bad) = (Panic ''called `Option::unwrap()` on a `None` value'', h')
      \<and> incoming (conn (session_of h')) = [Some (Inr exists_4)] \<and> fifo_queue (unsolicited (session_of h')) = [U_Exists 4]"
    by (auto simp: sample)
  moreover obtain cn' where "run_command mock_transport ''IDLE'' (conn (session_of (?h done_no))) = (Ok ''A0001'', cn')"
    using sample_handle_run by blast
  from completion [OF _ this, of done_no Status_No None None]
  have "fst (idle_init mock_transport fifo_ops (?h done_no)) = Pending"
    by (auto simp: sample dest!: spec [of _ "[exists_4]"])
  ultimately show ?thesis by blast
qed

text \<open>
  C30: waiting passes over keepalives and continuations, hands completions over, and returns the
  first other response as new data, with everything behind it unread; when the time elapses or
  the wait is interrupted first it says so and takes nothing; and the end of the connection is
  reported like a manual interrupt.
\<close>

theorem idle_wait_run:
  assumes "channel_contract K contents capacity is_open" and "is_open (unsolicited (session_of h))"
    and "idle_id h = Some tag" and "\<forall>r \<in> set rs. passes r"
    and "incoming (conn (session_of h)) = responses rs @ t # sc"
    and "ev = Stream_Answers \<longrightarrow> t = None \<or> (\<exists>r. t = Some (Inr r) \<and> \<not> passes r)"
  shows "\<exists>h'. idle_wait_with_timeout K (replicate (length rs) Stream_Answers @ [ev]) h =
           (Ok (case ev of
              Time_Elapsed \<Rightarrow> Timeout
            | Interrupted \<Rightarrow> ManualInterrupt
            | Stream_Answers \<Rightarrow> (case t of Some (Inr r) \<Rightarrow> NewData r | _ \<Rightarrow> ManualInterrupt)), h')
     \<and> incoming (conn (session_of h')) = (if ev = Stream_Answers then sc else t # sc)
     \<and> delivered contents capacity is_open (unsolicited (session_of h))
         (map unsolicited_of (filter is_done rs)) (unsolicited (session_of h'))"
proof -
  obtain c' where c': "idle_wait_loop K (replicate (length rs) Stream_Answers @ [ev]) (responses rs @ t # sc) (unsolicited (session_of h)) =
      idle_wait_loop K [ev] (t # sc) c'"
    "delivered contents capacity is_open (unsolicited (session_of h)) (map unsolicited_of (filter is_done rs)) c'"
    using idle_wait_skip [OF assms(1,2,4)] by blast
  have "idle_wait_loop K [ev] (t # sc) c' =
      (Ok (case ev of
              Time_Elapsed \<Rightarrow> Timeout
            | Interrupted \<Rightarrow> ManualInterrupt
            | Stream_Answers \<Rightarrow> (case t of Some (Inr r) \<Rightarrow> NewData r | _ \<Rightarrow> ManualInterrupt)),
       if ev = Stream_Answers then sc else t # sc, c')"
  proof (cases ev)
    case Stream_Answers
    with assms(6) consider "t = None" | r where "t = Some (Inr r)" "\<not> passes r" by blast
    then show ?thesis
    proof cases
      case 1
      with Stream_Answers show ?thesis by simp
    next
      case 2
      with Stream_Answers show ?thesis by (simp add: idle_wait_new del: idle_wait_loop.simps)
    qed
  qed simp_all
  with c' assms(3,5) show ?thesis
    by (simp add: idle_wait_with_timeout_def on_session_def parse_answers_def on_incoming_def del: idle_wait_loop.simps)
qed

theorem idle_wait_run_witness:
  "\<exists>h'. idle_wait_with_timeout fifo_ops [Stream_Answers, Stream_Answers]
        ((sample_handle [Some (Inr (sample (R_Data Status_Ok None None))), Some (Inr exists_4)])\<lparr>idle_id := Some ''A0001''\<rparr>) =
      (Ok (NewData exists_4), h') \<and> incoming (conn (session_of h')) = []"
  using idle_wait_run [OF fifo_contract, of "(sample_handle [Some (Inr (sample (R_Data Status_Ok None None))), Some (Inr exists_4)])\<lparr>idle_id := Some ''A0001''\<rparr>"
      "''A0001''" "[sample (R_Data Status_Ok None None)]" "Some (Inr exists_4)" "[]" Stream_Answers]
  by (auto simp: sample_handle_defs sample_defs passes_def delivered_def simp del: idle_wait_loop.simps)

text \<open>
  C31: ending the idle state sends \<open>DONE\<close> without a tag and then waits for the completion of the
  \<open>IDLE\<close> command: with \<open>OK\<close> the session comes back with the answers behind it unread and the
  others handed over; a handle that was never started panics and sends nothing.
\<close>

theorem idle_done_run:
  assumes "command_sink T written" and "reliable T" and "channel_contract K contents capacity is_open"
    and "is_open (unsolicited (session_of h))"
    and "incoming (conn (session_of h)) = responses rs @ Some (Inr d) # sc"
    and "\<forall>r \<in> set rs. \<not> completes tag r" and "\<forall>r \<in> set rs. done_failure r = None"
    and "parsed d = R_Done tag st code info"
  shows "is_panic (idle_done T K (h\<lparr>idle_id := None\<rparr>))
     \<and> (case check_status_ok st code info of
          Ok _ \<Rightarrow> (\<exists>s'. idle_done T K (h\<lparr>idle_id := Some tag\<rparr>) = Ok s' \<and> incoming (conn s') = sc
            \<and> written (inner (stream (conn s'))) = written (inner (stream (conn (session_of h)))) @ ''DONE'' @ [CR, LF]
            \<and> delivered contents capacity is_open (unsolicited (session_of h)) (map unsolicited_of rs) (unsolicited s'))
        | Err e \<Rightarrow> idle_done T K (h\<lparr>idle_id := Some tag\<rparr>) = Err e
        | _ \<Rightarrow> False)"
proof -
  let ?s = "session_of h"
  have "completes tag d" using assms(8) by (simp add: completes_iff)
  from check_done.run_keep_complete [OF assms(3,4,6,7) this, where sc = sc]
  obtain c' where c': "check_done_ok (Some K) tag (incoming (conn ?s)) (unsolicited ?s) = (check_status_ok st code info, sc, c')"
    "delivered contents capacity is_open (unsolicited ?s) (map unsolicited_of rs) c'"
    by (auto simp: done_result_Done [OF assms(8)] assms(5))
  obtain cn where cn: "run_command_untagged T ''DONE'' (conn ?s) = (Ok (), cn)"
    "written (inner (stream cn)) = written (inner (stream (conn ?s))) @ ''DONE'' @ [CR, LF]"
    "incoming cn = incoming (conn ?s)"
    using command_sink.run_command_untagged_total [OF assms(1,2)] by blast
  have run: "bind_out (session_run_command_untagged T ''DONE'' ?s) (\<lambda>_ s. parse_answers (check_done_ok (Some K) tag) s) =
      (check_status_ok st code info, ?s\<lparr>conn := cn\<lparr>incoming := sc\<rparr>, unsolicited := c'\<rparr>)"
    using c'(1) cn by (simp add: session_run_command_untagged_def on_conn_def parse_answers_def on_incoming_def)
  have "is_panic (idle_done T K (h\<lparr>idle_id := None\<rparr>))" by (simp add: idle_done_def)
  then show ?thesis
    using run c'(2) cn(2) by (cases st) (simp_all add: idle_done_def check_status_ok_def)
qed

theorem idle_done_run_witness:
  "\<exists>s'. idle_done mock_transport fifo_ops ((sample_handle [Some (Inr exists_4), Some (Inr done_ok), None])\<lparr>idle_id := Some ''A0001''\<rparr>) = Ok s'
     \<and> incoming (conn s') = [None] \<and> written_buf (inner (stream (conn s'))) = ''DONE'' @ [CR, LF]"
  using idle_done_run [OF mock_commands.command_sink_axioms mock_reliable fifo_contract,
      of "sample_handle [Some (Inr exists_4), Some (Inr done_ok), None]" "[exists_4]" done_ok "[None]" "''A0001''" Status_Ok None None]
  by (auto simp: sample_handle_defs sample_defs done_failure_def check_status_ok_def ImapStream_new_def MockStream_default_def)

section \<open>The loops are parsers of answers\<close>

interpretation init_answers: answer_parser "idle_init_loop K tag" K for K tag
proof
  fix contents capacity is_open and c :: 'a and sc r sc' c'
  assume K: "channel_contract K contents capacity is_open"
  show "is_open c \<Longrightarrow> idle_init_loop K tag sc c = (r, sc', c') \<Longrightarrow> hands_over contents capacity is_open sc c sc' c'"
  proof (induction sc arbitrary: c)
    case Nil
    then show ?case by auto
  next
    case (Cons t sc)
    consider "t = None" | e where "t = Some (Inl e)" | q where "t = Some (Inr q)" "continues q"
      | q where "t = Some (Inr q)" "refuses tag q" | q where "t = Some (Inr q)" "\<not> continues q" "\<not> refuses tag q"
      by (metis option.exhaust sum.exhaust)
    then show ?case
    proof cases
      case (5 q)
      with Cons.prems(2) have "after (handle_unilateral K q c) sc (\<lambda>_ c'. idle_init_loop K tag sc c') = (r, sc', c')"
        by (simp only: 5(1) idle_init_other [OF 5(2,3)])
      then show ?thesis unfolding 5(1)
        by (rule hands_over_after [OF K Cons.prems(1)]) (rule Cons.IH)
    qed (use Cons.prems in \<open>auto simp: continues_def refuses_def split: response.splits option.splits if_splits\<close>)
  qed
qed

interpretation wait_answers: answer_parser "idle_wait_loop K evs" K for K evs
proof
  fix contents capacity is_open and c :: 'a and sc r sc' c'
  show "channel_contract K contents capacity is_open \<Longrightarrow> is_open c \<Longrightarrow> idle_wait_loop K evs sc c = (r, sc', c') \<Longrightarrow>
      hands_over contents capacity is_open sc c sc' c'"
    by (induction K evs sc c rule: idle_wait_loop.induct)
      (auto intro: hands_over_Cons hands_over_after split: response.splits status.splits)
qed

end
