(* ===== verification/Session_Invariant.thy ===== *)
theory Session_Invariant
  imports Idle
begin

text \<open>
  The life of a session as a transition system: the user calls methods, polls streams, idles and
  takes unsolicited responses out of the channel, while answers of the server arrive.  The
  invariant says that the channel stays open and bounded, that every answer is read once and in
  order, and that what reaches the user through the channel is taken from these answers in order.
  A further step, \<open>close_receiver\<close>, lets the user close the channel or replace its receiver; then a
  panic is possible, and it is characterised.
\<close>

named_theorems steady_intros

section \<open>Operations that keep the promise\<close>

definition session_hands_over :: "('c \<Rightarrow> 'x unsolicited_response list) \<Rightarrow> ('c \<Rightarrow> nat) \<Rightarrow> ('c \<Rightarrow> bool)
    \<Rightarrow> ('r, 'x, 'c) session \<Rightarrow> ('r, 'x, 'c) session \<Rightarrow> bool" where
  "session_hands_over contents capacity is_open s s' \<longleftrightarrow>
     hands_over contents capacity is_open (incoming (conn s)) (unsolicited s)
       (incoming (conn s')) (unsolicited s')"

definition steady :: "('c \<Rightarrow> 'x unsolicited_response list) \<Rightarrow> ('c \<Rightarrow> nat) \<Rightarrow> ('c \<Rightarrow> bool)
    \<Rightarrow> (('r, 'x, 'c) session \<Rightarrow> ('a, 'x error) outcome \<times> ('r, 'x, 'c) session) \<Rightarrow> bool" where
  "steady contents capacity is_open f \<longleftrightarrow>
     (\<forall>s. is_open (unsolicited s) \<longrightarrow> session_hands_over contents capacity is_open s (snd (f s)))"

lemma session_hands_over_refl: "is_open (unsolicited s) \<Longrightarrow> session_hands_over contents capacity is_open s s"
  by (simp add: session_hands_over_def)

lemma steadyD:
  "steady contents capacity is_open f \<Longrightarrow> is_open (unsolicited s) \<Longrightarrow>
     session_hands_over contents capacity is_open s (snd (f s))"
  by (simp add: steady_def)

lemma steady_return [steady_intros]: "steady contents capacity is_open (Pair r)"
  by (simp add: steady_def session_hands_over_def)

lemma steady_bind [steady_intros]:
  fixes f :: "('r, 'x, 'c) session \<Rightarrow> ('a, 'x error) outcome \<times> ('r, 'x, 'c) session"
  assumes "steady contents capacity is_open f" and "\<And>a. steady contents capacity is_open (g a)"
  shows "steady contents capacity is_open (\<lambda>s. bind_out (f s) g)"
  unfolding steady_def
proof (intro allI impI)
  fix s :: "('r, 'x, 'c) session"
  assume op: "is_open (unsolicited s)"
  note f = steadyD [OF assms(1) op]
  show "session_hands_over contents capacity is_open s (snd (bind_out (f s) g))"
  proof (cases "\<exists>a. fst (f s) = Ok a")
    case True
    then obtain a s1 where a: "f s = (Ok a, s1)" by (metis prod.collapse)
    with f have "session_hands_over contents capacity is_open s s1" by simp
    moreover from this have "is_open (unsolicited s1)"
      unfolding session_hands_over_def by (rule hands_over_open)
    ultimately show ?thesis
      using steadyD [OF assms(2), of s1 a] a
      unfolding session_hands_over_def by (metis bind_out.simps(1) hands_over_trans)
  next
    case False
    then have "snd (bind_out (f s) g) = snd (f s)"
      using bind_out_fst_not_Ok [of "f s" g] by auto
    with f show ?thesis by simp
  qed
qed

lemma steady_validate [steady_intros]:
  assumes "\<And>q. steady contents capacity is_open (g q)"
  shows "steady contents capacity is_open (\<lambda>s. bind_out (validate_str m, s) g)"
  by (rule steady_bind [OF steady_return assms])

text \<open>Operations that only write.\<close>

lemma steady_on_conn:
  assumes "\<And>cn. incoming (snd (f cn)) = incoming cn"
  shows "steady contents capacity is_open (on_conn f)"
  using assms by (simp add: steady_def session_hands_over_def on_conn_def case_prod_beta)

lemma incoming_on_stream [simp]: "incoming (snd (on_stream f cn)) = incoming cn"
  by (simp add: on_stream_def case_prod_beta)

lemma incoming_bind_out:
  assumes "incoming (snd p) = incoming cn" and "\<And>a cn'. incoming (snd (g a cn')) = incoming cn'"
  shows "incoming (snd (bind_out p g)) = incoming cn"
  using assms by (cases "(p, g)" rule: bind_out.cases) (auto simp del: bind_out.simps simp add: bind_out.simps)

lemma incoming_run_command [simp]: "incoming (snd (run_command T command cn)) = incoming cn"
  by (auto simp: run_command_def split: prod.split intro!: incoming_bind_out)

lemma incoming_run_command_untagged [simp]: "incoming (snd (run_command_untagged T command cn)) = incoming cn"
  by (auto simp: run_command_untagged_def intro!: incoming_bind_out)

lemma steady_run_command [steady_intros]:
  "steady contents capacity is_open (session_run_command T command)"
  unfolding session_run_command_def by (rule steady_on_conn) simp

lemma steady_run_command_untagged [steady_intros]:
  "steady contents capacity is_open (session_run_command_untagged T command)"
  unfolding session_run_command_untagged_def by (rule steady_on_conn) simp

lemma steady_write_content [steady_intros]:
  "steady contents capacity is_open (on_conn (write_content T content))"
  by (rule steady_on_conn) (simp add: write_content_def)

lemma steady_flush [steady_intros]: "steady contents capacity is_open (on_conn (on_stream f))"
  by (rule steady_on_conn) simp

lemma steady_read_response [steady_intros]: "steady contents capacity is_open session_read_response"
  by (auto simp: steady_def session_hands_over_def session_read_response_def on_conn_def read_response_def
      split: prod.split list.split)

text \<open>Parsers of answers.\<close>

context answer_parser
begin

lemma steady_parse_answers:
  "channel_contract K contents capacity is_open \<Longrightarrow> steady contents capacity is_open (parse_answers parse)"
  by (auto simp: steady_def session_hands_over_def parse_answers_def on_incoming_def parse_hands_over
      split: prod.split)

end

lemmas parser_defs = parse_capabilities_def parse_ids_def parse_metadata_def parse_get_quota_def
  parse_get_quota_root_def parse_id_def parse_mailbox_def parse_status_def

lemma steady_parsers [steady_intros]:
  assumes "channel_contract K contents capacity is_open"
  shows "steady contents capacity is_open (parse_answers (parse_noop K tag))"
    and "steady contents capacity is_open (parse_answers (parse_capabilities K tag))"
    and "steady contents capacity is_open (parse_answers (parse_ids K tag))"
    and "steady contents capacity is_open (parse_answers (parse_metadata K mbox tag))"
    and "steady contents capacity is_open (parse_answers (parse_get_quota K tag))"
    and "steady contents capacity is_open (parse_answers (parse_get_quota_root K tag))"
    and "steady contents capacity is_open (parse_answers (parse_id K tag))"
    and "steady contents capacity is_open (parse_answers (parse_mailbox K tag))"
    and "steady contents capacity is_open (parse_answers (parse_status K mbox tag))"
    and "steady contents capacity is_open (parse_answers (check_done_ok (Some K) tag))"
    and "steady contents capacity is_open (parse_answers (idle_init_loop K tag))"
    and "steady contents capacity is_open (parse_answers (idle_wait_loop K evs))"
    and "steady contents capacity is_open (parse_answers (poll_stream (names_item K, tag, ended)))"
    and "steady contents capacity is_open (parse_answers (poll_stream (fetches_item K, tag, ended)))"
    and "steady contents capacity is_open (parse_answers (poll_stream (expunge_item K, tag, ended)))"
  unfolding parser_defs [abs_def]
  by (rule noop.answers.steady_parse_answers capabilities.answers.steady_parse_answers
      ids.answers.steady_parse_answers metadata.answers.steady_parse_answers
      get_quota.answers.steady_parse_answers get_quota_root.answers.steady_parse_answers
      server_id.answers.steady_parse_answers mailbox.answers.steady_parse_answers
      status.answers.steady_parse_answers check_done.answers.steady_parse_answers
      init_answers.steady_parse_answers wait_answers.steady_parse_answers
      name_stream.answers.steady_parse_answers fetch_stream.answers.steady_parse_answers
      expunge_stream.answers.steady_parse_answers, rule assms)+

section \<open>The methods of a session\<close>

lemma session_run_command_and_check_ok_bind:
  "session_run_command_and_check_ok T K command =
     (\<lambda>s. bind_out (session_run_command T command s) (\<lambda>tag. parse_answers (check_done_ok (Some K) tag)))"
  by (auto simp: session_run_command_and_check_ok_def run_command_and_check_ok_def session_run_command_def
      on_conn_def parse_answers_def on_incoming_def fun_eq_iff split: prod.split outcome.split)

lemma steady_run_command_and_check_ok [steady_intros]:
  assumes "channel_contract K contents capacity is_open"
  shows "steady contents capacity is_open (session_run_command_and_check_ok T K command)"
  unfolding session_run_command_and_check_ok_bind by (intro steady_intros assms)

lemma steady_append_content [steady_intros]:
  "steady contents capacity is_open (append_content T content)"
  unfolding append_content_def [abs_def] by (intro steady_intros)

lemma steady_append [steady_intros]:
  fixes T :: "('r, 'x) transport"
  shows "steady contents capacity is_open (append_message T m content)"
  unfolding append_message_def [abs_def]
proof (intro steady_bind steady_run_command steady_read_response)
  fix answer :: "'x item option"
  have content: "steady contents capacity is_open (\<lambda>s. append_content T content s)"
    by (rule steady_append_content)
  show "steady contents capacity is_open (\<lambda>s. case answer of
         Some (Inr res) \<Rightarrow>
           (case parsed res of
              R_Continue code information \<Rightarrow> append_content T content s
            | _ \<Rightarrow> (Err Append, s))
       | Some (Inl err) \<Rightarrow> (Err (Io err), s)
       | None \<Rightarrow> (Err Append, s))"
  proof (cases answer)
    case None
    then show ?thesis by (simp add: steady_return)
  next
    case (Some i)
    show ?thesis
    proof (cases i)
      case (Inl e)
      with Some show ?thesis by (simp add: steady_return)
    next
      case (Inr res)
      with Some content show ?thesis by (cases "parsed res") (simp_all add: steady_return)
    qed
  qed
qed

lemma steady_methods:
  assumes "channel_contract K contents capacity is_open"
  shows "steady contents capacity is_open (select T K m)"
    and "steady contents capacity is_open (select_condstore T K m)"
    and "steady contents capacity is_open (examine T K m)"
    and "steady contents capacity is_open (noop T K)"
    and "steady contents capacity is_open (logout T K)"
    and "steady contents capacity is_open (create T K m)"
    and "steady contents capacity is_open (delete_mailbox T K m)"
    and "steady contents capacity is_open (rename_mailbox T K m n)"
    and "steady contents capacity is_open (subscribe T K m)"
    and "steady contents capacity is_open (unsubscribe T K m)"
    and "steady contents capacity is_open (session_capabilities T K)"
    and "steady contents capacity is_open (check T K)"
    and "steady contents capacity is_open (close_mailbox T K)"
    and "steady contents capacity is_open (copy T K a m)"
    and "steady contents capacity is_open (uid_copy T K a m)"
    and "steady contents capacity is_open (mv T K a m)"
    and "steady contents capacity is_open (uid_mv T K a m)"
    and "steady contents capacity is_open (status T K m a)"
    and "steady contents capacity is_open (search T K a)"
    and "steady contents capacity is_open (uid_search T K a)"
    and "steady contents capacity is_open (get_quota T K a)"
    and "steady contents capacity is_open (get_quota_root T K m)"
    and "steady contents capacity is_open (get_metadata T K m a b)"
    and "steady contents capacity is_open (server_id T K ids)"
    and "steady contents capacity is_open (server_id_nil T K)"
    and "steady contents capacity is_open (fetch_messages T K a b)"
    and "steady contents capacity is_open (uid_fetch T K a b)"
    and "steady contents capacity is_open (store T K a b)"
    and "steady contents capacity is_open (uid_store T K a b)"
    and "steady contents capacity is_open (expunge T K)"
    and "steady contents capacity is_open (uid_expunge T K a)"
    and "steady contents capacity is_open (list_mailboxes T K x y)"
    and "steady contents capacity is_open (lsub T K x y)"
  unfolding select_def [abs_def] select_condstore_def [abs_def] examine_def [abs_def] noop_def [abs_def] 
    logout_def [abs_def] create_def [abs_def] delete_mailbox_def [abs_def] rename_mailbox_def [abs_def] 
    subscribe_def [abs_def] unsubscribe_def [abs_def] session_capabilities_def [abs_def] 
    check_def [abs_def] close_mailbox_def [abs_def] copy_def [abs_def] uid_copy_def [abs_def] 
    mv_def [abs_def] uid_mv_def [abs_def] status_def [abs_def] search_def [abs_def] 
    uid_search_def [abs_def] get_quota_def [abs_def] get_quota_root_def [abs_def] 
    get_metadata_def [abs_def] server_id_def [abs_def] server_id_nil_def [abs_def] 
    fetch_messages_def [abs_def] uid_fetch_def [abs_def] store_def [abs_def] uid_store_def [abs_def] 
    expunge_def [abs_def] uid_expunge_def [abs_def] list_mailboxes_def [abs_def] lsub_def [abs_def]
    Let_def
  by (intro steady_intros assms)+

section \<open>Results\<close>

text \<open>
  An operation is sound under \<open>G\<close> when on a session for which \<open>G\<close> holds it panics only because its
  channel is closed and has room, where the panic is the one of \<open>handle_unilateral\<close>; and when on an
  open channel, provided \<open>R\<close>, it returns once an answer has arrived at which the command with the tag
  \<open>w\<close> ends.  Sending a command panics only when the generator of tags overflows.
\<close>

definition answered :: "request_id \<Rightarrow> ('r, 'x, 'c) session \<Rightarrow> bool" where
  "answered tag s \<longleftrightarrow> (\<exists>t \<in> set (incoming (conn s)). finishes tag t)"

definition shut :: "('c, 'm) channel_ops \<Rightarrow> ('c \<Rightarrow> bool) \<Rightarrow> 'c \<Rightarrow> bool" where
  "shut K is_open c \<longleftrightarrow> \<not> is_open c \<and> \<not> ch_is_full K c"

definition sound :: "('c, 'x unsolicited_response) channel_ops \<Rightarrow> ('c \<Rightarrow> bool) \<Rightarrow> bool \<Rightarrow> (('r, 'x, 'c) session \<Rightarrow> bool) \<Rightarrow> (('r, 'x, 'c) session \<Rightarrow> request_id)
    \<Rightarrow> (('r, 'x, 'c) session \<Rightarrow> ('a, 'x error) outcome \<times> ('r, 'x, 'c) session) \<Rightarrow> bool" where
  "sound K is_open R G w f \<longleftrightarrow>
     (\<forall>s. G s \<longrightarrow>
        (\<forall>m. fst (f s) = Panic m \<longrightarrow> m = closed_message \<and> shut K is_open (unsolicited s))
      \<and> (is_open (unsolicited s) \<longrightarrow> R \<longrightarrow> answered (w s) s \<longrightarrow> settled (fst (f s))))"

definition has_tags :: "('r, 'x, 'c) session \<Rightarrow> bool" where
  "has_tags s \<longleftrightarrow> Suc (unat (next_id (request_ids (conn s)))) < 2 ^ 64"

definition next_tag :: "('r, 'x, 'c) session \<Rightarrow> request_id" where
  "next_tag s = format_tag (Suc (unat (next_id (request_ids (conn s)))) mod 10000)"

definition calm_flush :: "('r, 'x) transport \<Rightarrow> bool" where
  "calm_flush T \<longleftrightarrow> (\<forall>r. \<not> is_panic (fst (tr_flush T r)))"

lemma soundD:
  assumes "sound K is_open R G w f" and "G s" and "f s = (r, s')"
  shows "r = Panic m \<Longrightarrow> m = closed_message \<and> shut K is_open (unsolicited s)"
    and "is_open (unsolicited s) \<Longrightarrow> R \<Longrightarrow> answered (w s) s \<Longrightarrow> settled r"
  using assms by (auto simp: sound_def)

text \<open>An operation that never panics.\<close>

lemma soundI:
  assumes "\<And>s. G s \<Longrightarrow> \<not> is_panic (fst (f s))"
    and "\<And>s. G s \<Longrightarrow> is_open (unsolicited s) \<Longrightarrow> R \<Longrightarrow> answered (w s) s \<Longrightarrow> settled (fst (f s))"
  shows "sound K is_open R G w f"
  unfolding sound_def using assms by (metis is_panic.simps(1))

lemma sound_return: "settled r \<Longrightarrow> sound K is_open R G w (Pair r)"
  by (rule soundI) (simp_all add: settled_no_panic)

lemma sound_validate:
  assumes "\<And>q. sound K is_open R G w (g q)"
  shows "sound K is_open R G w (\<lambda>s. bind_out (validate_str m, s) g)"
  using assms by (auto simp: sound_def validate_str_cases)

text \<open>Sending.\<close>

lemma run_command_calm:
  assumes "calm_flush T" and "has_tags s"
  shows "\<not> is_panic (fst (session_run_command T command s))"
  using assms
  by (auto simp: session_run_command_def on_conn_def case_prod_beta run_command_def id_next_def Let_def
      has_tags_def on_stream_def encode_no_panic stream_flush_def calm_flush_def is_panic_bind_out_iff)

lemma run_command_tag:
  assumes "session_run_command T command s = (Ok tag, s')"
  shows "tag = next_tag s \<and> incoming (conn s') = incoming (conn s) \<and> unsolicited s' = unsolicited s"
proof -
  have "tag = next_tag s"
    using assms
    by (auto simp: session_run_command_def on_conn_def run_command_def id_next_def next_tag_def Let_def bind_out_Ok_iff
        unat_succ unat_mod split: prod.splits if_splits)
  moreover have "incoming (snd (run_command T command (conn s))) = incoming (conn s)" by simp
  ultimately show ?thesis
    using assms by (auto simp: session_run_command_def on_conn_def simp del: incoming_run_command split: prod.splits)
qed

lemma run_command_sent:
  fixes T :: "('r, 'x) transport"
  assumes "reliable T" and "has_tags s"
  shows "\<exists>tag s'. session_run_command T command s = (Ok tag, s')"
proof -
  obtain tag g where id: "id_next (request_ids (conn s)) = ((Ok tag, g) :: (request_id, 'x error) outcome \<times> _)"
    using assms(2) id_next_Ok unfolding has_tags_def by blast
  obtain cn1 where "on_stream (encode (tr_write T) (Request (Some tag) command)) ((conn s)\<lparr>request_ids := g\<rparr>) = (Ok (), cn1)"
    using on_stream_encode_total [OF assms(1)] by blast
  moreover obtain cn2 where "on_stream (stream_flush (tr_flush T)) cn1 = (Ok (), cn2)"
    using on_stream_flush_total [OF assms(1)] by blast
  ultimately show ?thesis
    using id by (simp add: session_run_command_def on_conn_def run_command_def)
qed

lemma run_command_settled:
  fixes T :: "('r, 'x) transport"
  assumes "reliable T" and "has_tags s"
  shows "settled (fst (session_run_command T command s))"
  using run_command_sent [OF assms, of command] by auto

lemma sound_run_command_only:
  assumes "calm_flush T"
  shows "sound K is_open (reliable T) has_tags w (session_run_command T command)"
  using assms run_command_calm run_command_settled by (intro soundI) auto

lemma sound_run_command:
  fixes T :: "('r, 'x) transport" and is_open :: "'c \<Rightarrow> bool"
  assumes "calm_flush T" and "\<And>tag. sound K is_open (reliable T) (\<lambda>_. True) (\<lambda>_. tag) (g tag)"
  shows "sound K is_open (reliable T) has_tags next_tag (\<lambda>s. bind_out (session_run_command T command s) g)"
  unfolding sound_def
proof (intro allI impI conjI)
  fix s :: "('r, 'x, 'c) session"
  assume s: "has_tags s"
  obtain res s1 where run: "session_run_command T command s = (res, s1)" by fastforce
  note calm = run_command_calm [OF assms(1) s, of command] and sent = run_command_tag [of T command s]
  {
    fix m
    assume "fst (bind_out (session_run_command T command s) g) = Panic m"
    with run calm obtain tag where tag: "res = Ok tag" "fst (g tag s1) = Panic m" by (cases res) auto
    then obtain s2 where "g tag s1 = (Panic m, s2)" by (metis prod.collapse)
    from soundD(1) [OF assms(2) TrueI this refl] sent run tag(1)
    show "m = closed_message" "shut K is_open (unsolicited s)" by simp_all
  }
  assume rel: "reliable T" and "is_open (unsolicited s)" "answered (next_tag s) s"
  with run run_command_settled [OF rel s, of command] sent assms(2)
  show "settled (fst (bind_out (session_run_command T command s) g))"
    by (cases res) (auto simp: sound_def answered_def)
qed

lemma sound_run_command_untagged:
  assumes "calm_flush T"
  shows "sound K is_open (reliable T) G w (session_run_command_untagged T command)"
proof -
  have "settled (fst (session_run_command_untagged T command s))" if rel: "reliable T" for s
  proof -
    obtain cn1 where "on_stream (encode (tr_write T) (Request None command)) (conn s) = (Ok (), cn1)"
      using on_stream_encode_total [OF rel] by blast
    moreover obtain cn2 where "on_stream (stream_flush (tr_flush T)) cn1 = (Ok (), cn2)"
      using on_stream_flush_total [OF rel] by blast
    ultimately show ?thesis
      by (simp add: session_run_command_untagged_def on_conn_def run_command_untagged_def)
  qed
  with assms show ?thesis
    by (intro soundI) (auto simp: session_run_command_untagged_def on_conn_def case_prod_beta run_command_untagged_def
        on_stream_def encode_no_panic stream_flush_def calm_flush_def is_panic_bind_out_iff)
qed

lemma sound_read_response: "sound K is_open R G w session_read_response"
  by (rule soundI) (auto simp: answered_def session_read_response_def on_conn_def read_response_def
      split: prod.split list.split)

text \<open>Parsers that read on demand.\<close>

context demand_parser
begin

lemma sound_parse_answers:
  assumes K: "channel_contract K contents capacity is_open" and "\<And>t. finishes tag t \<Longrightarrow> ends t"
  shows "sound K is_open R (G :: ('d, 'x, 'c) session \<Rightarrow> bool) (\<lambda>_. tag) (parse_answers parse)"
  unfolding sound_def
proof (intro allI impI conjI)
  fix s :: "('d, 'x, 'c) session"
  obtain r sc c where run: "parse (incoming (conn s)) (unsolicited s) = (r, sc, c)" by (metis prod.exhaust)
  then have res: "fst (parse_answers parse s) = r" by (simp add: parse_answers_def on_incoming_def)
  {
    fix m
    assume "fst (parse_answers parse s) = Panic m"
    with run res parse_settles [OF K _ run] parse_shut [OF K, of "unsolicited s" "incoming (conn s)" m]
    have "m = closed_message \<and> shut K is_open (unsolicited s)"
      unfolding shut_def by (cases "is_open (unsolicited s)") (auto dest: settled_no_panic)
    then show "m = closed_message" "shut K is_open (unsolicited s)" by simp_all
  }
  assume "is_open (unsolicited s)" "answered tag s"
  with parse_settles [OF K _ run] assms(2) res show "settled (fst (parse_answers parse s))"
    by (auto simp: answered_def)
qed

end

lemma sound_parsers:
  assumes "channel_contract K contents capacity is_open"
  shows "sound K is_open R G (\<lambda>_. tag) (parse_answers (parse_noop K tag))"
    and "sound K is_open R G (\<lambda>_. tag) (parse_answers (parse_capabilities K tag))"
    and "sound K is_open R G (\<lambda>_. tag) (parse_answers (parse_ids K tag))"
    and "sound K is_open R G (\<lambda>_. tag) (parse_answers (parse_metadata K mbox tag))"
    and "sound K is_open R G (\<lambda>_. tag) (parse_answers (parse_get_quota K tag))"
    and "sound K is_open R G (\<lambda>_. tag) (parse_answers (parse_get_quota_root K tag))"
    and "sound K is_open R G (\<lambda>_. tag) (parse_answers (parse_id K tag))"
    and "sound K is_open R G (\<lambda>_. tag) (parse_answers (parse_mailbox K tag))"
    and "sound K is_open R G (\<lambda>_. tag) (parse_answers (parse_status K mbox tag))"
    and "sound K is_open R G (\<lambda>_. tag) (parse_answers (check_done_ok (Some K) tag))"
    and "sound K is_open R G (\<lambda>_. tag) (parse_answers (poll_stream (names_item K, tag, ended)))"
    and "sound K is_open R G (\<lambda>_. tag) (parse_answers (poll_stream (fetches_item K, tag, ended)))"
    and "sound K is_open R G (\<lambda>_. tag) (parse_answers (poll_stream (expunge_item K, tag, ended)))"
  unfolding parser_defs [abs_def]
  by (rule noop.answers.sound_parse_answers [OF assms]
      capabilities.answers.sound_parse_answers [OF assms]
      ids.answers.sound_parse_answers [OF assms]
      metadata.answers.sound_parse_answers [OF assms]
      get_quota.answers.sound_parse_answers [OF assms]
      get_quota_root.answers.sound_parse_answers [OF assms]
      server_id.answers.sound_parse_answers [OF assms]
      mailbox.answers.sound_parse_answers [OF assms]
      status.answers.sound_parse_answers [OF assms]
      check_done.answers.sound_parse_answers [OF assms]
      name_stream.answers.sound_parse_answers [OF assms]
      fetch_stream.answers.sound_parse_answers [OF assms]
      expunge_stream.answers.sound_parse_answers [OF assms],
      simp add: poll_ends_def)+

lemma sound_run_command_and_check_ok:
  assumes "channel_contract K contents capacity is_open" and "calm_flush T"
  shows "sound K is_open (reliable T) has_tags next_tag (session_run_command_and_check_ok T K command)"
  unfolding session_run_command_and_check_ok_bind
  by (intro sound_run_command assms(2)) (rule sound_parsers [OF assms(1)])

text \<open>\<open>append\<close> takes two answers; the first is not the completion when the second is awaited.\<close>

lemma append_content_result:
  assumes "calm_flush T"
  shows "\<not> is_panic (fst (append_content T content s))"
    and "reliable T \<Longrightarrow> incoming (conn s) \<noteq> [] \<Longrightarrow> settled (fst (append_content T content s))"
proof -
  have "\<not> is_panic (case answer of Some (Inl err) \<Rightarrow> Err (Io err) | _ \<Rightarrow> Ok ())" for answer
    by (simp split: option.split sum.split)
  with assms show "\<not> is_panic (fst (append_content T content s))"
    by (auto simp: append_content_def is_panic_bind_out_iff on_conn_def case_prod_beta write_content_def on_stream_def
        write_all_no_panic stream_flush_def calm_flush_def session_read_response_def read_response_def split: list.split)
  assume rel: "reliable T" and more: "incoming (conn s) \<noteq> []"
  have content_written: "\<exists>cn'. write_content T b cn = (Ok (), cn') \<and> incoming cn' = incoming cn" for b cn
  proof -
    obtain r where "write_all (tr_write T) b (inner (stream cn)) = (Ok (), r)"
      using rel unfolding reliable_def by (metis prod.collapse)
    then show ?thesis by (simp add: write_content_def on_stream_def)
  qed
  obtain cn1 where "write_content T content (conn s) = (Ok (), cn1)" "incoming cn1 = incoming (conn s)"
    using content_written by blast
  moreover obtain cn2 where "write_content T [CR, LF] cn1 = (Ok (), cn2)" "incoming cn2 = incoming cn1"
    using content_written by blast
  moreover obtain cn3 where flush: "on_stream (stream_flush (tr_flush T)) cn2 = (Ok (), cn3)"
    using on_stream_flush_total [OF rel] by blast
  moreover have "incoming cn3 = incoming cn2"
    using incoming_on_stream [of "stream_flush (tr_flush T)" cn2] flush by simp
  ultimately show "settled (fst (append_content T content s))"
    using more by (auto simp: append_content_def on_conn_def session_read_response_def read_response_def
        neq_Nil_conv split: option.split sum.split)
qed

lemma sound_append_answer:
  assumes "calm_flush T"
  shows "sound K is_open (reliable T) G (\<lambda>_. tag) (\<lambda>s. bind_out (session_read_response s) (\<lambda>answer s.
       case answer of
         Some (Inr res) \<Rightarrow>
           (case parsed res of
              R_Continue code information \<Rightarrow> append_content T content s
            | _ \<Rightarrow> (Err Append, s))
       | Some (Inl err) \<Rightarrow> (Err (Io err), s)
       | None \<Rightarrow> (Err Append, s)))"
  by (rule soundI) (auto simp: session_read_response_def on_conn_def read_response_def answered_def finishes_def
      completes_iff append_content_result(1) [OF assms] intro!: append_content_result(2) [OF assms]
      split: list.split option.split sum.split response.split)

lemma sound_append:
  assumes "calm_flush T"
  shows "sound K is_open (reliable T) has_tags next_tag (append_message T m content)"
  unfolding append_message_def [abs_def] by (intro sound_run_command sound_append_answer assms)

lemma sound_methods:
  assumes "channel_contract K contents capacity is_open" and "calm_flush T"
  shows "sound K is_open (reliable T) has_tags next_tag (select T K m)"
    and "sound K is_open (reliable T) has_tags next_tag (select_condstore T K m)"
    and "sound K is_open (reliable T) has_tags next_tag (examine T K m)"
    and "sound K is_open (reliable T) has_tags next_tag (noop T K)"
    and "sound K is_open (reliable T) has_tags next_tag (logout T K)"
    and "sound K is_open (reliable T) has_tags next_tag (create T K m)"
    and "sound K is_open (reliable T) has_tags next_tag (delete_mailbox T K m)"
    and "sound K is_open (reliable T) has_tags next_tag (rename_mailbox T K m n)"
    and "sound K is_open (reliable T) has_tags next_tag (subscribe T K m)"
    and "sound K is_open (reliable T) has_tags next_tag (unsubscribe T K m)"
    and "sound K is_open (reliable T) has_tags next_tag (session_capabilities T K)"
    and "sound K is_open (reliable T) has_tags next_tag (check T K)"
    and "sound K is_open (reliable T) has_tags next_tag (close_mailbox T K)"
    and "sound K is_open (reliable T) has_tags next_tag (copy T K a m)"
    and "sound K is_open (reliable T) has_tags next_tag (uid_copy T K a m)"
    and "sound K is_open (reliable T) has_tags next_tag (mv T K a m)"
    and "sound K is_open (reliable T) has_tags next_tag (uid_mv T K a m)"
    and "sound K is_open (reliable T) has_tags next_tag (status T K m a)"
    and "sound K is_open (reliable T) has_tags next_tag (search T K a)"
    and "sound K is_open (reliable T) has_tags next_tag (uid_search T K a)"
    and "sound K is_open (reliable T) has_tags next_tag (get_quota T K a)"
    and "sound K is_open (reliable T) has_tags next_tag (get_quota_root T K m)"
    and "sound K is_open (reliable T) has_tags next_tag (get_metadata T K m a b)"
    and "sound K is_open (reliable T) has_tags next_tag (server_id T K ids)"
    and "sound K is_open (reliable T) has_tags next_tag (server_id_nil T K)"
    and "sound K is_open (reliable T) has_tags next_tag (fetch_messages T K a b)"
    and "sound K is_open (reliable T) has_tags next_tag (uid_fetch T K a b)"
    and "sound K is_open (reliable T) has_tags next_tag (store T K a b)"
    and "sound K is_open (reliable T) has_tags next_tag (uid_store T K a b)"
    and "sound K is_open (reliable T) has_tags next_tag (expunge T K)"
    and "sound K is_open (reliable T) has_tags next_tag (uid_expunge T K a)"
    and "sound K is_open (reliable T) has_tags next_tag (list_mailboxes T K x y)"
    and "sound K is_open (reliable T) has_tags next_tag (lsub T K x y)"
  unfolding select_def [abs_def] select_condstore_def [abs_def] examine_def [abs_def] noop_def [abs_def]
    logout_def [abs_def] create_def [abs_def] delete_mailbox_def [abs_def] rename_mailbox_def [abs_def]
    subscribe_def [abs_def] unsubscribe_def [abs_def] session_capabilities_def [abs_def]
    check_def [abs_def] close_mailbox_def [abs_def] copy_def [abs_def] uid_copy_def [abs_def]
    mv_def [abs_def] uid_mv_def [abs_def] status_def [abs_def] search_def [abs_def]
    uid_search_def [abs_def] get_quota_def [abs_def] get_quota_root_def [abs_def]
    get_metadata_def [abs_def] server_id_def [abs_def] server_id_nil_def [abs_def]
    fetch_messages_def [abs_def] uid_fetch_def [abs_def] store_def [abs_def] uid_store_def [abs_def]
    expunge_def [abs_def] uid_expunge_def [abs_def] list_mailboxes_def [abs_def] lsub_def [abs_def]
    Let_def
  by (intro sound_validate sound_run_command sound_run_command_and_check_ok [OF assms] sound_return assms(2),
      (rule sound_parsers [OF assms(1)] | simp)?)+

section \<open>Idling\<close>

lemma idle_init_session:
  "map_prod id session_of (idle_init T K h) =
     bind_out (session_run_command T ''IDLE'' (session_of h)) (\<lambda>tag. parse_answers (idle_init_loop K tag))"
proof -
  obtain r s where "session_run_command T ''IDLE'' (session_of h) = (r, s)" by fastforce
  then show ?thesis by (cases r) (simp_all add: idle_init_def on_session_def split: prod.split)
qed

section \<open>The transition system\<close>

text \<open>How a call came out.\<close>

datatype progress = Returned | Panicked string | Waiting

fun progress_of :: "('a, 'e) outcome \<Rightarrow> progress" where
  "progress_of (Ok a) = Returned"
| "progress_of (Err e) = Returned"
| "progress_of (Panic m) = Panicked m"
| "progress_of Pending = Waiting"

lemma progress_of_iff:
  "progress_of r = Panicked m \<longleftrightarrow> r = Panic m" "progress_of r = Returned \<longleftrightarrow> settled r"
  by (cases r; simp)+

text \<open>
  One step of the user with a session: a method, or one poll of a stream a method returned, with
  the tag of the command whose answers it reads and how it came out.  A method that waits for
  answers that have not arrived leaves the state it leaves when its future is dropped there.
\<close>

inductive method_step :: "('r, 'x) transport \<Rightarrow> ('c, 'x unsolicited_response) channel_ops
    \<Rightarrow> ('r, 'x, 'c) session \<Rightarrow> request_id \<Rightarrow> progress \<Rightarrow> ('r, 'x, 'c) session \<Rightarrow> bool" for T K where
  step_select: "select T K m s = (r, s') \<Longrightarrow> method_step T K s (next_tag s) (progress_of r) s'"
| step_select_condstore: "select_condstore T K m s = (r, s') \<Longrightarrow> method_step T K s (next_tag s) (progress_of r) s'"
| step_examine: "examine T K m s = (r, s') \<Longrightarrow> method_step T K s (next_tag s) (progress_of r) s'"
| step_noop: "noop T K s = (r, s') \<Longrightarrow> method_step T K s (next_tag s) (progress_of r) s'"
| step_logout: "logout T K s = (r, s') \<Longrightarrow> method_step T K s (next_tag s) (progress_of r) s'"
| step_create: "create T K m s = (r, s') \<Longrightarrow> method_step T K s (next_tag s) (progress_of r) s'"
| step_delete_mailbox: "delete_mailbox T K m s = (r, s') \<Longrightarrow> method_step T K s (next_tag s) (progress_of r) s'"
| step_rename_mailbox: "rename_mailbox T K m n s = (r, s') \<Longrightarrow> method_step T K s (next_tag s) (progress_of r) s'"
| step_subscribe: "subscribe T K m s = (r, s') \<Longrightarrow> method_step T K s (next_tag s) (progress_of r) s'"
| step_unsubscribe: "unsubscribe T K m s = (r, s') \<Longrightarrow> method_step T K s (next_tag s) (progress_of r) s'"
| step_session_capabilities: "session_capabilities T K s = (r, s') \<Longrightarrow> method_step T K s (next_tag s) (progress_of r) s'"
| step_check: "check T K s = (r, s') \<Longrightarrow> method_step T K s (next_tag s) (progress_of r) s'"
| step_close_mailbox: "close_mailbox T K s = (r, s') \<Longrightarrow> method_step T K s (next_tag s) (progress_of r) s'"
| step_copy: "copy T K a m s = (r, s') \<Longrightarrow> method_step T K s (next_tag s) (progress_of r) s'"
| step_uid_copy: "uid_copy T K a m s = (r, s') \<Longrightarrow> method_step T K s (next_tag s) (progress_of r) s'"
| step_mv: "mv T K a m s = (r, s') \<Longrightarrow> method_step T K s (next_tag s) (progress_of r) s'"
| step_uid_mv: "uid_mv T K a m s = (r, s') \<Longrightarrow> method_step T K s (next_tag s) (progress_of r) s'"
| step_status: "status T K m a s = (r, s') \<Longrightarrow> method_step T K s (next_tag s) (progress_of r) s'"
| step_search: "search T K a s = (r, s') \<Longrightarrow> method_step T K s (next_tag s) (progress_of r) s'"
| step_uid_search: "uid_search T K a s = (r, s') \<Longrightarrow> method_step T K s (next_tag s) (progress_of r) s'"
| step_get_quota: "get_quota T K a s = (r, s') \<Longrightarrow> method_step T K s (next_tag s) (progress_of r) s'"
| step_get_quota_root: "get_quota_root T K m s = (r, s') \<Longrightarrow> method_step T K s (next_tag s) (progress_of r) s'"
| step_get_metadata: "get_metadata T K m a b s = (r, s') \<Longrightarrow> method_step T K s (next_tag s) (progress_of r) s'"
| step_server_id: "server_id T K ids s = (r, s') \<Longrightarrow> method_step T K s (next_tag s) (progress_of r) s'"
| step_server_id_nil: "server_id_nil T K s = (r, s') \<Longrightarrow> method_step T K s (next_tag s) (progress_of r) s'"
| step_fetch_messages: "fetch_messages T K a b s = (r, s') \<Longrightarrow> method_step T K s (next_tag s) (progress_of r) s'"
| step_uid_fetch: "uid_fetch T K a b s = (r, s') \<Longrightarrow> method_step T K s (next_tag s) (progress_of r) s'"
| step_store: "store T K a b s = (r, s') \<Longrightarrow> method_step T K s (next_tag s) (progress_of r) s'"
| step_uid_store: "uid_store T K a b s = (r, s') \<Longrightarrow> method_step T K s (next_tag s) (progress_of r) s'"
| step_expunge: "expunge T K s = (r, s') \<Longrightarrow> method_step T K s (next_tag s) (progress_of r) s'"
| step_uid_expunge: "uid_expunge T K a s = (r, s') \<Longrightarrow> method_step T K s (next_tag s) (progress_of r) s'"
| step_list_mailboxes: "list_mailboxes T K x y s = (r, s') \<Longrightarrow> method_step T K s (next_tag s) (progress_of r) s'"
| step_lsub: "lsub T K x y s = (r, s') \<Longrightarrow> method_step T K s (next_tag s) (progress_of r) s'"
| step_append: "append_message T m content s = (r, s') \<Longrightarrow> method_step T K s (next_tag s) (progress_of r) s'"
| step_run_command: "session_run_command T command s = (r, s') \<Longrightarrow> method_step T K s (next_tag s) (progress_of r) s'"
| step_run_command_untagged: "session_run_command_untagged T command s = (r, s') \<Longrightarrow> method_step T K s (next_tag s) (progress_of r) s'"
| step_run_command_and_check_ok: "session_run_command_and_check_ok T K command s = (r, s') \<Longrightarrow> method_step T K s (next_tag s) (progress_of r) s'"
| step_read_response: "session_read_response s = (r, s') \<Longrightarrow> method_step T K s tag (progress_of r) s'"
| step_poll_names: "parse_answers (poll_stream (names_item K, tag, ended)) s = (r, s') \<Longrightarrow> method_step T K s tag (progress_of r) s'"
| step_poll_fetches: "parse_answers (poll_stream (fetches_item K, tag, ended)) s = (r, s') \<Longrightarrow> method_step T K s tag (progress_of r) s'"
| step_poll_expunge: "parse_answers (poll_stream (expunge_item K, tag, ended)) s = (r, s') \<Longrightarrow> method_step T K s tag (progress_of r) s'"

text \<open>One step with a handle that idles; \<open>done\<close> gives the session back only when it succeeds.\<close>

inductive idle_step :: "('r, 'x) transport \<Rightarrow> ('c, 'x unsolicited_response) channel_ops
    \<Rightarrow> ('r, 'x, 'c) session \<Rightarrow> ('r, 'x, 'c) session \<Rightarrow> bool" for T K where
  step_idle_init: "idle_step T K (session_of h) (session_of (snd (idle_init T K h)))"
| step_idle_wait: "idle_step T K (session_of h) (session_of (snd (idle_wait_with_timeout K evs h)))"
| step_idle_next: "idle_step T K (session_of h) (session_of (snd (handle_next h)))"
| step_idle_done: "idle_done T K h = Ok s \<Longrightarrow> idle_step T K (session_of h) s"

text \<open>
  The session with its surroundings: all answers that have arrived so far, and the messages the
  user has taken out of the channel.
\<close>

record ('r, 'x, 'c) life =
  current :: "('r, 'x, 'c) session"
  arrived :: "'x script"
  taken_out :: "'x unsolicited_response list"

definition life_start :: "('c, 'x unsolicited_response) channel_ops \<Rightarrow> ('r, 'x) connection \<Rightarrow> ('r, 'x, 'c) life" where
  "life_start K cn = \<lparr>current = Session_new K cn, arrived = incoming cn, taken_out = []\<rparr>"

inductive life_step :: "('r, 'x) transport \<Rightarrow> ('c, 'x unsolicited_response) channel_ops
    \<Rightarrow> ('c \<Rightarrow> 'x unsolicited_response list) \<Rightarrow> ('c \<Rightarrow> nat) \<Rightarrow> ('c \<Rightarrow> bool)
    \<Rightarrow> ('r, 'x, 'c) life \<Rightarrow> ('r, 'x, 'c) life \<Rightarrow> bool" for T K contents capacity is_open where
  use_session: "method_step T K (current l) tag p s \<or> idle_step T K (current l) s \<Longrightarrow>
     life_step T K contents capacity is_open l (l\<lparr>current := s\<rparr>)"
| arrive: "current l = s \<Longrightarrow> life_step T K contents capacity is_open l
     (l\<lparr>current := s\<lparr>conn := (conn s)\<lparr>incoming := incoming (conn s) @ sc\<rparr>\<rparr>, arrived := arrived l @ sc\<rparr>)"
| take_out: "current l = s \<Longrightarrow> contents (unsolicited s) = msg # contents c \<Longrightarrow>
     capacity c = capacity (unsolicited s) \<Longrightarrow> is_open c = is_open (unsolicited s) \<Longrightarrow> life_step T K contents capacity is_open l
     (l\<lparr>current := s\<lparr>unsolicited := c\<rparr>, taken_out := taken_out l @ [msg]\<rparr>)"

definition life_ok :: "('c \<Rightarrow> 'x unsolicited_response list) \<Rightarrow> ('c \<Rightarrow> nat) \<Rightarrow> ('c \<Rightarrow> bool)
    \<Rightarrow> ('r, 'x, 'c) life \<Rightarrow> bool" where
  "life_ok contents capacity is_open l \<longleftrightarrow>
     (let c = unsolicited (current l) in
        is_open c \<and> capacity c = 100 \<and> length (contents c) \<le> 100
      \<and> (\<exists>consumed. arrived l = consumed @ incoming (conn (current l))
           \<and> subseq (taken_out l @ contents c) (offered consumed)))"

text \<open>Every step of the user keeps the promise of the parsers.\<close>

lemma steady_step:
  "steady contents capacity is_open f \<Longrightarrow> is_open (unsolicited s) \<Longrightarrow> f s = (r, s') \<Longrightarrow>
     session_hands_over contents capacity is_open s s'"
  by (metis snd_conv steadyD)

lemma method_step_hands_over:
  assumes K: "channel_contract K contents capacity is_open" and "method_step T K s tag p s'"
    and "is_open (unsolicited s)"
  shows "session_hands_over contents capacity is_open s s'"
  using assms(2)
  by cases (rule steady_step [where is_open = is_open, OF _ assms(3)],
      (rule steady_methods [OF K] steady_append steady_run_command steady_run_command_untagged
        steady_run_command_and_check_ok [OF K] steady_read_response steady_parsers [OF K]), assumption)+

lemma sound_progress:
  assumes "has_tags s" and "sound K is_open R has_tags w f" and "f s = (r, s')"
  shows "(\<forall>m. progress_of r = Panicked m \<longrightarrow> m = closed_message \<and> shut K is_open (unsolicited s))
     \<and> (is_open (unsolicited s) \<longrightarrow> R \<longrightarrow> answered (w s) s \<longrightarrow> progress_of r = Returned)"
  using soundD [OF assms(2,1,3)] by (auto simp: progress_of_iff)

lemma method_step_sound:
  assumes K: "channel_contract K contents capacity is_open" and calm: "calm_flush T"
    and "method_step T K s tag p s'" and tags: "has_tags s"
  shows "(\<forall>m. p = Panicked m \<longrightarrow> m = closed_message \<and> shut K is_open (unsolicited s))
     \<and> (is_open (unsolicited s) \<longrightarrow> reliable T \<longrightarrow> answered tag s \<longrightarrow> p = Returned)"
  using assms(3)
  by cases (hypsubst, rule sound_progress [where is_open = is_open and w = next_tag, OF tags]
        sound_progress [where is_open = is_open and w = "\<lambda>_. tag", OF tags],
      (rule sound_methods [OF K calm] sound_append [OF calm] sound_run_command_only [OF calm]
        sound_run_command_untagged [OF calm] sound_run_command_and_check_ok [OF K calm]
        sound_read_response sound_parsers [OF K]), assumption)+

lemma idle_step_hands_over:
  assumes K: "channel_contract K contents capacity is_open" and "idle_step T K s s'" and "is_open (unsolicited s)"
  shows "session_hands_over contents capacity is_open s s'"
  using assms(2,3)
proof cases
  case (step_idle_init h)
  then have s': "s' = snd (bind_out (session_run_command T ''IDLE'' s) (\<lambda>tag. parse_answers (idle_init_loop K tag)))"
    using idle_init_session [of T K h] by (metis snd_map_prod)
  have "steady contents capacity is_open
      (\<lambda>s. bind_out (session_run_command T ''IDLE'' s) (\<lambda>tag. parse_answers (idle_init_loop K tag)))"
    by (intro steady_intros K)
  from steadyD [OF this assms(3)] show ?thesis by (simp only: s')
next
  case (step_idle_wait h evs)
  then show ?thesis
    using steadyD [OF steady_parsers(12) [OF K] assms(3), of evs] session_hands_over_refl [of is_open, OF assms(3)]
    by (auto simp: idle_wait_with_timeout_def on_session_def split: prod.splits)
next
  case (step_idle_next h)
  then show ?thesis
    using steadyD [where is_open = is_open, OF steady_read_response assms(3)] by (simp add: handle_next_def case_prod_beta)
next
  case (step_idle_done h)
  have "steady contents capacity is_open (\<lambda>s. bind_out (session_run_command_untagged T ''DONE'' s)
      (\<lambda>_ s. parse_answers (check_done_ok (Some K) tag) s))" for tag
    by (intro steady_intros K)
  then have "session_hands_over contents capacity is_open s
      (snd (bind_out (session_run_command_untagged T ''DONE'' s) (\<lambda>_ s. parse_answers (check_done_ok (Some K) tag) s)))" for tag
    using assms(3) unfolding steady_def by blast
  moreover from step_idle_done obtain tag where "bind_out (session_run_command_untagged T ''DONE'' s)
      (\<lambda>_ s. parse_answers (check_done_ok (Some K) tag) s) = (Ok (), s')"
    by (auto simp: idle_done_def split: option.splits prod.splits outcome.splits)
  ultimately show ?thesis by (metis snd_conv)
qed

section \<open>The invariant\<close>

lemma life_ok_start:
  "channel_contract K contents capacity is_open \<Longrightarrow> life_ok contents capacity is_open (life_start K cn)"
  by (auto simp: life_ok_def life_start_def Session_new_def channel_contract_def)

lemma life_step_ok:
  assumes K: "channel_contract K contents capacity is_open"
    and "life_step T K contents capacity is_open l l'" and "life_ok contents capacity is_open l"
  shows "life_ok contents capacity is_open l'"
  using assms(2)
proof cases
  case (use_session tag p s)
  from assms(3) have op: "is_open (unsolicited (current l))" and cap: "capacity (unsolicited (current l)) = 100"
    and len: "length (contents (unsolicited (current l))) \<le> 100"
    by (simp_all add: life_ok_def Let_def)
  from assms(3) obtain before where before: "arrived l = before @ incoming (conn (current l))"
    "subseq (taken_out l @ contents (unsolicited (current l))) (offered before)"
    by (auto simp: life_ok_def Let_def)
  have "session_hands_over contents capacity is_open (current l) s"
    using use_session(2) method_step_hands_over [OF K _ op] idle_step_hands_over [OF K _ op] by blast
  then obtain consumed ms where
    more: "incoming (conn (current l)) = consumed @ incoming (conn s)" "subseq ms (offered consumed)"
    and del: "delivered contents capacity is_open (unsolicited (current l)) ms (unsolicited s)"
    by (auto simp: session_hands_over_def hands_over_def)
  let ?room = "100 - length (contents (unsolicited (current l)))"
  from del cap have "contents (unsolicited s) = contents (unsolicited (current l)) @ take ?room ms"
    by (simp add: delivered_def)
  moreover have "subseq (take ?room ms) (offered consumed)"
    using more(2) by (meson prefix_imp_subseq subseq_order.order_trans take_is_prefix)
  ultimately have "subseq (taken_out l @ contents (unsolicited s)) (offered (before @ consumed))"
    using list_emb_append_mono [OF before(2)] by fastforce
  moreover have "arrived l = (before @ consumed) @ incoming (conn s)"
    using before(1) more(1) by simp
  moreover have "length (contents (unsolicited s)) \<le> 100"
    using len \<open>contents (unsolicited s) = _\<close> by simp
  ultimately show ?thesis
    using del cap unfolding use_session(1) life_ok_def Let_def delivered_def by auto
next
  case (arrive s sc)
  with assms(3) show ?thesis by (auto simp: life_ok_def Let_def)
next
  case (take_out s msg c)
  with assms(3) show ?thesis by (auto simp: life_ok_def Let_def)
qed

lemma life_steps_ok:
  assumes K: "channel_contract K contents capacity is_open"
    and "rtranclp (life_step T K contents capacity is_open) (life_start K cn) l"
  shows "life_ok contents capacity is_open l"
  using assms(2)
  by (induction rule: rtranclp_induct) (auto intro: life_ok_start [OF K] life_step_ok [OF K])

text \<open>
  C3: whatever the user does with a session, short of closing the receiver of the unsolicited
  responses or putting another in its place, and whatever the server sends, in every order, the
  session reads every answer once and in the order of arrival; the channel of unsolicited
  responses never closes and never holds more than 100 messages; and what the user has taken out
  of it, followed by what is still in it, is a subsequence of the unsolicited responses that the
  answers read so far stand for: nothing is invented, duplicated or reordered.
\<close>

theorem session_history:
  assumes "channel_contract K contents capacity is_open"
    and "rtranclp (life_step T K contents capacity is_open) (life_start K cn) l"
  shows "is_open (unsolicited (current l)) \<and> length (contents (unsolicited (current l))) \<le> 100
     \<and> (\<exists>consumed. arrived l = consumed @ incoming (conn (current l))
          \<and> subseq (taken_out l @ contents (unsolicited (current l))) (offered consumed))"
  using life_steps_ok [OF assms] by (simp add: life_ok_def Let_def)

theorem session_history_witness:
  "subseq (fifo_queue (unsolicited (snd (noop mock_transport fifo_ops
       (Session_new fifo_ops (mock_connection [Some (Inr exists_4), Some (Inr done_ok)]))))))
     [U_Exists 4, U_Other done_ok]"
proof -
  let ?l = "life_start fifo_ops (mock_connection [Some (Inr exists_4), Some (Inr done_ok)])"
  let ?s = "snd (noop mock_transport fifo_ops (current ?l))"
  have "life_step mock_transport fifo_ops fifo_queue fifo_capacity (\<lambda>c. \<not> fifo_closed c) ?l (?l\<lparr>current := ?s\<rparr>)"
    by (rule use_session, rule disjI1, rule step_noop) (rule prod.collapse [symmetric])
  from session_history [OF fifo_contract r_into_rtranclp, OF this] obtain consumed
    where "arrived ?l = consumed @ incoming (conn ?s)" "subseq (fifo_queue (unsolicited ?s)) (offered consumed)"
    by (auto simp: life_start_def)
  moreover from this(1) have "prefix (offered consumed) (offered (arrived ?l))" by simp
  ultimately have "subseq (fifo_queue (unsolicited ?s)) (offered (arrived ?l))"
    by (meson prefix_imp_subseq subseq_order.order_trans)
  then show ?thesis by (simp add: life_start_def mock_connection_def unsolicited_of_def sample_defs)
qed

text \<open>
  The receiving end of the channel is a public field.  A user who closes it, or puts another one in
  its place, leaves the session with a closed channel; the flag says whether that has happened.
\<close>

inductive user_step :: "('r, 'x) transport \<Rightarrow> ('c, 'x unsolicited_response) channel_ops
    \<Rightarrow> ('c \<Rightarrow> 'x unsolicited_response list) \<Rightarrow> ('c \<Rightarrow> nat) \<Rightarrow> ('c \<Rightarrow> bool)
    \<Rightarrow> ('r, 'x, 'c) life \<times> bool \<Rightarrow> ('r, 'x, 'c) life \<times> bool \<Rightarrow> bool" for T K contents capacity is_open where
  live: "life_step T K contents capacity is_open l l' \<Longrightarrow> user_step T K contents capacity is_open (l, b) (l', b)"
| close_receiver: "\<not> is_open c \<Longrightarrow> user_step T K contents capacity is_open (l, b)
     (l\<lparr>current := (current l)\<lparr>unsolicited := c\<rparr>\<rparr>, True)"

lemma user_steps_ok:
  assumes K: "channel_contract K contents capacity is_open"
    and "rtranclp (user_step T K contents capacity is_open) (life_start K cn, False) (l, b)"
  shows "b \<or> life_ok contents capacity is_open l"
  using assms(2)
proof (induction l b rule: rtranclp_induct2)
  case refl
  then show ?case by (simp add: life_ok_start [OF K])
next
  case (step l b l' b')
  from step.hyps(2) step.IH show ?case by cases (auto intro: life_step_ok [OF K])
qed

text \<open>
  C4: whatever was done with a session before, and whatever the server sent, a method of it or a poll
  of one of its streams panics for one reason only: the user has closed or replaced the receiver of
  the unsolicited responses, the channel still has room, and \<open>handle_unilateral\<close> finds it closed, with
  its message.  As long as the user leaves the receiver open there is no panic at all.  Two things
  are set aside: the overflow of the counter of tags, after 2^64 commands, and a transport that
  itself panics when it is flushed.
\<close>

theorem session_panics_only_closed:
  assumes "channel_contract K contents capacity is_open" and "calm_flush T"
    and "rtranclp (user_step T K contents capacity is_open) (life_start K cn, False) (l, closed)"
    and "method_step T K (current l) tag p s'"
    and "Suc (unat (next_id (request_ids (conn (current l))))) < 2 ^ 64"
    and "p = Panicked m"
  shows "closed \<and> \<not> is_open (unsolicited (current l)) \<and> \<not> ch_is_full K (unsolicited (current l))
     \<and> m = ''Channel closed unexpectedly''"
proof -
  from method_step_sound [OF assms(1,2,4)] assms(5,6)
  have "m = closed_message" and "shut K is_open (unsolicited (current l))" by (simp_all add: has_tags_def)
  moreover from user_steps_ok [OF assms(1,3)] this(2) have closed by (auto simp: life_ok_def shut_def Let_def)
  ultimately show ?thesis by (simp add: shut_def)
qed

text \<open>Both happen: a session left alone, and one whose receiver was closed before an untagged answer.\<close>

theorem session_panics_only_closed_witness:
  "\<not> is_panic (fst (get_quota mock_transport fifo_ops ''q''
       (Session_new fifo_ops (mock_connection [Some (Inr exists_4), Some (Inr done_ok)]))))
   \<and> (\<exists>m. fst (noop mock_transport fifo_ops ((Session_new fifo_ops (mock_connection [Some (Inr exists_4), Some (Inr done_ok)]))
          \<lparr>unsolicited := (fifo_new 100)\<lparr>fifo_closed := True\<rparr>\<rparr>)) = Panic m
        \<and> m = ''Channel closed unexpectedly'')"
proof -
  let ?l = "life_start fifo_ops (mock_connection [Some (Inr exists_4), Some (Inr done_ok)])"
  let ?c = "(fifo_new 100)\<lparr>fifo_closed := True\<rparr>"
  let ?s = "(current ?l)\<lparr>unsolicited := ?c\<rparr>"
  have calm: "calm_flush mock_transport"
    by (simp add: calm_flush_def mock_transport_def mock_poll_flush_def)
  note start = life_start_def Session_new_def mock_connection_def IdGenerator_new_def
  note only = session_panics_only_closed [OF fifo_contract calm]
  obtain r s where run: "get_quota mock_transport fifo_ops ''q'' (current ?l) = (r, s)" by fastforce
  from only [OF rtranclp.rtrancl_refl step_get_quota [OF run]]
  have "\<not> is_panic r" by (cases r) (auto simp: start progress_of_iff)
  moreover obtain r' s' where run': "noop mock_transport fifo_ops ?s = (r', s')" by fastforce
  have "is_panic r'"
  proof -
    obtain cn where cn: "run_command mock_transport ''NOOP'' (conn (current ?l)) = (Ok ''A0001'', cn)" "incoming cn = incoming (conn (current ?l))"
      using mock_run_command [of "''NOOP''" "[Some (Inr exists_4), Some (Inr done_ok)]"] by (auto simp: life_start_def Session_new_def mock_connection_def)
    then have "is_panic (fst (noop mock_transport fifo_ops ?s))"
      by (simp add: noop_def session_run_command_def on_conn_def parse_answers_def on_incoming_def start
          handle_unilateral_eq send_expect_def fifo_ops_def fifo_new_def sample_defs completes_iff)
    with run' show ?thesis by simp
  qed
  then obtain m where m: "r' = Panic m" by (cases r') auto
  have "user_step mock_transport fifo_ops fifo_queue fifo_capacity (\<lambda>c. \<not> fifo_closed c) (?l, False) (?l\<lparr>current := ?s\<rparr>, True)"
    by (rule close_receiver) simp
  from only [OF r_into_rtranclp, OF this, of "next_tag ?s" "progress_of r'" s' m] step_noop [OF run'] m
  have "m = ''Channel closed unexpectedly''" by (simp add: start)
  ultimately show ?thesis using run run' m by (simp add: life_start_def)
qed

text \<open>
  C5: every method and every poll of a stream returns once the server has answered: over a
  transport that takes what is written, it does not go on waiting when the completion of its
  command, an I/O error or the end of the stream is among the answers that have arrived, in any
  state that the session can get into.
\<close>

theorem session_methods_return:
  assumes "channel_contract K contents capacity is_open" and "reliable T"
    and "rtranclp (life_step T K contents capacity is_open) (life_start K cn) l"
    and "method_step T K (current l) tag p s'"
    and "Suc (unat (next_id (request_ids (conn (current l))))) < 2 ^ 64"
    and "t \<in> set (incoming (conn (current l)))" and "finishes tag t"
  shows "p = Returned"
proof -
  have "calm_flush T" using assms(2) by (simp add: reliable_def calm_flush_def)
  from life_steps_ok [OF assms(1,3)] method_step_sound [OF assms(1) this assms(4)] assms(2,5-7)
  show ?thesis by (auto simp: life_ok_def Let_def has_tags_def answered_def)
qed

theorem session_methods_return_witness:
  "settled (fst (select mock_transport fifo_ops ''INBOX''
       (Session_new fifo_ops (mock_connection [Some (Inr exists_4), Some (Inr done_ok)]))))"
proof -
  let ?l = "life_start fifo_ops (mock_connection [Some (Inr exists_4), Some (Inr done_ok)])"
  obtain r s where run: "select mock_transport fifo_ops ''INBOX'' (current ?l) = (r, s)" by fastforce
  have "next_tag (current ?l) = ''A0001''"
    using mock_id_next by (simp add: next_tag_def life_start_def Session_new_def mock_connection_def id_next_def Let_def IdGenerator_new_def)
  then have "finishes (next_tag (current ?l)) (Some (Inr done_ok))" by (simp add: sample_defs)
  from session_methods_return [OF fifo_contract mock_reliable rtranclp.rtrancl_refl step_select [OF run] _ _ this] run
  show ?thesis by (simp add: life_start_def Session_new_def mock_connection_def IdGenerator_new_def progress_of_iff)
qed

end
