(* ===== verification/End_To_End.thy ===== *)
theory End_To_End
  imports Session
begin

text \<open>
  From bytes to results.  The parsers of answers run on a script; here the script is what
  \<open>poll_next\<close> yields from the bytes of the server, so that the properties of the stream and of
  the parsers compose.
\<close>

section \<open>The script of a stream\<close>

text \<open>The answers of \<open>n\<close> calls of \<open>stream.next().await\<close>, or of those before one that waits.\<close>

fun stream_script :: "(string \<Rightarrow> 'x parse_result) \<Rightarrow> (nat \<Rightarrow> 'r \<Rightarrow> 'x read_result \<times> 'r) \<Rightarrow> nat
    \<Rightarrow> 'r imap_stream \<Rightarrow> 'x script" where
  "stream_script P poll_read 0 s = []"
| "stream_script P poll_read (Suc n) s =
     (case poll_next P poll_read s of
        (Ok t, s') \<Rightarrow> t # stream_script P poll_read n s'
      | _ \<Rightarrow> [])"

text \<open>The stream after \<open>n\<close> calls.\<close>

fun polled :: "(string \<Rightarrow> 'x parse_result) \<Rightarrow> (nat \<Rightarrow> 'r \<Rightarrow> 'x read_result \<times> 'r) \<Rightarrow> nat
    \<Rightarrow> 'r imap_stream \<Rightarrow> 'r imap_stream" where
  "polled P poll_read 0 s = s"
| "polled P poll_read (Suc n) s = polled P poll_read n (snd (poll_next P poll_read s))"

section \<open>Reading on demand\<close>

text \<open>
  A parser that is run on the stream itself.  Whenever it waits, the stream is polled once more and
  the parser resumed with the answer (which is the same as running it again on all answers so
  far); when the stream has to wait as well, or after \<open>n\<close> answers, the future is left waiting.
\<close>

primrec read_on_demand :: "('x script \<Rightarrow> 'c \<Rightarrow> ('a, 'x error) outcome \<times> 'x script \<times> 'c)
    \<Rightarrow> ('s \<Rightarrow> ('x item option, 'x io_error) outcome \<times> 's) \<Rightarrow> nat \<Rightarrow> 'x script \<Rightarrow> 's \<Rightarrow> 'c
    \<Rightarrow> ('a, 'x error) outcome \<times> 's \<times> 'c" where
  "read_on_demand parse poll 0 sofar st c = (case parse sofar c of (r, _, c') \<Rightarrow> (r, st, c'))"
| "read_on_demand parse poll (Suc n) sofar st c =
     (case parse sofar c of
        (Pending, _, c') \<Rightarrow>
          (case poll st of
             (Ok t, st') \<Rightarrow> read_on_demand parse poll n (sofar @ [t]) st' c
           | (Panic m, st') \<Rightarrow> (Panic m, st', c')
           | (_, st') \<Rightarrow> (Pending, st', c'))
      | (r, _, c') \<Rightarrow> (r, st, c'))"

lemma read_settled:
  "parse sofar c = (r, sc', c') \<Longrightarrow> settled r \<Longrightarrow> read_on_demand parse poll n sofar st c = (r, st, c')"
  by (cases n; cases r) simp_all

text \<open>
  A parser that reads on demand gives the same result on the stream as on the script of the stream,
  and leaves the stream exactly behind the answers it has consumed.
\<close>

context demand_parser
begin

lemma waits_before:
  assumes K: "channel_contract K contents capacity is_open" and op: "is_open c"
    and run: "\<And>later. parse (p @ q @ later) c = (r, later, c')" and "q \<noteq> []"
  shows "\<exists>c1. parse p c = (Pending, [], c1)"
proof -
  obtain r1 x c1 where p: "parse p c = (r1, x, c1)" by (cases "parse p c") auto
  from parse_settles [OF K op this] consider "settled r1" | "r1 = Pending" "x = []" by blast
  then show ?thesis
  proof cases
    case 1
    from parse_local [OF K op p this] obtain u where "p = u @ x" "\<And>later. parse (u @ later) c = (r1, later, c1)"
      by blast
    then have "parse (p @ q @ []) c = (r1, x @ q, c1)" by simp
    with run [of "[]"] \<open>q \<noteq> []\<close> show ?thesis by simp
  qed (use p in blast)
qed

lemma read_on_demand_run:
  assumes K: "channel_contract K contents capacity is_open" and op: "is_open c" and "settled r"
  shows "stream_script P poll_read n st = eaten @ sc' \<Longrightarrow> (\<And>later. parse (sofar @ eaten @ later) c = (r, later, c')) \<Longrightarrow>
     read_on_demand parse (poll_next P poll_read) n sofar st c = (r, polled P poll_read (length eaten) st, c')"
proof (induction eaten arbitrary: n sofar st)
  case Nil
  from Nil.prems(2) [of "[]"] assms(3) show ?case by (simp add: read_settled)
next
  case (Cons t eaten)
  from Cons.prems(1) obtain m st' where n: "n = Suc m" and poll: "poll_next P poll_read st = (Ok t, st')"
    and rest: "stream_script P poll_read m st' = eaten @ sc'"
    by (cases n) (auto split: prod.splits outcome.splits)
  obtain c1 where "parse sofar c = (Pending, [], c1)"
    using waits_before [OF K op, of sofar "t # eaten" r c'] Cons.prems(2) by auto
  moreover have "read_on_demand parse (poll_next P poll_read) m (sofar @ [t]) st' c =
      (r, polled P poll_read (length eaten) st', c')"
    using Cons.prems(2) by (intro Cons.IH rest) simp
  ultimately show ?case by (simp add: n poll)
qed

theorem reads_like_script:
  assumes K: "channel_contract K contents capacity is_open" and op: "is_open c"
    and run: "parse (stream_script P poll_read n st) c = (r, sc', c')" and r: "settled r"
  shows "\<exists>k. read_on_demand parse (poll_next P poll_read) n [] st c = (r, polled P poll_read k st, c')
     \<and> drop k (stream_script P poll_read n st) = sc'"
proof -
  from parse_local [OF K op run r] obtain eaten where "stream_script P poll_read n st = eaten @ sc'"
    and "\<And>later. parse (eaten @ later) c = (r, later, c')" by blast
  with read_on_demand_run [OF K op r, of P poll_read n st eaten sc' "[]" c'] show ?thesis
    by (intro exI [of _ "length eaten"]) simp
qed

end

text \<open>A response without the bytes it came from.\<close>

definition bare :: "'x response \<Rightarrow> 'x response_data" where
  "bare r = \<lparr>raw = [], parsed = r\<rparr>"

lemma parsed_bare [simp]: "parsed (bare r) = r"
  by (simp add: bare_def)

lemma next_responses_script:
  "next_responses P poll_read n s = (Some rs, s') \<Longrightarrow>
     (\<exists>ds. stream_script P poll_read n s = responses ds \<and> map parsed ds = rs) \<and> polled P poll_read n s = s'"
proof (induction n arbitrary: s rs)
  case 0
  then show ?case by simp
next
  case (Suc n)
  then obtain d s1 rs' where "poll_next P poll_read s = (Ok (Some (Inr d)), s1)"
    and "next_responses P poll_read n s1 = (Some rs', s')" and "rs = parsed d # rs'"
    by (auto split: prod.splits outcome.splits option.splits sum.splits)
  moreover from Suc.IH [OF this(2)] obtain ds
    where "stream_script P poll_read n s1 = responses ds" "map parsed ds = rs'" "polled P poll_read n s1 = s'" by blast
  ultimately show ?case by (intro conjI exI [of _ "d # ds"]) simp_all
qed

lemma parse_many_length: "parse_many P n bytes = Some (rs, rest) \<Longrightarrow> length rs = n"
  by (induction n arbitrary: bytes rs) (auto split: parse_result.splits)

lemma script_of_bytes:
  assumes "eager_source poll_read unread calm" and "parser_contract P" and "calm r"
    and "length (unread r) < MAX_CAPACITY" and "parse_many P n (unread r) = Some (rs, rest)"
  obtains ds where "stream_script P poll_read n (ImapStream_new r) = responses ds" and "map parsed ds = rs"
    and "stream_bytes unread (polled P poll_read n (ImapStream_new r)) = rest"
proof -
  have "stream_bytes unread (ImapStream_new r) = unread r" and "inner (ImapStream_new r) = r"
    by (simp_all add: stream_bytes_def ImapStream_new_def)
  with eager_source.next_responses_progress [OF assms(1,2) stream_inv_new, of r n rs rest] assms(3-5)
  obtain s' where "next_responses P poll_read n (ImapStream_new r) = (Some rs, s')" "stream_bytes unread s' = rest" by auto
  with next_responses_script [OF this(1)] that show thesis by blast
qed

section \<open>What depends on the parsed responses only\<close>

lemma first_match_map: "first_match f (map h xs) = first_match (f \<circ> h) xs"
  by (induction xs) (auto split: option.split)

lemma last_match_map: "last_match f (map h xs) = last_match (f \<circ> h) xs"
  by (simp add: last_match_def rev_map first_match_map)

lemma map_filter_map: "List.map_filter f (map h xs) = List.map_filter (f \<circ> h) xs"
  by (induction xs) (simp_all add: List.map_filter_simps split: option.split)

lemma bare_parts [simp]:
  "exists_of \<circ> (\<lambda>d. bare (parsed d)) = exists_of" "recent_of \<circ> (\<lambda>d. bare (parsed d)) = recent_of"
  "flags_of \<circ> (\<lambda>d. bare (parsed d)) = flags_of" "permanent_flags_of \<circ> (\<lambda>d. bare (parsed d)) = permanent_flags_of"
  "unseen_of \<circ> (\<lambda>d. bare (parsed d)) = unseen_of" "uid_next_of \<circ> (\<lambda>d. bare (parsed d)) = uid_next_of"
  "uid_validity_of \<circ> (\<lambda>d. bare (parsed d)) = uid_validity_of"
  "highest_modseq_of \<circ> (\<lambda>d. bare (parsed d)) = highest_modseq_of"
  by (simp_all add: fun_eq_iff mailbox_parts)

lemma mailbox_of_parsed: "mailbox_of (map bare (map parsed ds)) = mailbox_of ds"
  by (simp add: mailbox_of_def last_match_map map_filter_map comp_def [of bare])

lemma bare_predicates [simp]:
  "completes tag (bare (parsed d)) = completes tag d" "data_failure (bare (parsed d)) = data_failure d"
  by (simp_all add: completes_iff data_failure_def)

section \<open>A parser for concrete runs\<close>

text \<open>Other responses for the same bytes keep the contract of a parser.\<close>

definition relabel :: "('x response \<Rightarrow> 'x response) \<Rightarrow> (string \<Rightarrow> 'x parse_result) \<Rightarrow> string \<Rightarrow> 'x parse_result" where
  "relabel g P s = (case P s of Parsed rem r \<Rightarrow> Parsed rem (g r) | p \<Rightarrow> p)"

lemma relabel_cases:
  "relabel g P s = Parsed rem r \<longleftrightarrow> (\<exists>r0. P s = Parsed rem r0 \<and> r = g r0)"
  "relabel g P s = Incomplete_Size n \<longleftrightarrow> P s = Incomplete_Size n"
  "relabel g P s = Parse_Failure x \<longleftrightarrow> P s = Parse_Failure x"
  "parses (relabel g P) s \<longleftrightarrow> parses P s"
  by (auto simp: relabel_def parses_def split: parse_result.split)

lemma relabel_contract: "parser_contract P \<Longrightarrow> parser_contract (relabel g P)"
  unfolding parser_contract_def relabel_cases by blast

text \<open>Lines of one byte say that there are four messages, all others complete the command.\<close>

definition select_parser :: "string \<Rightarrow> nat parse_result" where
  "select_parser = relabel (\<lambda>r. if r = R_Other 1 then R_MailboxData (MD_Exists 4)
     else R_Done ''A0001'' Status_Ok None None) line_parser"

lemma select_parser_contract: "parser_contract select_parser"
  unfolding select_parser_def by (rule relabel_contract [OF line_parser_contract])

section \<open>The composition\<close>

text \<open>
  C6: \<open>SELECT\<close> from the bytes on, run on the stream itself.  When the bytes of the server parse as
  some responses and then the completion of the command, the command reads exactly these and
  returns what the parsed responses describe, or the error of the completion's status; the bytes
  behind the completion stay unread, and the channel stays open.  How the bytes are cut into reads
  and how often the buffer grows or moves plays no part.
\<close>

theorem select_from_bytes:
  assumes "eager_source poll_read unread calm" and "parser_contract P" and "calm r"
    and "length (unread r) < MAX_CAPACITY"
    and "parse_many P n (unread r) = Some (rs @ [R_Done tag st code info], rest)"
    and "channel_contract K contents capacity is_open" and "is_open c"
    and "\<forall>q \<in> set rs. \<not> completes tag (bare q) \<and> data_failure (bare q) = None"
  shows "\<exists>s' c'. read_on_demand (parse_mailbox K tag) (poll_next P poll_read) n [] (ImapStream_new r) c =
           (case st of
              Status_Ok \<Rightarrow> Ok (mailbox_of (map bare rs))
            | Status_Bad \<Rightarrow> Err (Bad (Code_Info code info))
            | Status_No \<Rightarrow> Err (No (Code_Info code info))
            | Status_Other _ \<Rightarrow> Err (Io (Io_Error Kind_Other (Status_Code_Info st code info))), s', c')
     \<and> stream_bytes unread s' = rest \<and> is_open c'"
proof -
  obtain ds' where script: "stream_script P poll_read n (ImapStream_new r) = responses ds'"
    and parsed: "map parsed ds' = rs @ [R_Done tag st code info]"
    and rest: "stream_bytes unread (polled P poll_read n (ImapStream_new r)) = rest"
    using script_of_bytes [OF assms(1-5)] .
  from parsed obtain ds d where ds: "ds' = ds @ [d]" "map parsed ds = rs" "parsed d = R_Done tag st code info"
    by (auto simp: map_eq_append_conv)
  let ?res = "case st of
              Status_Ok \<Rightarrow> Ok (mailbox_of (map bare rs))
            | Status_Bad \<Rightarrow> Err (Bad (Code_Info code info))
            | Status_No \<Rightarrow> Err (No (Code_Info code info))
            | Status_Other _ \<Rightarrow> Err (Io (Io_Error Kind_Other (Status_Code_Info st code info)))"
  have "\<forall>q \<in> set ds. \<not> completes tag q" and "\<forall>q \<in> set ds. data_failure q = None"
    using assms(8) unfolding ds(2) [symmetric] by auto
  from parse_mailbox_complete [OF assms(6,7) this ds(3), of "[]"] obtain c'
    where run: "parse_mailbox_loop K tag Mailbox_default (responses ds') c = (?res, [], c')" and op: "is_open c'"
    unfolding ds(2) [symmetric] mailbox_of_parsed
    by (auto simp: parse_mailbox_def ds(1) delivered_def)
  have settled: "settled ?res" by (simp split: status.split)
  from mailbox.answers.parse_local [OF assms(6,7) run this]
  have "parse_mailbox_loop K tag Mailbox_default ([] @ responses ds' @ later) c = (?res, later, c')" for later by simp
  with mailbox.answers.read_on_demand_run [OF assms(6,7) settled, of P poll_read n "ImapStream_new r" "responses ds'" "[]" tag Mailbox_default "[]" c']
  have "read_on_demand (parse_mailbox_loop K tag Mailbox_default) (poll_next P poll_read) n [] (ImapStream_new r) c
      = (?res, polled P poll_read (length ds') (ImapStream_new r), c')"
    by (simp add: script)
  moreover have "length ds' = n"
    using parse_many_length [OF assms(5)] parsed by (metis length_map)
  ultimately show ?thesis
    using rest op by (intro exI conjI) (simp_all add: parse_mailbox_def [abs_def])
qed

theorem select_from_bytes_witness:
  "\<exists>s' c'. read_on_demand (parse_mailbox fifo_ops ''A0001'') (poll_next select_parser mock_poll_read) 2 []
      (ImapStream_new (MockStream_new [CHR ''a'', CHR 0x0A, CHR ''b'', CHR ''c'', CHR 0x0A, CHR ''d''])) fresh_channel
    = (Ok (Mailbox_default\<lparr>exists := 4\<rparr>), s', c') \<and> stream_bytes mock_unread s' = ''d''"
proof -
  let ?m = "MockStream_new [CHR ''a'', CHR 0x0A, CHR ''b'', CHR ''c'', CHR 0x0A, CHR ''d'']"
  have m: "mock_unread ?m = [CHR ''a'', CHR 0x0A, CHR ''b'', CHR ''c'', CHR 0x0A, CHR ''d'']" "mock_calm ?m"
    by (simp_all add: mock_unread_def mock_calm_def MockStream_new_def with_buf_def MockStream_default_def)
  have many: "parse_many select_parser 2 (mock_unread ?m) =
      Some ([R_MailboxData (MD_Exists 4)] @ [R_Done ''A0001'' Status_Ok None None], ''d'')"
    by (simp add: m(1) numeral_2_eq_2 select_parser_def relabel_def line_parser_def)
  have small: "length (mock_unread ?m) < MAX_CAPACITY" by (simp add: m(1) MAX_CAPACITY_def)
  have "mailbox_of (map bare [R_MailboxData (MD_Exists 4)]) = Mailbox_default\<lparr>exists := 4\<rparr>"
    by (simp add: mailbox_of_def Mailbox_default_def bare_def mailbox_parts last_match_def List.map_filter_simps)
  then show ?thesis
    using select_from_bytes [OF mock_eager.eager_source_axioms select_parser_contract,
        of ?m 2, OF m(2) small many, OF fifo_contract, of fresh_channel]
    by (auto simp: fresh_channel_def fifo_new_def completes_iff data_failure_def)
qed

end
