(* ===== verification/Session_Triples.thy ===== *)
theory Session_Triples
  imports Idle
begin

text \<open>
  Commands composed.  \<open>session_at\<close> says where a session is: what it has written, how many commands
  it has sent, which answers are still to come.  Each step lemma takes a session from one such
  point to the next, so that a program which uses a session is verified command by command.
\<close>

section \<open>Where a session is\<close>

definition session_at :: "('r \<Rightarrow> string) \<Rightarrow> ('c \<Rightarrow> bool) \<Rightarrow> ('r, 'x, 'c) session \<Rightarrow> string \<Rightarrow> nat \<Rightarrow> 'x script \<Rightarrow> bool" where
  "session_at written is_open s w n sc \<longleftrightarrow>
     written (inner (stream (conn s))) = w \<and> unat (next_id (request_ids (conn s))) = n
   \<and> incoming (conn s) = sc \<and> is_open (unsolicited s)"

text \<open>The line of the \<open>n\<close>-th command of a connection.\<close>

definition command_line :: "nat \<Rightarrow> string \<Rightarrow> string" where
  "command_line n command = format_tag n @ '' '' @ command @ [CR, LF]"

text \<open>A response that completes the \<open>n\<close>-th command.\<close>

definition completion :: "nat \<Rightarrow> 'x status \<Rightarrow> 'x response_data \<Rightarrow> bool" where
  "completion n st d \<longleftrightarrow> (\<exists>code info. parsed d = R_Done (format_tag n) st code info)"

definition answers_before :: "nat \<Rightarrow> ('x response_data \<Rightarrow> 'x error option) \<Rightarrow> 'x response_data list \<Rightarrow> bool" where
  "answers_before n failure rs \<longleftrightarrow> (\<forall>r \<in> set rs. \<not> completes (format_tag n) r \<and> failure r = None)"

lemma completion_completes: "completion n st d \<Longrightarrow> completes (format_tag n) d"
  by (auto simp: completion_def completes_iff)

lemma answers_beforeD:
  assumes "answers_before n failure rs"
  shows "\<forall>r \<in> set rs. \<not> completes (format_tag n) r" and "\<forall>r \<in> set rs. failure r = None"
  using assms by (auto simp: answers_before_def)

lemma session_at_open: "session_at written is_open s w n sc \<Longrightarrow> is_open (unsolicited s)"
  by (simp add: session_at_def)

section \<open>Collecting a stream\<close>

text \<open>
  \<open>try_collect().await\<close>: the elements up to the end of the stream, or the first error among them,
  with which the stream is dropped.
\<close>

function stream_try_collect :: "('x item \<Rightarrow> 'c \<Rightarrow> (('x error + 'n) option, 'x error) outcome \<times> 'c) \<Rightarrow> request_id
    \<Rightarrow> bool \<Rightarrow> 'x script \<Rightarrow> 'c \<Rightarrow> ('n list, 'x error) outcome \<times> 'x script \<times> 'c" where
  "stream_try_collect item tag ended sc c =
     (case response_stream_next item tag ended sc c of
        (Ok None, _, sc', c') \<Rightarrow> (Ok [], sc', c')
      | (Ok (Some (Inl e)), _, sc', c') \<Rightarrow> (Err e, sc', c')
      | (Ok (Some (Inr v)), ended', sc', c') \<Rightarrow>
          (case stream_try_collect item tag ended' sc' c' of
             (Ok vs, s) \<Rightarrow> (Ok (v # vs), s)
           | (r, s) \<Rightarrow> (r, s))
      | (Err e, _, sc', c') \<Rightarrow> (Err e, sc', c')
      | (Panic m, _, sc', c') \<Rightarrow> (Panic m, sc', c')
      | (Pending, _, sc', c') \<Rightarrow> (Pending, sc', c'))"
  by pat_completeness auto
termination
proof (relation "measure (\<lambda>(item, tag, ended, sc, c). length sc)", goal_cases)
  case 1
  show ?case by simp
next
  case 2
  then show ?case by (auto dest!: response_stream_next_shorter [OF sym])
qed

declare stream_try_collect.simps [simp del]

definition try_collect :: "('x, 'c, 'x error + 'n) response_stream \<Rightarrow> ('r, 'x, 'c) session
    \<Rightarrow> ('n list, 'x error) outcome \<times> ('r, 'x, 'c) session" where
  "try_collect st = parse_answers (case st of (item, tag, ended) \<Rightarrow> stream_try_collect item tag ended)"

text \<open>\<open>collect().await\<close>.\<close>

definition collect :: "('x, 'c, 'v) response_stream \<Rightarrow> ('r, 'x, 'c) session
    \<Rightarrow> ('v list, 'x error) outcome \<times> ('r, 'x, 'c) session" where
  "collect st = parse_answers (\<lambda>sc c. case collect_stream st sc c of (r, _, sc', c') \<Rightarrow> (r, sc', c'))"

text \<open>Without an error among the elements both collect the same.\<close>

lemma try_collect_of_collect:
  "stream_collect item tag ended sc c = (Ok (map Inr vs), ended', sc', c') \<Longrightarrow>
     stream_try_collect item tag ended sc c = (Ok vs, sc', c')"
proof (induction item tag ended sc c arbitrary: vs rule: stream_try_collect.induct)
  case (1 item tag ended sc c)
  obtain r ended1 sc1 c1 where nxt: "response_stream_next item tag ended sc c = (r, ended1, sc1, c1)"
    by (metis prod.exhaust)
  show ?case
  proof (cases vs)
    case Nil
    with "1.prems" nxt show ?thesis
      by (subst (asm) stream_collect.simps, subst stream_try_collect.simps)
        (auto split: outcome.splits option.splits prod.splits)
  next
    case (Cons v vs')
    with "1.prems" nxt have "r = Ok (Some (Inr v)) \<and> stream_collect item tag ended1 sc1 c1 = (Ok (map Inr vs'), ended', sc', c')"
      by (subst (asm) stream_collect.simps) (auto split: outcome.splits option.splits prod.splits)
    then have r: "r = Ok (Some (Inr v))"
      and rest: "stream_collect item tag ended1 sc1 c1 = (Ok (map Inr vs'), ended', sc', c')" by simp_all
    from "1.IH" [OF nxt [symmetric] r refl _ _ _ rest] show ?thesis
      by (subst stream_try_collect.simps) (simp add: nxt r Cons)
  qed
qed

section \<open>A user of a session\<close>

text \<open>
  The world in which a program uses a session: a transport that takes every byte, and a channel.
\<close>

locale session_user = command_sink T written
  for T :: "('r, 'x) transport" and written :: "'r \<Rightarrow> string" +
  fixes K :: "('c, 'x unsolicited_response) channel_ops" and contents capacity is_open
  assumes takes_all: "reliable T"
    and channel: "channel_contract K contents capacity is_open"
begin

abbreviation at :: "('r, 'x, 'c) session \<Rightarrow> string \<Rightarrow> nat \<Rightarrow> 'x script \<Rightarrow> bool" where
  "at \<equiv> session_at written is_open"

text \<open>Sending a command.\<close>

lemma run_command_at:
  assumes "unat (next_id (request_ids cn)) = n" and "n < 9999"
  shows "\<exists>cn'. run_command T command cn = (Ok (format_tag (Suc n)), cn')
     \<and> wire cn' = wire cn @ command_line (Suc n) command
     \<and> unat (next_id (request_ids cn')) = Suc n \<and> incoming cn' = incoming cn"
proof -
  let ?g = "request_ids cn" and ?msg = "Request (Some (format_tag (Suc n))) command"
  have room: "Suc (unat (next_id ?g)) < 2 ^ 64" using assms by simp
  have id: "id_next ?g = (Ok (format_tag (Suc n)) :: (request_id, 'x error) outcome, ?g\<lparr>next_id := next_id ?g + 1\<rparr>)"
    using id_next_Ok [OF room] assms by simp
  obtain cn1 where cn1: "on_stream (encode (tr_write T) ?msg) (cn\<lparr>request_ids := ?g\<lparr>next_id := next_id ?g + 1\<rparr>\<rparr>) = (Ok (), cn1)"
    "wire cn1 = wire cn @ request_bytes ?msg" "incoming cn1 = incoming cn" "request_ids cn1 = ?g\<lparr>next_id := next_id ?g + 1\<rparr>"
    using encode_wire [OF takes_all, of ?msg "cn\<lparr>request_ids := ?g\<lparr>next_id := next_id ?g + 1\<rparr>\<rparr>"] by auto
  obtain cn2 where cn2: "on_stream (stream_flush (tr_flush T)) cn1 = (Ok (), cn2)" "wire cn2 = wire cn1"
    "incoming cn2 = incoming cn1" "request_ids cn2 = request_ids cn1"
    using flush_wire [OF takes_all] by blast
  have "run_command T command cn = (Ok (format_tag (Suc n)), cn2)"
    using id cn1(1) cn2(1) by (simp add: run_command_def)
  moreover have "unat (next_id ?g + 1) = Suc n"
    using assms room by (simp add: unat_word_ariths)
  ultimately show ?thesis
    using cn1 cn2 by (simp add: request_bytes_def command_line_def)
qed

lemma command_step:
  assumes "at s w n sc" and "n < 9999"
  shows "\<exists>s'. session_run_command T command s = (Ok (format_tag (Suc n)), s')
     \<and> at s' (w @ command_line (Suc n) command) (Suc n) sc"
  using run_command_at [of "conn s" n command] assms
  by (auto simp: session_at_def session_run_command_def on_conn_def)

text \<open>Reading answers.\<close>

lemma parse_step:
  assumes "at s w n sc" and "\<And>c. is_open c \<Longrightarrow> \<exists>c'. parse sc c = (r, sc', c') \<and> is_open c'"
  shows "\<exists>s'. parse_answers parse s = (r, s') \<and> at s' w n sc'"
proof -
  from assms obtain c' where "parse sc (unsolicited s) = (r, sc', c')" "is_open c'"
    by (auto simp: session_at_def)
  with assms(1) show ?thesis by (simp add: session_at_def parse_answers_def on_incoming_def)
qed

lemma delivered_opens: "delivered contents capacity is_open c us c' \<Longrightarrow> is_open c'"
  by (simp add: delivered_def)

lemma ok_step:
  assumes "at s w n (responses rs @ Some (Inr d) # sc)" and "n < 9999"
    and before: "answers_before (Suc n) done_failure rs" and last: "completion (Suc n) Status_Ok d"
  shows "\<exists>s'. session_run_command_and_check_ok T K command s = (Ok (), s')
     \<and> at s' (w @ command_line (Suc n) command) (Suc n) sc"
proof -
  obtain cn where cn: "run_command T command (conn s) = (Ok (format_tag (Suc n)), cn)"
    "wire cn = w @ command_line (Suc n) command" "unat (next_id (request_ids cn)) = Suc n"
    "incoming cn = responses rs @ Some (Inr d) # sc"
    using run_command_at [of "conn s" n command] assms(1,2) by (auto simp: session_at_def)
  from last obtain code info where d: "parsed d = R_Done (format_tag (Suc n)) Status_Ok code info"
    by (auto simp: completion_def)
  from check_done.run_keep_complete [OF channel session_at_open [OF assms(1)] answers_beforeD [OF before]
      completion_completes [OF last], where sc = sc]
  obtain c' where "check_done_ok (Some K) (format_tag (Suc n)) (incoming cn) (unsolicited s) = (Ok (), sc, c')" "is_open c'"
    by (auto simp: cn(4) done_result_Done [OF d] check_status_ok_def dest: delivered_opens)
  with cn show ?thesis
    by (simp add: session_run_command_and_check_ok_def run_command_and_check_ok_def on_incoming_def session_at_def)
qed

lemma select_step:
  assumes "at s w n (responses rs @ Some (Inr d) # sc)" and "n < 9999" and "LF \<notin> set m" "CR \<notin> set m"
    and before: "answers_before (Suc n) data_failure rs" and last: "completion (Suc n) Status_Ok d"
  shows "\<exists>s'. select T K m s = (Ok (mailbox_of rs), s') \<and> at s' (w @ command_line (Suc n) (''SELECT '' @ quote m)) (Suc n) sc"
proof -
  obtain s1 where s1: "session_run_command T (''SELECT '' @ quote m) s = (Ok (format_tag (Suc n)), s1)"
    "at s1 (w @ command_line (Suc n) (''SELECT '' @ quote m)) (Suc n) (responses rs @ Some (Inr d) # sc)"
    using command_step [OF assms(1,2)] by blast
  from last obtain code info where d: "parsed d = R_Done (format_tag (Suc n)) Status_Ok code info"
    by (auto simp: completion_def)
  have "\<exists>c'. parse_mailbox K (format_tag (Suc n)) (responses rs @ Some (Inr d) # sc) c = (Ok (mailbox_of rs), sc, c') \<and> is_open c'"
    if "is_open c" for c
    using parse_mailbox_complete [OF channel that answers_beforeD [OF before] d, of sc] by (auto dest: delivered_opens)
  from parse_step [where parse = "parse_mailbox K (format_tag (Suc n))", OF s1(2) this] obtain s' where "parse_answers (parse_mailbox K (format_tag (Suc n))) s1 = (Ok (mailbox_of rs), s')"
    "at s' (w @ command_line (Suc n) (''SELECT '' @ quote m)) (Suc n) sc" by blast
  with s1(1) assms(3,4) show ?thesis by (simp add: select_def validate_str_Ok)
qed

lemma logout_step:
  "at s w n (responses rs @ Some (Inr d) # sc) \<Longrightarrow> n < 9999 \<Longrightarrow> answers_before (Suc n) done_failure rs \<Longrightarrow>
     completion (Suc n) Status_Ok d \<Longrightarrow>
     \<exists>s'. logout T K s = (Ok (), s') \<and> at s' (w @ command_line (Suc n) ''LOGOUT'') (Suc n) sc"
  unfolding logout_def by (rule ok_step)

text \<open>
  A search, and the streams: their parsers do not look at the status of the completion.
\<close>

lemma search_step:
  assumes "at s w n (responses rs @ Some (Inr d) # sc)" and "n < 9999"
    and before: "\<forall>r \<in> set rs. \<not> completes (format_tag (Suc n)) r" and last: "completion (Suc n) st d"
  shows "\<exists>s'. search T K query s = (Ok (\<Union> (set ` set (List.map_filter search_ids rs))), s')
     \<and> at s' (w @ command_line (Suc n) (''SEARCH '' @ query)) (Suc n) sc"
proof -
  obtain s1 where s1: "session_run_command T (''SEARCH '' @ query) s = (Ok (format_tag (Suc n)), s1)"
    "at s1 (w @ command_line (Suc n) (''SEARCH '' @ query)) (Suc n) (responses rs @ Some (Inr d) # sc)"
    using command_step [OF assms(1,2)] by blast
  have ends: "ends_command (format_tag (Suc n)) (Some (Inr d))"
    using completion_completes [OF last] by (simp add: ends_command_def)
  have "\<exists>c'. parse_ids K (format_tag (Suc n)) (responses rs @ Some (Inr d) # sc) c =
      (Ok (\<Union> (set ` set (List.map_filter search_ids rs))), sc, c') \<and> is_open c'" if "is_open c" for c
    using ids.run_filter [OF channel that before ends, of "{}" sc] by (auto simp: parse_ids_def fold_insert_ids dest: delivered_opens)
  from parse_step [where parse = "parse_ids K (format_tag (Suc n))", OF s1(2) this] s1(1)
  show ?thesis by (auto simp: search_def)
qed

lemma map_filter_responses:
  "List.map_filter fetch_stream.element (map Inr rs) = map Inr (List.map_filter fetched rs)"
  by (induction rs) (simp_all add: List.map_filter_simps split: option.split)

lemma fetch_collect_parse:
  assumes before: "\<forall>r \<in> set rs. \<not> completes tag r" and last: "completes tag d" and op: "is_open c"
  shows "\<exists>c'. stream_collect (fetches_item K) tag False (responses rs @ Some (Inr d) # sc) c =
     (Ok (map Inr (List.map_filter fetched rs)), True, sc, c') \<and> is_open c'"
proof -
  have "\<forall>i \<in> set (map Inr rs). filter_sync i tag" and "ends_command tag (Some (Inr d))"
    using before last by (simp_all add: ends_command_def)
  from fetch_stream.collect_run [OF channel op this, of sc] show ?thesis
    by (auto simp: map_filter_responses comp_def dest: delivered_opens)
qed

text \<open>Any command whose answers are fetches, or expunges.\<close>

lemma fetches_step:
  assumes "at s w n (responses rs @ Some (Inr d) # sc)" and "n < 9999"
    and before: "\<forall>r \<in> set rs. \<not> completes (format_tag (Suc n)) r" and last: "completion (Suc n) st d"
  shows "\<exists>s1 s2. session_run_command T command s = (Ok (format_tag (Suc n)), s1)
     \<and> try_collect (parse_fetches K (format_tag (Suc n))) s1 = (Ok (List.map_filter fetched rs), s2)
     \<and> collect (parse_fetches K (format_tag (Suc n))) s1 = (Ok (map Inr (List.map_filter fetched rs)), s2)
     \<and> at s2 (w @ command_line (Suc n) command) (Suc n) sc"
proof -
  let ?tag = "format_tag (Suc n)"
  obtain s1 where s1: "session_run_command T command s = (Ok ?tag, s1)"
    "at s1 (w @ command_line (Suc n) command) (Suc n) (responses rs @ Some (Inr d) # sc)"
    using command_step [OF assms(1,2)] by blast
  obtain c' where run: "stream_collect (fetches_item K) ?tag False (responses rs @ Some (Inr d) # sc) (unsolicited s1) =
      (Ok (map Inr (List.map_filter fetched rs)), True, sc, c')" and op: "is_open c'"
    using fetch_collect_parse [OF before completion_completes [OF last] session_at_open [OF s1(2)]] by blast
  note try_run = try_collect_of_collect [OF run]
  let ?s2 = "s1\<lparr>conn := (conn s1)\<lparr>incoming := sc\<rparr>, unsolicited := c'\<rparr>"
  have "incoming (conn s1) = responses rs @ Some (Inr d) # sc" using s1(2) by (simp add: session_at_def)
  then have "try_collect (parse_fetches K ?tag) s1 = (Ok (List.map_filter fetched rs), ?s2)"
    and "collect (parse_fetches K ?tag) s1 = (Ok (map Inr (List.map_filter fetched rs)), ?s2)"
    using run try_run by (simp_all add: try_collect_def collect_def collect_stream_def parse_fetches_def parse_answers_def on_incoming_def)
  moreover have "at ?s2 (w @ command_line (Suc n) command) (Suc n) sc"
    using s1(2) op by (simp add: session_at_def)
  ultimately show ?thesis
    using s1(1) by blast
qed

lemma fetch_step:
  assumes "at s w n (responses rs @ Some (Inr d) # sc)" and "n < 9999"
    and before: "\<forall>r \<in> set rs. \<not> completes (format_tag (Suc n)) r" and last: "completion (Suc n) st d"
  shows "\<exists>stream s1 s2. fetch_messages T K sequence_set query s = (Ok stream, s1)
     \<and> try_collect stream s1 = (Ok (List.map_filter fetched rs), s2)
     \<and> collect stream s1 = (Ok (map Inr (List.map_filter fetched rs)), s2)
     \<and> at s2 (w @ command_line (Suc n) (''FETCH '' @ sequence_set @ '' '' @ query)) (Suc n) sc"
  using fetches_step [OF assms, of "''FETCH '' @ sequence_set @ '' '' @ query"]
  by (auto simp: fetch_messages_def simp del: split_paired_Ex)

lemma expunge_step:
  assumes "at s w n (responses rs @ Some (Inr d) # sc)" and "n < 9999"
    and before: "\<forall>r \<in> set rs. \<not> completes (format_tag (Suc n)) r" and last: "completion (Suc n) st d"
  shows "\<exists>stream vs s1 s2. expunge T K s = (Ok stream, s1) \<and> collect stream s1 = (Ok vs, s2)
     \<and> at s2 (w @ command_line (Suc n) ''EXPUNGE'') (Suc n) sc"
proof -
  let ?tag = "format_tag (Suc n)"
  obtain s1 where s1: "session_run_command T ''EXPUNGE'' s = (Ok ?tag, s1)"
    "at s1 (w @ command_line (Suc n) ''EXPUNGE'') (Suc n) (responses rs @ Some (Inr d) # sc)"
    using command_step [OF assms(1,2)] by blast
  have "\<forall>i \<in> set (map Inr rs). filter_sync i ?tag" and "ends_command ?tag (Some (Inr d))"
    using before completion_completes [OF last] by (simp_all add: ends_command_def)
  from expunge_stream.collect_run [OF channel session_at_open [OF s1(2)] this, of sc]
  obtain vs c' where "collect_stream (parse_expunge K ?tag) (responses rs @ Some (Inr d) # sc) (unsolicited s1) = (Ok vs, True, sc, c')"
    and "is_open c'"
    by (auto simp: collect_stream_def parse_expunge_def comp_def dest: delivered_opens)
  with s1 show ?thesis
    by (auto simp: expunge_def collect_def parse_answers_def on_incoming_def session_at_def simp del: split_paired_Ex)
qed

text \<open>A command with a parser of its answers, and what reaches the channel.\<close>

lemma command_keeps_channel: "unsolicited (snd (session_run_command T command s)) = unsolicited s"
  by (simp add: session_run_command_def on_conn_def split: prod.split)

lemma command_parse_step:
  assumes "at s w n sc" and "n < 9999"
    and "\<And>c. is_open c \<Longrightarrow> \<exists>c'. parse (format_tag (Suc n)) sc c = (r, sc', c') \<and> delivered contents capacity is_open c ms c'"
  shows "\<exists>s'. bind_out (session_run_command T command s) (\<lambda>tag. parse_answers (parse tag)) = (r, s')
     \<and> at s' (w @ command_line (Suc n) command) (Suc n) sc'
     \<and> delivered contents capacity is_open (unsolicited s) ms (unsolicited s')"
proof -
  obtain s1 where s1: "session_run_command T command s = (Ok (format_tag (Suc n)), s1)"
    "at s1 (w @ command_line (Suc n) command) (Suc n) sc"
    using command_step [OF assms(1,2)] by blast
  then have same: "unsolicited s1 = unsolicited s" using command_keeps_channel [of command s] by simp
  from assms(3) [OF session_at_open [OF s1(2)]] obtain c' where c': "parse (format_tag (Suc n)) sc (unsolicited s1) = (r, sc', c')"
    "delivered contents capacity is_open (unsolicited s1) ms c'" by blast
  with s1 show ?thesis
    by (auto simp: parse_answers_def on_incoming_def session_at_def same dest: delivered_opens)
qed

text \<open>Logging in on a new connection, and idling.\<close>

lemma login_step:
  assumes "incoming cn = responses rs @ Some (Inr d) # sc" and "unat (next_id (request_ids cn)) = n" and "n < 9999"
    and "LF \<notin> set u" "CR \<notin> set u" "LF \<notin> set p" "CR \<notin> set p"
    and before: "answers_before (Suc n) done_failure rs" and last: "completion (Suc n) Status_Ok d"
  shows "\<exists>s. login T K u p cn = Ok s
     \<and> at s (wire cn @ command_line (Suc n) (''LOGIN '' @ quote u @ '' '' @ quote p)) (Suc n) sc"
proof -
  let ?line = "''LOGIN '' @ quote u @ '' '' @ quote p"
  obtain cn1 where cn1: "run_command T ?line cn = (Ok (format_tag (Suc n)), cn1)"
    "wire cn1 = wire cn @ command_line (Suc n) ?line" "unat (next_id (request_ids cn1)) = Suc n"
    "incoming cn1 = responses rs @ Some (Inr d) # sc"
    using run_command_at [OF assms(2,3), of ?line] assms(1) by auto
  from last obtain code info where d: "parsed d = R_Done (format_tag (Suc n)) Status_Ok code info"
    by (auto simp: completion_def)
  from check_done_silent.run_complete [OF answers_beforeD(1) [OF before] absorb_all_silent [OF answers_beforeD(2) [OF before]]
      completion_completes [OF last], where sc = sc]
  have "check_done_ok None (format_tag (Suc n)) (incoming cn1) () = (Ok (), sc, ())"
    by (simp add: cn1(4) done_result_Done [OF d] check_status_ok_def)
  moreover have "is_open (ch_bounded K 100)"
    using channel unfolding channel_contract_def by simp
  ultimately show ?thesis
    using cn1 assms(4-7)
    by (simp add: login_def validate_str_Ok run_command_and_check_ok_def on_incoming_def Session_new_def session_at_def)
qed

text \<open>\<open>idle_at\<close>: a handle that idles, after the command \<open>n\<close> started it.\<close>

definition idle_at :: "('r, 'x, 'c) handle \<Rightarrow> string \<Rightarrow> nat \<Rightarrow> 'x script \<Rightarrow> bool" where
  "idle_at h w n sc \<longleftrightarrow> at (session_of h) w n sc \<and> idle_id h = Some (format_tag n)"

lemma idle_init_step:
  assumes "at s w n (responses rs @ Some (Inr g) # sc)" and "n < 9999"
    and before: "\<forall>r \<in> set rs. \<not> continues r \<and> \<not> refuses (format_tag (Suc n)) r" and "continues g"
  shows "\<exists>h. idle_init T K (idle s) = (Ok (), h) \<and> idle_at h (w @ command_line (Suc n) ''IDLE'') (Suc n) sc"
proof -
  let ?tag = "format_tag (Suc n)"
  obtain s1 where s1: "session_run_command T ''IDLE'' s = (Ok ?tag, s1)"
    "at s1 (w @ command_line (Suc n) ''IDLE'') (Suc n) (responses rs @ Some (Inr g) # sc)"
    using command_step [OF assms(1,2)] by blast
  have "\<exists>c'. idle_init_loop K ?tag (responses rs @ Some (Inr g) # sc) c = (Ok (), sc, c') \<and> is_open c'" if "is_open c" for c
    using idle_init_skip [OF channel that before, of "Some (Inr g) # sc"] assms(4)
    by (auto simp: continues_def split: response.splits dest: delivered_opens)
  from parse_step [where parse = "idle_init_loop K ?tag", OF s1(2) this] s1(1)
  show ?thesis by (auto simp: idle_init_def idle_def Handle_new_def on_session_def idle_at_def)
qed

text \<open>\<open>wait\<close> passes over some answers, after which something else ends it.\<close>

lemma idle_wait_step:
  assumes "idle_at h w n (responses rs @ sc)" and passing: "\<forall>r \<in> set rs. passes r"
    and last: "\<And>c. is_open c \<Longrightarrow> idle_wait_loop K evs sc c = (r, sc', c)"
  shows "\<exists>h'. idle_wait_with_timeout K (replicate (length rs) Stream_Answers @ evs) h = (r, h') \<and> idle_at h' w n sc'"
proof -
  let ?evs = "replicate (length rs) Stream_Answers @ evs"
  have "\<exists>c'. idle_wait_loop K ?evs (responses rs @ sc) c = (r, sc', c') \<and> is_open c'" if "is_open c" for c
    using idle_wait_skip [OF channel that passing, of evs sc] last by (auto dest: delivered_opens)
  from parse_step [where parse = "idle_wait_loop K ?evs", OF _ this] assms(1)
  show ?thesis by (fastforce simp: idle_wait_with_timeout_def on_session_def idle_at_def)
qed

lemma idle_done_step:
  assumes "idle_at h w n (responses rs @ Some (Inr d) # sc)"
    and before: "answers_before n done_failure rs" and last: "completion n Status_Ok d"
  shows "\<exists>s'. idle_done T K h = Ok s' \<and> at s' (w @ ''DONE'' @ [CR, LF]) n sc"
proof -
  from last obtain code info where d: "parsed d = R_Done (format_tag n) Status_Ok code info"
    by (auto simp: completion_def)
  from assms(1) have s: "at (session_of h) w n (responses rs @ Some (Inr d) # sc)" by (simp add: idle_at_def)
  obtain cn1 where cn1: "on_stream (encode (tr_write T) (Request None ''DONE'')) (conn (session_of h)) = (Ok (), cn1)"
    "wire cn1 = wire (conn (session_of h)) @ ''DONE'' @ [CR, LF]" "incoming cn1 = incoming (conn (session_of h))"
    "request_ids cn1 = request_ids (conn (session_of h))"
    using encode_wire [OF takes_all, of "Request None ''DONE''"] by (auto simp: request_bytes_def)
  obtain cn2 where cn2: "on_stream (stream_flush (tr_flush T)) cn1 = (Ok (), cn2)" "wire cn2 = wire cn1"
    "incoming cn2 = incoming cn1" "request_ids cn2 = request_ids cn1"
    using flush_wire [OF takes_all] by blast
  define s1 where "s1 = (session_of h)\<lparr>conn := cn2\<rparr>"
  have s1: "session_run_command_untagged T ''DONE'' (session_of h) = (Ok (), s1)"
    "at s1 (w @ ''DONE'' @ [CR, LF]) n (responses rs @ Some (Inr d) # sc)"
    using cn1 cn2 s
    by (simp_all add: session_run_command_untagged_def run_command_untagged_def on_conn_def s1_def session_at_def)
  have "\<exists>c'. check_done_ok (Some K) (format_tag n) (responses rs @ Some (Inr d) # sc) c = (Ok (), sc, c') \<and> is_open c'"
    if "is_open c" for c
    using check_done.run_keep_complete [OF channel that answers_beforeD [OF before] completion_completes [OF last], where sc = sc]
    by (auto simp: done_result_Done [OF d] check_status_ok_def dest: delivered_opens)
  from parse_step [where parse = "check_done_ok (Some K) (format_tag n)", OF s1(2) this] s1(1) assms(1)
  show ?thesis by (auto simp: idle_done_def idle_at_def)
qed

text \<open>
  The options of \<open>GETMETADATA\<close> come behind the mailbox, after two spaces and with none between them
  and the entries.
\<close>

lemma get_metadata_line:
  assumes "at s w n (responses rs @ Some (Inr d) # sc)" and "n < 9999"
    and before: "\<forall>r \<in> set rs. \<not> completes (format_tag (Suc n)) r" and last: "completion (Suc n) st d"
  shows "\<exists>vals s'. get_metadata T K m options entries s = (Ok vals, s')
     \<and> at s' (w @ command_line (Suc n) (''GETMETADATA '' @ quote m @ '' '' @
           (if options = [] then [] else '' '' @ options) @ entries)) (Suc n) sc"
proof -
  let ?line = "''GETMETADATA '' @ quote m @ '' '' @ (if options = [] then [] else '' '' @ options) @ entries"
  obtain s1 where s1: "session_run_command T ?line s = (Ok (format_tag (Suc n)), s1)"
    "at s1 (w @ command_line (Suc n) ?line) (Suc n) (responses rs @ Some (Inr d) # sc)"
    using command_step [OF assms(1,2)] by blast
  have ends: "ends_command (format_tag (Suc n)) (Some (Inr d))"
    using completion_completes [OF last] by (simp add: ends_command_def)
  have "\<exists>c'. parse_metadata K m (format_tag (Suc n)) (responses rs @ Some (Inr d) # sc) c =
      (Ok (concat (List.map_filter (solicited_metadata m) rs)), sc, c') \<and> is_open c'" if "is_open c" for c
    using metadata.run_filter [OF channel that before ends, of m "[]" sc]
    by (auto simp: parse_metadata_def fold_append_metadata dest: delivered_opens)
  from parse_step [where parse = "parse_metadata K m (format_tag (Suc n))", OF s1(2) this] s1(1)
  show ?thesis by (auto simp: get_metadata_def)
qed

end

interpretation mock_user: session_user mock_transport written_buf fifo_ops fifo_queue fifo_capacity "\<lambda>c. \<not> fifo_closed c"
  by (intro session_user.intro mock_commands.command_sink_axioms session_user_axioms.intro mock_reliable fifo_contract)

end
