(* ===== verification/Command_Lines.thy ===== *)
theory Command_Lines
  imports Session_Invariant
begin

text \<open>
  The line of every command.  A method of a session that sends a command and reads its answers puts
  one line on the wire and nothing else, whichever answers arrive and however far it gets with them.
\<close>

named_theorems line_intros

section \<open>Sending one line\<close>

definition sends :: "('r \<Rightarrow> string)
    \<Rightarrow> (('r, 'x, 'c) session \<Rightarrow> ('a, 'x error) outcome \<times> ('r, 'x, 'c) session) \<Rightarrow> string \<Rightarrow> bool" where
  "sends written f command \<longleftrightarrow>
     (\<forall>s. has_tags s \<longrightarrow>
        written (inner (stream (conn (snd (f s))))) =
          written (inner (stream (conn s))) @ next_tag s @ '' '' @ command @ [CR, LF])"

text \<open>Reading answers and returning leave the stream to the transport alone.\<close>

definition silent :: "(('r, 'x, 'c) session \<Rightarrow> ('a, 'x error) outcome \<times> ('r, 'x, 'c) session) \<Rightarrow> bool" where
  "silent f \<longleftrightarrow> (\<forall>s. stream (conn (snd (f s))) = stream (conn s))"

lemma silent_return [line_intros]: "silent (Pair r)"
  by (simp add: silent_def)

lemma silent_parse_answers [line_intros]: "silent (parse_answers parse)"
  by (simp add: silent_def parse_answers_def on_incoming_def split: prod.split)

lemma sends_command [line_intros]:
  fixes T :: "('r, 'x) transport" and g :: "request_id \<Rightarrow> ('r, 'x, 'c) session \<Rightarrow> ('a, 'x error) outcome \<times> ('r, 'x, 'c) session"
  assumes "command_sink T written" and "reliable T" and "\<And>tag. silent (g tag)"
  shows "sends written (\<lambda>s. bind_out (session_run_command T command s) g) command"
  unfolding sends_def
proof (intro allI impI)
  fix s :: "('r, 'x, 'c) session"
  assume tags: "has_tags s"
  obtain tag s1 where run: "session_run_command T command s = (Ok tag, s1)"
    using run_command_sent [OF assms(2) tags] by blast
  then obtain cn where cn: "run_command T command (conn s) = (Ok tag, cn)" "s1 = s\<lparr>conn := cn\<rparr>"
    by (auto simp: session_run_command_def on_conn_def split: prod.splits)
  have "stream (conn (snd (g tag s1))) = stream cn"
    using assms(3) cn(2) by (simp add: silent_def)
  with command_sink.run_command_wire [OF assms(1) cn(1)] run_command_tag [OF run] run
  show "written (inner (stream (conn (snd (bind_out (session_run_command T command s) g))))) =
      written (inner (stream (conn s))) @ next_tag s @ '' '' @ command @ [CR, LF]"
    by simp
qed

lemma sends_check_ok [line_intros]:
  assumes "command_sink T written" and "reliable T"
  shows "sends written (session_run_command_and_check_ok T K command) command"
  unfolding session_run_command_and_check_ok_bind by (intro line_intros assms)

lemma sends_validated [line_intros]:
  assumes "LF \<notin> set m \<and> CR \<notin> set m" and "sends written (g (quote m)) command"
  shows "sends written (\<lambda>s. bind_out (validate_str m, s) g) command"
  using assms by (simp add: validate_str_Ok)

section \<open>The commands\<close>



end
