(* ===== verification/Examples.thy ===== *)
theory Examples
  imports Session_Triples
begin

text \<open>
  The example programs of \<open>examples/src/bin\<close>: each connects, logs in and uses one session.  The
  network (TCP, TLS, and the answers the server will give over a connection), the arguments of
  the process and its environment are parameters; printing is left out.
\<close>

section \<open>The world of the programs\<close>

record ('t, 'r, 'x) network =
  net_connect :: "string \<times> nat \<Rightarrow> 'x + 't"
  net_tls :: "string \<Rightarrow> 't \<Rightarrow> 'x + 'r"
  net_answers :: "'r \<Rightarrow> 'x script"

text \<open>\<open>anyhow::Error\<close> with the errors the programs put into it.\<close>

datatype 'x app_error =
    App_Connect 'x | App_Tls 'x | App_Imap "'x error" | App_Message string | App_Smtp 'x | App_Recv

definition try_result :: "('x \<Rightarrow> 'e) \<Rightarrow> 'x + 'a \<Rightarrow> ('a, 'e) outcome" where
  "try_result f r = (case r of Inl e \<Rightarrow> Err (f e) | Inr a \<Rightarrow> Ok a)"

text \<open>\<open>TcpStream::connect(addr).await?\<close> and \<open>tls.connect(domain, tcp_stream).await?\<close>.\<close>

definition connect_tls :: "('t, 'r, 'x) network \<Rightarrow> string \<times> nat \<Rightarrow> string \<Rightarrow> ('r, 'x app_error) outcome" where
  "connect_tls N addr domain =
     obind (try_result App_Connect (net_connect N addr)) (\<lambda>tcp_stream.
       try_result App_Tls (net_tls N domain tcp_stream))"

text \<open>\<open>f.await?\<close> on a session, and \<open>.map_err(|e| e.0)?\<close> on an attempt to log in.\<close>

definition app :: "('a, 'x error) outcome \<times> 's \<Rightarrow> ('a, 'x app_error) outcome \<times> 's" where
  "app p = (case p of (r, s) \<Rightarrow> (map_err App_Imap r, s))"

definition app_login :: "('r, 'x, 'c) login_result \<Rightarrow> (('r, 'x, 'c) session, 'x app_error) outcome" where
  "app_login r = map_err (\<lambda>(e, client). App_Imap e) r"

text \<open>
  The part of a program that has a session; with the result comes the session as the program
  leaves it, where there is one.
\<close>

fun with_session :: "(('r, 'x, 'c) session, 'e) outcome \<Rightarrow> (('r, 'x, 'c) session \<Rightarrow> ('a, 'e) outcome \<times> ('r, 'x, 'c) session)
    \<Rightarrow> ('a, 'e) outcome \<times> ('r, 'x, 'c) session option" where
  "with_session (Ok s) f = (case f s of (r, s') \<Rightarrow> (r, Some s'))"
| "with_session (Err e) f = (Err e, None)"
| "with_session (Panic m) f = (Panic m, None)"
| "with_session Pending f = (Pending, None)"

definition app_assert :: "bool \<Rightarrow> 's \<Rightarrow> (unit, 'e) outcome \<times> 's" where
  "app_assert b s = ((if b then Ok () else Panic ''assertion failed''), s)"

text \<open>\<open>std::str::from_utf8\<close> succeeds: the well-formed byte sequences of the Unicode standard.\<close>

definition byte_in :: "char \<Rightarrow> nat \<Rightarrow> nat \<Rightarrow> bool" where
  "byte_in c lo hi \<longleftrightarrow> lo \<le> of_char c \<and> of_char c \<le> hi"

fun utf8_tail :: "nat \<Rightarrow> string \<Rightarrow> string option" where
  "utf8_tail 0 s = Some s"
| "utf8_tail (Suc n) [] = None"
| "utf8_tail (Suc n) (c # s) = (if byte_in c 0x80 0xBF then utf8_tail n s else None)"

text \<open>How many bytes follow a leading byte, and between which bounds the first of them lies.\<close>

definition utf8_lead :: "char \<Rightarrow> (nat \<times> nat \<times> nat) option" where
  "utf8_lead b =
     (if byte_in b 0xC2 0xDF then Some (0, 0x80, 0xBF)
      else if byte_in b 0xE0 0xE0 then Some (1, 0xA0, 0xBF)
      else if byte_in b 0xE1 0xEC \<or> byte_in b 0xEE 0xEF then Some (1, 0x80, 0xBF)
      else if byte_in b 0xED 0xED then Some (1, 0x80, 0x9F)
      else if byte_in b 0xF0 0xF0 then Some (2, 0x90, 0xBF)
      else if byte_in b 0xF1 0xF3 then Some (2, 0x80, 0xBF)
      else if byte_in b 0xF4 0xF4 then Some (2, 0x80, 0x8F)
      else None)"

lemma utf8_tail_shorter: "utf8_tail n s = Some s' \<Longrightarrow> length s' \<le> length s"
  by (induction n s rule: utf8_tail.induct) (auto split: if_splits)

function utf8_valid :: "string \<Rightarrow> bool" where
  "utf8_valid s =
     (case s of
        [] \<Rightarrow> True
      | b # s1 \<Rightarrow>
          if byte_in b 0 0x7F then utf8_valid s1
          else (case (utf8_lead b, s1) of
             (Some (n, lo, hi), c # s2) \<Rightarrow>
               if byte_in c lo hi then (case utf8_tail n s2 of Some s3 \<Rightarrow> utf8_valid s3 | None \<Rightarrow> False) else False
           | _ \<Rightarrow> False))"
  by pat_completeness auto
termination
  by (relation "measure length") (auto dest!: utf8_tail_shorter)

declare utf8_valid.simps [simp del]

section \<open>basic and futures\<close>

definition message_text :: "'x fetch \<Rightarrow> (string, 'e) outcome" where
  "message_text msg =
     obind (fetch_body msg) (\<lambda>body.
       case body of
         None \<Rightarrow> Panic ''message did not have a body!''
       | Some body \<Rightarrow>
           if utf8_valid body then Ok body else Panic ''message was not valid utf-8'')"

text \<open>The part of \<open>fetch_inbox_top\<close> behind the login.\<close>

definition inbox_top :: "('r, 'x) transport \<Rightarrow> ('c, 'x unsolicited_response) channel_ops \<Rightarrow> ('r, 'x, 'c) session
    \<Rightarrow> (string option, 'x app_error) outcome \<times> ('r, 'x, 'c) session" where
  "inbox_top T K s =
     bind_out (app (select T K ''INBOX'' s)) (\<lambda>_ s.
     bind_out (app (fetch_messages T K ''1'' ''RFC822'' s)) (\<lambda>messages_stream s.
     bind_out (app (try_collect messages_stream s)) (\<lambda>messages s.
       case messages of
         [] \<Rightarrow> (Ok None, s)
       | msg # _ \<Rightarrow>
           bind_out (message_text msg, s) (\<lambda>body s.
           bind_out (app (logout T K s)) (\<lambda>_ s.
             (Ok (Some body), s))))))"

definition fetch_inbox_top :: "('t, 'r, 'x) network \<Rightarrow> ('r, 'x) transport \<Rightarrow> ('c, 'x unsolicited_response) channel_ops
    \<Rightarrow> string \<Rightarrow> string \<Rightarrow> string \<Rightarrow> (string option, 'x app_error) outcome \<times> ('r, 'x, 'c) session option" where
  "fetch_inbox_top N T K imap_server username password =
     with_session
       (obind (connect_tls N (imap_server, 993) imap_server) (\<lambda>tls_stream.
          app_login (login T K username password (Client_new (net_answers N tls_stream) tls_stream))))
       (inbox_top T K)"

definition basic_main :: "('t, 'r, 'x) network \<Rightarrow> ('r, 'x) transport \<Rightarrow> ('c, 'x unsolicited_response) channel_ops
    \<Rightarrow> string list \<Rightarrow> (unit, 'x app_error) outcome \<times> ('r, 'x, 'c) session option" where
  "basic_main N T K args =
     (if length args \<noteq> 4 then (Err (App_Message ''need three arguments''), None)
      else bind_out (fetch_inbox_top N T K (args ! 1) (args ! 2) (args ! 3)) (\<lambda>res s.
        case res of
          None \<Rightarrow> (Panic ''called `Option::unwrap()` on a `None` value'', s)
        | Some body \<Rightarrow> (Ok (), s)))"

text \<open>\<open>futures.rs\<close> runs the same function on another executor.\<close>

definition futures_main :: "('t, 'r, 'x) network \<Rightarrow> ('r, 'x) transport \<Rightarrow> ('c, 'x unsolicited_response) channel_ops
    \<Rightarrow> string list \<Rightarrow> (unit, 'x app_error) outcome \<times> ('r, 'x, 'c) session option" where
  "futures_main N T K args =
     (if length args \<noteq> 4 then (Err (App_Message ''need three arguments''), None)
      else bind_out (fetch_inbox_top N T K (args ! 1) (args ! 2) (args ! 3)) (\<lambda>res s.
        case res of
          None \<Rightarrow> (Panic ''called `Option::unwrap()` on a `None` value'', s)
        | Some body \<Rightarrow> (Ok (), s)))"

section \<open>idle\<close>

text \<open>Reporting the result of a wait: new data is printed as text.\<close>

definition report_idle :: "'x idle_response \<Rightarrow> (unit, 'e) outcome" where
  "report_idle idle_result =
     (case idle_result of
        ManualInterrupt \<Rightarrow> Ok ()
      | Timeout \<Rightarrow> Ok ()
      | NewData data \<Rightarrow>
          if utf8_valid (raw data) then Ok ()
          else Panic ''called `Result::unwrap()` on an `Err` value'')"

text \<open>
  From \<open>session.idle()\<close> to the end of \<open>fetch_and_idle\<close>.  \<open>evs\<close> is what ends the waits: the task
  that drops the interrupt after 30 seconds is part of it.
\<close>

definition idle_and_logout :: "('r, 'x) transport \<Rightarrow> ('c, 'x unsolicited_response) channel_ops \<Rightarrow> idle_event list
    \<Rightarrow> ('r, 'x, 'c) session \<Rightarrow> (unit, 'x app_error) outcome \<times> ('r, 'x, 'c) session option" where
  "idle_and_logout T K evs s =
     (case bind_out (app (idle_init T K (idle s))) (\<lambda>_ h.
           bind_out (app (idle_wait K evs h)) (\<lambda>idle_result h.
             (report_idle idle_result, h))) of
        (Ok _, h) \<Rightarrow>
          with_session (map_err App_Imap (idle_done T K h)) (\<lambda>s. app (logout T K s))
      | (Err e, h) \<Rightarrow> (Err e, Some (session_of h))
      | (Panic m, h) \<Rightarrow> (Panic m, Some (session_of h))
      | (Pending, h) \<Rightarrow> (Pending, Some (session_of h)))"

text \<open>Going on from a session that may be lost on the way.\<close>

fun and_then :: "('a, 'e) outcome \<times> ('r, 'x, 'c) session \<Rightarrow> (('r, 'x, 'c) session \<Rightarrow> ('b, 'e) outcome \<times> ('r, 'x, 'c) session option)
    \<Rightarrow> ('b, 'e) outcome \<times> ('r, 'x, 'c) session option" where
  "and_then (Ok a, s) f = f s"
| "and_then (Err e, s) f = (Err e, Some s)"
| "and_then (Panic m, s) f = (Panic m, Some s)"
| "and_then (Pending, s) f = (Pending, Some s)"

definition select_and_fetch_flags :: "('r, 'x) transport \<Rightarrow> ('c, 'x unsolicited_response) channel_ops
    \<Rightarrow> ('r, 'x, 'c) session \<Rightarrow> (nat, 'x app_error) outcome \<times> ('r, 'x, 'c) session" where
  "select_and_fetch_flags T K s =
     bind_out (app (select T K ''INBOX'' s)) (\<lambda>_ s.
     bind_out (app (fetch_messages T K ''1:*'' ''(FLAGS )'' s)) (\<lambda>msg_stream s.
     bind_out (app (collect msg_stream s)) (\<lambda>msgs s.
       (Ok (length msgs), s))))"

definition fetch_and_idle :: "('t, 'r, 'x) network \<Rightarrow> ('r, 'x) transport \<Rightarrow> ('c, 'x unsolicited_response) channel_ops
    \<Rightarrow> idle_event list \<Rightarrow> string \<Rightarrow> string \<Rightarrow> string \<Rightarrow> (unit, 'x app_error) outcome \<times> ('r, 'x, 'c) session option" where
  "fetch_and_idle N T K evs imap_server username password =
     (case obind (connect_tls N (imap_server, 993) imap_server) (\<lambda>tls_stream.
          app_login (login T K username password (Client_new (net_answers N tls_stream) tls_stream))) of
        Ok s \<Rightarrow> and_then (select_and_fetch_flags T K s) (idle_and_logout T K evs)
      | Err e \<Rightarrow> (Err e, None)
      | Panic m \<Rightarrow> (Panic m, None)
      | Pending \<Rightarrow> (Pending, None))"

definition idle_main :: "('t, 'r, 'x) network \<Rightarrow> ('r, 'x) transport \<Rightarrow> ('c, 'x unsolicited_response) channel_ops
    \<Rightarrow> idle_event list \<Rightarrow> string list \<Rightarrow> (unit, 'x app_error) outcome \<times> ('r, 'x, 'c) session option" where
  "idle_main N T K evs args =
     (if length args \<noteq> 4 then (Err (App_Message ''need three arguments''), None)
      else fetch_and_idle N T K evs (args ! 1) (args ! 2) (args ! 3))"

section \<open>gmail_oauth2\<close>

record gmail_oauth2 =
  gmail_user :: string
  access_token :: string

definition gmail_process :: "string \<Rightarrow> gmail_oauth2 \<Rightarrow> string \<times> gmail_oauth2" where
  "gmail_process data g =
     (''user='' @ gmail_user g @ [CHR 0x01] @ ''auth=Bearer '' @ access_token g @ [CHR 0x01, CHR 0x01], g)"

text \<open>An error of \<open>select\<close> is only printed.\<close>

definition print_result :: "('a, 'e) outcome \<times> 's \<Rightarrow> (unit, 'f) outcome \<times> 's" where
  "print_result p =
     (case p of
        (Ok a, s) \<Rightarrow> (Ok (), s)
      | (Err e, s) \<Rightarrow> (Ok (), s)
      | (Panic m, s) \<Rightarrow> (Panic m, s)
      | (Pending, s) \<Rightarrow> (Pending, s))"

text \<open>The \<open>while let\<close> loop over the messages returns at the first error, like \<open>try_collect\<close>.\<close>

definition gmail_session :: "('r, 'x) transport \<Rightarrow> ('c, 'x unsolicited_response) channel_ops
    \<Rightarrow> ('r, 'x, 'c) session \<Rightarrow> (unit, 'x app_error) outcome \<times> ('r, 'x, 'c) session" where
  "gmail_session T K s =
     bind_out (print_result (select T K ''INBOX'' s)) (\<lambda>_ s.
     bind_out (app (fetch_messages T K ''2'' ''body[text]'' s)) (\<lambda>msgs s.
     bind_out (app (try_collect msgs s)) (\<lambda>_ s.
     bind_out (app (logout T K s)) (\<lambda>_ s.
       (Ok (), s)))))"

definition gmail_auth :: gmail_oauth2 where
  "gmail_auth = \<lparr>gmail_user = ''sombody@gmail.com'', access_token = ''<access_token>''\<rparr>"

definition gmail_main :: "('t, 'r, 'x) network \<Rightarrow> ('r, 'x) transport \<Rightarrow> ('c, 'x unsolicited_response) channel_ops
    \<Rightarrow> 'x base64 \<Rightarrow> (unit, 'x app_error) outcome \<times> ('r, 'x, 'c) session option" where
  "gmail_main N T K B =
     with_session
       (obind (connect_tls N (''imap.gmail.com'', 993) ''imap.gmail.com'') (\<lambda>tls_stream.
          app_login (authenticate T K B gmail_process ''XOAUTH2'' gmail_auth (Client_new (net_answers N tls_stream) tls_stream))))
       (gmail_session T K)"

section \<open>integration\<close>

text \<open>The value of the environment variable \<open>TEST_HOST\<close> is a parameter.\<close>

definition test_host :: "string option \<Rightarrow> string" where
  "test_host var = (case var of Some host \<Rightarrow> host | None \<Rightarrow> ''127.0.0.1'')"

text \<open>
  \<open>client.read_response().await.context(..)?\<close>: the end of the stream is an error; what was read,
  an I/O error included, is not looked at.
\<close>

definition read_greeting :: "('r, 'x) connection \<Rightarrow> ('x item, 'x app_error) outcome \<times> ('r, 'x) connection" where
  "read_greeting client =
     bind_out (app (read_response client)) (\<lambda>res client.
       case res of
         None \<Rightarrow> (Err (App_Message ''unexpected end of stream, expected greeting''), client)
       | Some greeting \<Rightarrow> (Ok greeting, client))"

text \<open>\<open>session\<close>.\<close>

definition test_session :: "('t, 'r, 'x) network \<Rightarrow> ('r, 'x) transport \<Rightarrow> ('c, 'x unsolicited_response) channel_ops
    \<Rightarrow> string option \<Rightarrow> string \<Rightarrow> (('r, 'x, 'c) session, 'x app_error) outcome" where
  "test_session N T K var account =
     obind (connect_tls N (test_host var, 3993) ''imap.example.com'') (\<lambda>tls_stream.
       case read_greeting (Client_new (net_answers N tls_stream) tls_stream) of
         (Ok _, client) \<Rightarrow> app_login (login T K account account client)
       | (Err e, client) \<Rightarrow> Err e
       | (Panic m, client) \<Rightarrow> Panic m
       | (Pending, client) \<Rightarrow> Pending)"

text \<open>\<open>_connect_insecure_then_secure\<close>; \<open>T0\<close> and \<open>answers\<close> belong to the plain connection.\<close>

definition connect_insecure_then_secure :: "('t, 'r, 'x) network \<Rightarrow> ('t, 'x) transport \<Rightarrow> ('t \<Rightarrow> 'x script)
    \<Rightarrow> string option \<Rightarrow> (('r, 'x) connection, 'x app_error) outcome" where
  "connect_insecure_then_secure N T0 answers var =
     obind (try_result App_Connect (net_connect N (test_host var, 3143))) (\<lambda>tcp_stream.
     case bind_out (read_greeting (Client_new (answers tcp_stream) tcp_stream)) (\<lambda>_ client.
            case run_command_and_check_ok T0 None ''STARTTLS'' client () of
              (r, client, _) \<Rightarrow> app (r, client)) of
       (Ok _, client) \<Rightarrow>
         obind (try_result App_Tls (net_tls N ''imap.example.com'' (client_into_inner client))) (\<lambda>tls_stream.
           Ok (Client_new (net_answers N tls_stream) tls_stream))
     | (Err e, client) \<Rightarrow> Err e
     | (Panic m, client) \<Rightarrow> Panic m
     | (Pending, client) \<Rightarrow> Pending)"

text \<open>The tests: \<open>login\<close>, \<open>logout\<close>, \<open>inbox_zero\<close>, \<open>_list\<close> and \<open>_idle\<close>.\<close>

definition login_test :: "('t, 'r, 'x) network \<Rightarrow> ('r, 'x) transport \<Rightarrow> ('c, 'x unsolicited_response) channel_ops
    \<Rightarrow> string option \<Rightarrow> (unit, 'x app_error) outcome \<times> ('r, 'x, 'c) session option" where
  "login_test N T K var = with_session (test_session N T K var ''readonly-test@localhost'') (\<lambda>s. (Ok (), s))"

definition logout_test :: "('t, 'r, 'x) network \<Rightarrow> ('r, 'x) transport \<Rightarrow> ('c, 'x unsolicited_response) channel_ops
    \<Rightarrow> string option \<Rightarrow> (unit, 'x app_error) outcome \<times> ('r, 'x, 'c) session option" where
  "logout_test N T K var =
     with_session (test_session N T K var ''readonly-test@localhost'') (\<lambda>s.
       bind_out (app (logout T K s)) (\<lambda>_ s. (Ok (), s)))"

definition inbox_zero :: "('t, 'r, 'x) network \<Rightarrow> ('r, 'x) transport \<Rightarrow> ('c, 'x unsolicited_response) channel_ops
    \<Rightarrow> string option \<Rightarrow> (unit, 'x app_error) outcome \<times> ('r, 'x, 'c) session option" where
  "inbox_zero N T K var =
     with_session (test_session N T K var ''readonly-test@localhost'') (\<lambda>s.
       bind_out (app (select T K ''INBOX'' s)) (\<lambda>_ s.
       bind_out (app (search T K ''ALL'' s)) (\<lambda>inbox s.
       bind_out (app_assert (card inbox = 0) s) (\<lambda>_ s.
         (Ok (), s)))))"

definition list_test :: "('t, 'r, 'x) network \<Rightarrow> ('r, 'x) transport \<Rightarrow> ('c, 'x unsolicited_response) channel_ops
    \<Rightarrow> string option \<Rightarrow> (unit, 'x app_error) outcome \<times> ('r, 'x, 'c) session option" where
  "list_test N T K var =
     with_session (test_session N T K var ''readonly-test@localhost'') (\<lambda>s.
       bind_out (app (select T K ''INBOX'' s)) (\<lambda>_ s.
       bind_out (app (list_mailboxes T K None (Some ''%'') s)) (\<lambda>names s.
       bind_out (app (collect names s)) (\<lambda>subdirs s.
       bind_out (app_assert (length subdirs = 0) s) (\<lambda>_ s.
         (Ok (), s))))))"

text \<open>Whatever the wait of \<open>_idle\<close> returns is printed, an error as well.\<close>

definition idle_for_a_second :: "('r, 'x) transport \<Rightarrow> ('c, 'x unsolicited_response) channel_ops \<Rightarrow> idle_event list
    \<Rightarrow> ('r, 'x, 'c) session \<Rightarrow> (unit, 'x app_error) outcome \<times> ('r, 'x, 'c) session option" where
  "idle_for_a_second T K evs s =
     (case bind_out (app (idle_init T K (idle s))) (\<lambda>_ h. print_result (idle_wait_with_timeout K evs h)) of
        (Ok _, h) \<Rightarrow>
          with_session (map_err App_Imap (idle_done T K h)) (\<lambda>s. app (logout T K s))
      | (Err e, h) \<Rightarrow> (Err e, Some (session_of h))
      | (Panic m, h) \<Rightarrow> (Panic m, Some (session_of h))
      | (Pending, h) \<Rightarrow> (Pending, Some (session_of h)))"

definition idle_test :: "('t, 'r, 'x) network \<Rightarrow> ('r, 'x) transport \<Rightarrow> ('c, 'x unsolicited_response) channel_ops
    \<Rightarrow> string option \<Rightarrow> idle_event list \<Rightarrow> (unit, 'x app_error) outcome \<times> ('r, 'x, 'c) session option" where
  "idle_test N T K var evs =
     (case test_session N T K var ''idle-test@localhost'' of
        Ok s \<Rightarrow>
          and_then
            (bind_out (app (select T K ''INBOX'' s)) (\<lambda>_ s.
             bind_out (app (fetch_messages T K ''1:3'' ''(FLAGS BODY.PEEK[])'' s)) (\<lambda>msg_stream s.
             bind_out (app (collect msg_stream s)) (\<lambda>msgs s.
               (Ok (length msgs), s)))))
            (idle_for_a_second T K evs)
      | Err e \<Rightarrow> (Err e, None)
      | Panic m \<Rightarrow> (Panic m, None)
      | Pending \<Rightarrow> (Pending, None))"

section \<open>What the programs do\<close>

lemma app_Ok [simp]: "app (Ok a, s) = (Ok a, s)"
  by (simp add: app_def)

lemma connect_tls_Ok:
  "net_connect N addr = Inr tcp \<Longrightarrow> net_tls N domain tcp = Inr tls \<Longrightarrow> connect_tls N addr domain = Ok tls"
  by (simp add: connect_tls_def try_result_def)

text \<open>What \<open>fetch_inbox_top\<close> returns for the first message.\<close>

definition first_text :: "'x fetch list \<Rightarrow> (string option, 'e) outcome" where
  "first_text messages = (case messages of [] \<Rightarrow> Ok None | msg # _ \<Rightarrow> obind (message_text msg) (\<lambda>body. Ok (Some body)))"

context session_user
begin

lemma start_step:
  assumes "net_connect N addr = Inr tcp" and "net_tls N domain tcp = Inr tls"
    and "net_answers N tls = responses rs @ Some (Inr d) # sc"
    and "LF \<notin> set u" "CR \<notin> set u" "LF \<notin> set p" "CR \<notin> set p"
    and "answers_before 1 done_failure rs" and "completion 1 Status_Ok d"
  shows "\<exists>s. obind (connect_tls N addr domain) (\<lambda>tls. app_login (login T K u p (Client_new (net_answers N tls) tls))) = Ok s
     \<and> at s (written tls @ command_line 1 (''LOGIN '' @ quote u @ '' '' @ quote p)) 1 sc"
  using login_step [of "Client_new (net_answers N tls) tls" rs d sc 0 u p] assms
  by (auto simp: connect_tls_Ok [OF assms(1,2)] app_login_def Client_new_def IdGenerator_new_def ImapStream_new_def)

lemma inbox_top_step:
  assumes "at s w 1 (responses rs @ Some (Inr d) # responses rs' @ Some (Inr d') # later)"
    and "answers_before 2 data_failure rs" and "completion 2 Status_Ok d"
    and "\<forall>r \<in> set rs'. \<not> completes (format_tag 3) r" and "completion 3 st d'"
    and logout: "\<And>t. first_text (List.map_filter fetched rs') = (Ok (Some t) :: (string option, 'x app_error) outcome) \<Longrightarrow>
        \<exists>rs'' d'' sc. later = responses rs'' @ Some (Inr d'') # sc \<and> answers_before 4 done_failure rs'' \<and> completion 4 Status_Ok d''"
  shows "\<exists>s'. inbox_top T K s = (first_text (List.map_filter fetched rs'), s')
     \<and> wire (conn s') = w @ command_line 2 (''SELECT '' @ quote ''INBOX'') @ command_line 3 ''FETCH 1 RFC822''
         @ (case first_text (List.map_filter fetched rs') :: (string option, 'x app_error) outcome of
              Ok (Some t) \<Rightarrow> command_line 4 ''LOGOUT'' | _ \<Rightarrow> [])"
proof -
  obtain s1 where s1: "select T K ''INBOX'' s = (Ok (mailbox_of rs), s1)"
    "at s1 (w @ command_line 2 (''SELECT '' @ quote ''INBOX'')) 2 (responses rs' @ Some (Inr d') # later)"
    using select_step [where m = "''INBOX''", OF assms(1)] assms(2,3) by (auto simp: numeral_2_eq_2)
  obtain stream s2 s3 where s3: "fetch_messages T K ''1'' ''RFC822'' s1 = (Ok stream, s2)"
    "try_collect stream s2 = (Ok (List.map_filter fetched rs'), s3)"
    "at s3 (w @ command_line 2 (''SELECT '' @ quote ''INBOX'') @ command_line 3 ''FETCH 1 RFC822'') 3 later"
    using fetch_step [OF s1(2), of st "''1''" "''RFC822''"] assms(4,5) by (auto simp: numeral_3_eq_3 numeral_2_eq_2)
  show ?thesis
  proof (cases "List.map_filter fetched rs'")
    case Nil
    with s1(1) s3 show ?thesis by (simp add: inbox_top_def first_text_def session_at_def)
  next
    case (Cons m ms)
    show ?thesis
    proof (cases "message_text m :: (string, 'x app_error) outcome")
      case (Ok t)
      with Cons logout obtain rs'' d'' sc where later: "later = responses rs'' @ Some (Inr d'') # sc"
        "answers_before 4 done_failure rs''" "completion 4 Status_Ok d''"
        by (auto simp: first_text_def)
      from logout_step [of s3 _ 3 rs'' d'' sc] s3(3) later obtain s4 where "logout T K s3 = (Ok (), s4)"
        "wire (conn s4) = w @ command_line 2 (''SELECT '' @ quote ''INBOX'') @ command_line 3 ''FETCH 1 RFC822'' @ command_line 4 ''LOGOUT''"
        by (auto simp: session_at_def)
      with s1(1) s3 Cons Ok show ?thesis by (simp add: inbox_top_def first_text_def)
    qed (use s1(1) s3 Cons in \<open>simp_all add: inbox_top_def first_text_def session_at_def\<close>)
  qed
qed

lemma flags_step:
  assumes "at s w 1 (responses rs @ Some (Inr d) # responses rs' @ Some (Inr d') # later)"
    and "answers_before 2 data_failure rs" and "completion 2 Status_Ok d"
    and "\<forall>r \<in> set rs'. \<not> completes (format_tag 3) r" and "completion 3 st d'"
  shows "\<exists>s'. select_and_fetch_flags T K s = (Ok (length (List.map_filter fetched rs')), s')
     \<and> at s' (w @ command_line 2 (''SELECT '' @ quote ''INBOX'') @ command_line 3 ''FETCH 1:* (FLAGS )'') 3 later"
proof -
  obtain s1 where s1: "select T K ''INBOX'' s = (Ok (mailbox_of rs), s1)"
    "at s1 (w @ command_line 2 (''SELECT '' @ quote ''INBOX'')) 2 (responses rs' @ Some (Inr d') # later)"
    using select_step [where m = "''INBOX''", OF assms(1)] assms(2,3) by (auto simp: numeral_2_eq_2)
  obtain stream s2 s3 where s3: "fetch_messages T K ''1:*'' ''(FLAGS )'' s1 = (Ok stream, s2)"
    "collect stream s2 = (Ok (map Inr (List.map_filter fetched rs')), s3)"
    "at s3 (w @ command_line 2 (''SELECT '' @ quote ''INBOX'') @ command_line 3 ''FETCH 1:* (FLAGS )'') 3 later"
    using fetch_step [OF s1(2), of st "''1:*''" "''(FLAGS )''"] assms(4,5) by (auto simp: numeral_3_eq_3 numeral_2_eq_2)
  show ?thesis
    using s1(1) s3 by (intro exI [of _ s3]) (simp add: select_and_fetch_flags_def)
qed

text \<open>The answers of a wait that \<open>ev\<close> ends: with \<open>Stream_Answers\<close> it is the response \<open>r\<close>.\<close>

lemma idle_and_logout_step:
  assumes "at s w n (responses rs @ Some (Inr g) # responses rs' @ (if ev = Stream_Answers then [Some (Inr r)] else []) @ later)"
    and "Suc n < 9999"
    and "\<forall>r \<in> set rs. \<not> continues r \<and> \<not> refuses (format_tag (Suc n)) r" and "continues g"
    and "\<forall>r \<in> set rs'. passes r" and "\<not> passes r"
    and later: "later = responses rs2 @ Some (Inr d2) # responses rs3 @ Some (Inr d3) # sc"
    and "answers_before (Suc n) done_failure rs2" and "completion (Suc n) Status_Ok d2"
    and "answers_before (Suc (Suc n)) done_failure rs3" and "completion (Suc (Suc n)) Status_Ok d3"
  shows "\<exists>s'. idle_and_logout T K (replicate (length rs') Stream_Answers @ [ev]) s =
       (if ev = Stream_Answers \<and> \<not> utf8_valid (raw r) then Panic ''called `Result::unwrap()` on an `Err` value'' else Ok (), Some s')
     \<and> wire (conn s') = w @ command_line (Suc n) ''IDLE'' @
         (if ev = Stream_Answers \<and> \<not> utf8_valid (raw r) then []
          else ''DONE'' @ [CR, LF] @ command_line (Suc (Suc n)) ''LOGOUT'')"
proof -
  let ?res = "case ev of Time_Elapsed \<Rightarrow> Timeout | Interrupted \<Rightarrow> ManualInterrupt | Stream_Answers \<Rightarrow> NewData r"
  have n: "n < 9999" using assms(2) by simp
  from idle_init_step [OF assms(1) n assms(3,4)] obtain h where h: "idle_init T K (idle s) = (Ok (), h)"
    "idle_at h (w @ command_line (Suc n) ''IDLE'') (Suc n) (responses rs' @ (if ev = Stream_Answers then [Some (Inr r)] else []) @ later)"
    by blast
  have "idle_wait_loop K [ev] ((if ev = Stream_Answers then [Some (Inr r)] else []) @ later) c = (Ok ?res, later, c)" for c
    using assms(6) by (cases ev) (simp_all add: idle_wait_new del: idle_wait_loop.simps(7))
  from idle_wait_step [OF h(2) assms(5) this] obtain h' where
    h': "idle_wait K (replicate (length rs') Stream_Answers @ [ev]) h = (Ok ?res, h')"
    "idle_at h' (w @ command_line (Suc n) ''IDLE'') (Suc n) later"
    unfolding idle_wait_def by blast
  show ?thesis
  proof (cases "ev = Stream_Answers \<and> \<not> utf8_valid (raw r)")
    case True
    with h(1) h' show ?thesis
      by (intro exI [of _ "session_of h'"]) (simp add: idle_and_logout_def report_idle_def idle_at_def session_at_def)
  next
    case False
    then have report: "report_idle ?res = (Ok () :: (unit, 'x app_error) outcome)" by (cases ev) (auto simp: report_idle_def)
    from idle_done_step [OF h'(2) [unfolded later] assms(8,9)] obtain s1 where s1: "idle_done T K h' = Ok s1"
      "at s1 ((w @ command_line (Suc n) ''IDLE'') @ ''DONE'' @ [CR, LF]) (Suc n) (responses rs3 @ Some (Inr d3) # sc)" by blast
    from logout_step [OF s1(2) assms(2,10,11)] obtain s2 where s2: "logout T K s1 = (Ok (), s2)"
      "at s2 (((w @ command_line (Suc n) ''IDLE'') @ ''DONE'' @ [CR, LF]) @ command_line (Suc (Suc n)) ''LOGOUT'') (Suc (Suc n)) sc"
      by blast
    with False h(1) h'(1) report s1(1) show ?thesis
      by (intro exI [of _ s2]) (simp add: idle_and_logout_def session_at_def)
  qed
qed

end

lemma session_userI:
  "command_sink T written \<Longrightarrow> reliable T \<Longrightarrow> channel_contract K contents capacity is_open \<Longrightarrow>
     session_user T written K contents capacity is_open"
  by (intro session_user.intro session_user_axioms.intro)

lemma tag_texts:
  "format_tag 1 = ''A0001''" "format_tag 2 = ''A0002''" "format_tag 3 = ''A0003''" "format_tag 4 = ''A0004''"
  "format_tag 5 = ''A0005''" "format_tag (Suc 0) = ''A0001''"
  by code_simp+

lemmas first_lines = command_line_def tag_texts

lemma logout_line: "command_line 4 ''LOGOUT'' = ''A0004 LOGOUT'' @ [CR, LF]"
  by (simp add: first_lines)

text \<open>
  C7: \<open>fetch_inbox_top\<close> as a whole.  On a connection whose server accepts the login, the selection
  and, where it comes to that, the logout, the program writes exactly its four lines under the tags
  \<open>A0001\<close> to \<open>A0004\<close> and returns the text of the first message that the answers to \<open>FETCH\<close> carry;
  when they carry none it returns \<open>None\<close> and does not log out.  Whether the server completed \<open>FETCH\<close>
  with \<open>OK\<close> plays no part, so a refusal looks like an empty mailbox.
\<close>

theorem fetch_inbox_top_run:
  fixes T :: "('r, 'x) transport"
  assumes "command_sink T written" and "reliable T" and "channel_contract K contents capacity is_open"
    and "net_connect N (server, 993) = Inr tcp" and "net_tls N server tcp = Inr tls"
    and "LF \<notin> set u" "CR \<notin> set u" "LF \<notin> set p" "CR \<notin> set p"
    and "net_answers N tls = responses rs1 @ Some (Inr d1) # responses rs2 @ Some (Inr d2)
           # responses rs3 @ Some (Inr d3) # responses rs4 @ Some (Inr d4) # later"
    and "answers_before 1 done_failure rs1" and "completion 1 Status_Ok d1"
    and "answers_before 2 data_failure rs2" and "completion 2 Status_Ok d2"
    and "\<forall>r \<in> set rs3. \<not> completes (format_tag 3) r" and "completion 3 st d3"
    and "answers_before 4 done_failure rs4" and "completion 4 Status_Ok d4"
  shows "\<exists>s. fetch_inbox_top N T K server u p = (first_text (List.map_filter fetched rs3), Some s)
     \<and> written (inner (stream (conn s))) = written tls
         @ ''A0001 LOGIN '' @ quote u @ '' '' @ quote p @ [CR, LF]
         @ ''A0002 SELECT '' @ quote ''INBOX'' @ [CR, LF]
         @ ''A0003 FETCH 1 RFC822'' @ [CR, LF]
         @ (case first_text (List.map_filter fetched rs3) :: (string option, 'x app_error) outcome of
              Ok (Some body) \<Rightarrow> ''A0004 LOGOUT'' @ [CR, LF]
            | _ \<Rightarrow> [])"
proof -
  note user = session_userI [OF assms(1-3)]
  from session_user.start_step [OF user assms(4,5,10,6-9,11,12)]
  obtain s where s: "obind (connect_tls N (server, 993) server) (\<lambda>tls. app_login (login T K u p (Client_new (net_answers N tls) tls))) = Ok s"
    "session_at written is_open s (written tls @ command_line 1 (''LOGIN '' @ quote u @ '' '' @ quote p)) 1
       (responses rs2 @ Some (Inr d2) # responses rs3 @ Some (Inr d3) # responses rs4 @ Some (Inr d4) # later)" by blast
  from session_user.inbox_top_step [OF user s(2) assms(13-16)] assms(17,18)
  obtain s' where s': "inbox_top T K s = (first_text (List.map_filter fetched rs3), s')"
    "written (inner (stream (conn s'))) =
       (written tls @ command_line 1 (''LOGIN '' @ quote u @ '' '' @ quote p)) @ command_line 2 (''SELECT '' @ quote ''INBOX'')
         @ command_line 3 ''FETCH 1 RFC822''
         @ (case first_text (List.map_filter fetched rs3) :: (string option, 'x app_error) outcome of
              Ok (Some t) \<Rightarrow> command_line 4 ''LOGOUT'' | _ \<Rightarrow> [])" by blast
  from s(1) s'(1) s'(2) [unfolded logout_line, unfolded first_lines] show ?thesis
    by (intro exI [of _ s']) (simp add: fetch_inbox_top_def)
qed

definition mock_network :: "nat script \<Rightarrow> (unit, mock_stream, nat) network" where
  "mock_network sc =
     \<lparr>net_connect = \<lambda>_. Inr (), net_tls = \<lambda>_ _. Inr MockStream_default, net_answers = \<lambda>_. sc\<rparr>"

definition done_as :: "nat \<Rightarrow> nat response_data" where
  "done_as n = sample (R_Done (format_tag n) Status_Ok None None)"

lemma completion_done_as: "completion n Status_Ok (done_as n)"
  by (simp add: completion_def done_as_def sample_def)

theorem fetch_inbox_top_run_witness:
  "\<exists>s. fetch_inbox_top (mock_network (map (Some \<circ> Inr) [exists_4, done_as 1, exists_4, done_as 2, sample_fetch, done_as 3, done_as 4]))
        mock_transport fifo_ops ''imap.example.org'' ''u'' ''p'' = (Ok (Some ''hi''), Some s)
     \<and> written_buf (inner (stream (conn s))) =
         ''A0001 LOGIN '' @ quote ''u'' @ '' '' @ quote ''p'' @ [CR, LF]
         @ ''A0002 SELECT '' @ quote ''INBOX'' @ [CR, LF]
         @ ''A0003 FETCH 1 RFC822'' @ [CR, LF] @ ''A0004 LOGOUT'' @ [CR, LF]"
proof -
  have body: "first_text (List.map_filter fetched [sample_fetch]) = (Ok (Some ''hi'') :: (string option, nat app_error) outcome)"
    by code_simp
  have quiet: "answers_before n data_failure [exists_4]" "answers_before n done_failure [exists_4]" for n
    by (simp_all add: answers_before_def sample_defs data_failure_def done_failure_def)
  have others: "\<forall>r \<in> set [sample_fetch]. \<not> completes (format_tag 3) r"
    by (simp add: sample_fetch_def completes_iff)
  let ?N = "mock_network (map (Some \<circ> Inr) [exists_4, done_as 1, exists_4, done_as 2, sample_fetch, done_as 3, done_as 4])"
  have net: "net_connect ?N (''imap.example.org'', 993) = Inr ()" "net_tls ?N ''imap.example.org'' () = Inr MockStream_default"
    and answers: "net_answers ?N MockStream_default = responses [exists_4] @ Some (Inr (done_as 1)) # responses [exists_4] @ Some (Inr (done_as 2))
      # responses [sample_fetch] @ Some (Inr (done_as 3)) # responses [] @ Some (Inr (done_as 4)) # []"
    by (simp_all add: mock_network_def)
  have "answers_before 4 done_failure ([] :: nat response_data list)" by (simp add: answers_before_def)
  note run = fetch_inbox_top_run [OF mock_commands.command_sink_axioms mock_reliable fifo_contract net _ _ _ _ answers
      quiet(2) completion_done_as quiet(1) completion_done_as others completion_done_as this completion_done_as, of "''u''" "''p''"]
  show ?thesis
    using run unfolding body by (simp add: MockStream_default_def)
qed

text \<open>
  C8: \<open>fetch_and_idle\<close> as a whole.  After the login, the selection and the fetch of the flags the
  program idles; the wait passes over keepalives, and ends with new data or at the interrupt.  Then
  the program writes \<open>DONE\<close>, waits for the completion of \<open>IDLE\<close> under its own tag, logs out and
  returns \<open>Ok\<close>, however many messages there were; but when the bytes that came with the new data
  are not text it panics, before \<open>DONE\<close> is sent.
\<close>

theorem fetch_and_idle_run:
  fixes T :: "('r, 'x) transport"
  assumes "command_sink T written" and "reliable T" and "channel_contract K contents capacity is_open"
    and "net_connect N (server, 993) = Inr tcp" and "net_tls N server tcp = Inr tls"
    and "LF \<notin> set u" "CR \<notin> set u" "LF \<notin> set p" "CR \<notin> set p"
    and "net_answers N tls = responses rs1 @ Some (Inr d1) # responses rs2 @ Some (Inr d2) # responses rs3 @ Some (Inr d3)
           # responses rs4 @ Some (Inr g) # responses rs5 @ (if ev = Stream_Answers then [Some (Inr r)] else [])
           @ responses rs6 @ Some (Inr d6) # responses rs7 @ Some (Inr d7) # sc"
    and "answers_before 1 done_failure rs1" and "completion 1 Status_Ok d1"
    and "answers_before 2 data_failure rs2" and "completion 2 Status_Ok d2"
    and "\<forall>r \<in> set rs3. \<not> completes (format_tag 3) r" and "completion 3 st d3"
    and "\<forall>r \<in> set rs4. \<not> continues r \<and> \<not> refuses (format_tag 4) r" and "continues g"
    and "\<forall>r \<in> set rs5. passes r" and "\<not> passes r"
    and "answers_before 4 done_failure rs6" and "completion 4 Status_Ok d6"
    and "answers_before 5 done_failure rs7" and "completion 5 Status_Ok d7"
  shows "\<exists>s. fetch_and_idle N T K (replicate (length rs5) Stream_Answers @ [ev]) server u p =
           (if ev = Stream_Answers \<and> \<not> utf8_valid (raw r) then Panic ''called `Result::unwrap()` on an `Err` value''
            else Ok (), Some s)
     \<and> written (inner (stream (conn s))) = written tls
         @ ''A0001 LOGIN '' @ quote u @ '' '' @ quote p @ [CR, LF]
         @ ''A0002 SELECT '' @ quote ''INBOX'' @ [CR, LF]
         @ ''A0003 FETCH 1:* (FLAGS )'' @ [CR, LF]
         @ ''A0004 IDLE'' @ [CR, LF]
         @ (if ev = Stream_Answers \<and> \<not> utf8_valid (raw r) then []
            else ''DONE'' @ [CR, LF] @ ''A0005 LOGOUT'' @ [CR, LF])"
proof -
  let ?bad = "ev = Stream_Answers \<and> \<not> utf8_valid (raw r)"
  let ?later = "responses rs6 @ Some (Inr d6) # responses rs7 @ Some (Inr d7) # sc"
  let ?idling = "responses rs4 @ Some (Inr g) # responses rs5 @ (if ev = Stream_Answers then [Some (Inr r)] else []) @ ?later"
  note user = session_userI [OF assms(1-3)]
  have tags: "Suc 3 = 4" "Suc 4 = (5::nat)" "Suc (Suc 3) = (5::nat)" by simp_all
  from session_user.start_step [OF user assms(4,5,10,6-9,11,12)]
  obtain s where s: "obind (connect_tls N (server, 993) server) (\<lambda>tls. app_login (login T K u p (Client_new (net_answers N tls) tls))) = Ok s"
    "session_at written is_open s (written tls @ command_line 1 (''LOGIN '' @ quote u @ '' '' @ quote p)) 1
       (responses rs2 @ Some (Inr d2) # responses rs3 @ Some (Inr d3) # ?idling)" by blast
  from session_user.flags_step [OF user s(2) assms(13-16)] obtain s1 where
    s1: "select_and_fetch_flags T K s = (Ok (length (List.map_filter fetched rs3)), s1)"
    "session_at written is_open s1 ((written tls @ command_line 1 (''LOGIN '' @ quote u @ '' '' @ quote p))
       @ command_line 2 (''SELECT '' @ quote ''INBOX'') @ command_line 3 ''FETCH 1:* (FLAGS )'') 3 ?idling" by blast
  from session_user.idle_and_logout_step [OF user s1(2), unfolded tags, OF _ assms(17-20) refl assms(21-24)]
  obtain s2 where s2: "idle_and_logout T K (replicate (length rs5) Stream_Answers @ [ev]) s1 =
      (if ?bad then Panic ''called `Result::unwrap()` on an `Err` value'' else Ok (), Some s2)"
    "written (inner (stream (conn s2))) = ((written tls @ command_line 1 (''LOGIN '' @ quote u @ '' '' @ quote p))
       @ command_line 2 (''SELECT '' @ quote ''INBOX'') @ command_line 3 ''FETCH 1:* (FLAGS )'') @ command_line 4 ''IDLE''
       @ (if ?bad then [] else ''DONE'' @ [CR, LF] @ command_line 5 ''LOGOUT'')" by auto
  from s(1) s1(1) s2(1) s2(2) [unfolded first_lines] show ?thesis
    by (intro exI [of _ s2]) (simp add: fetch_and_idle_def)
qed

theorem fetch_and_idle_run_witness:
  "\<exists>s. fetch_and_idle (mock_network (map (Some \<circ> Inr) [done_as 1, done_as 2, done_as 3,
          sample (R_Continue None None), exists_4, done_as 4, done_as 5]))
        mock_transport fifo_ops [Stream_Answers] ''imap.example.org'' ''u'' ''p'' = (Ok (), Some s)"
proof -
  let ?go = "sample (R_Continue None None) :: nat response_data"
  let ?N = "mock_network (map (Some \<circ> Inr) [done_as 1, done_as 2, done_as 3, ?go, exists_4, done_as 4, done_as 5])"
  have net: "net_connect ?N (''imap.example.org'', 993) = Inr ()" "net_tls ?N ''imap.example.org'' () = Inr MockStream_default"
    and answers: "net_answers ?N MockStream_default = responses [] @ Some (Inr (done_as 1)) # responses [] @ Some (Inr (done_as 2))
      # responses [] @ Some (Inr (done_as 3)) # responses [] @ Some (Inr ?go) # responses []
      @ (if Stream_Answers = Stream_Answers then [Some (Inr exists_4)] else [])
      @ responses [] @ Some (Inr (done_as 4)) # responses [] @ Some (Inr (done_as 5)) # []"
    by (simp_all add: mock_network_def)
  have none: "answers_before n f ([] :: nat response_data list)" for n f by (simp add: answers_before_def)
  have new: "\<not> passes exists_4" and go: "continues ?go" and valid: "utf8_valid (raw exists_4)"
    by (simp_all add: passes_def continues_def sample_defs utf8_valid.simps)
  note run = fetch_and_idle_run [OF mock_commands.command_sink_axioms mock_reliable fifo_contract net _ _ _ _ answers
      none completion_done_as none completion_done_as _ completion_done_as _ go _ new none completion_done_as none completion_done_as,
      of "''u''" "''p''"]
  show ?thesis
    using run valid by fastforce
qed

text \<open>
  The handshake that is given the greeting: it takes it for the beginning of the completion, so it
  reads on to the completion and sends nothing, whatever the server asks for on the way.
\<close>

lemma handshake_greeting:
  assumes "\<not> continues greeting" and "\<forall>r \<in> set (greeting # rs). \<not> completes tag r"
    and "\<forall>r \<in> set (greeting # rs). done_failure r = None"
  shows "do_auth_handshake T K B process tag a cn (responses (greeting # rs) @ sc) =
     (case check_done_ok None tag sc () of
        (r, sc', _) \<Rightarrow> or_unauth (r, cn\<lparr>incoming := sc'\<rparr>) (\<lambda>_ cn. Ok (Session_new K cn)))"
proof -
  from check_done_silent.run_prefix [OF assms(2) absorb_all_silent [OF assms(3)], of sc]
  have "check_done_ok_from None tag greeting (responses rs @ sc) () = check_done_ok None tag sc ()"
    by (simp add: check_done_ok_def)
  with assms(1) show ?thesis by (simp add: continues_def split: response.splits)
qed

text \<open>
  C23: \<open>gmail_oauth2\<close> never reads the greeting of the server, and the handshake takes the greeting for
  the beginning of the completion of \<open>AUTHENTICATE\<close>.  From then on every request of the server is
  passed over: whenever a completion comes, and whatever it says, the one line that has been sent is
  the command itself, with no answer to any of the challenges \<open>rs\<close> before it; its status decides
  between the rest of the program on a session in that state and the error.  So a server that waits
  for its answer is never answered: the program waits as long as no completion comes, and when the
  connection ends instead it reports that.
\<close>

theorem gmail_never_answers_challenge:
  assumes "command_sink T written" and "reliable T" and "channel_contract K contents capacity is_open"
    and "net_connect N (''imap.gmail.com'', 993) = Inr tcp" and "net_tls N ''imap.gmail.com'' tcp = Inr tls"
    and "net_answers N tls = responses (greeting # rs) @ sc" and "\<not> continues greeting"
    and "answers_before 1 done_failure (greeting # rs)"
  shows "(sc = [] \<longrightarrow> gmail_main N T K B = (Pending, None))
     \<and> (\<forall>later. sc = None # later \<longrightarrow> gmail_main N T K B = (Err (App_Imap ConnectionLost), None))
     \<and> (\<forall>d later code info st. sc = Some (Inr d) # later \<longrightarrow> parsed d = R_Done (format_tag 1) st code info \<longrightarrow>
          (\<exists>cn. written (inner (stream cn)) = written tls @ ''A0001 AUTHENTICATE XOAUTH2'' @ [CR, LF] \<and> incoming cn = later
             \<and> authenticate T K B gmail_process ''XOAUTH2'' gmail_auth (Client_new (net_answers N tls) tls) =
                 (case check_status_ok st code info of Err e \<Rightarrow> Err (e, cn) | _ \<Rightarrow> Ok (Session_new K cn))
             \<and> gmail_main N T K B =
                 (case check_status_ok st code info of
                    Err e \<Rightarrow> (Err (App_Imap e), None)
                  | _ \<Rightarrow> (case gmail_session T K (Session_new K cn) of (r, s) \<Rightarrow> (r, Some s)))))"
proof -
  let ?client = "Client_new (net_answers N tls) tls"
  have "unat (next_id (request_ids ?client)) = 0" by (simp add: Client_new_def IdGenerator_new_def)
  from session_user.run_command_at [OF session_userI [OF assms(1-3)] this, of "''AUTHENTICATE '' @ ''XOAUTH2''"]
  obtain cn where cn: "run_command T (''AUTHENTICATE '' @ ''XOAUTH2'') ?client = (Ok (format_tag 1), cn)"
    "incoming cn = responses (greeting # rs) @ sc"
    "written (inner (stream cn)) = written tls @ ''A0001 AUTHENTICATE XOAUTH2'' @ [CR, LF]"
    using assms(6) by (auto simp: Client_new_def ImapStream_new_def command_line_def first_lines)
  have main: "gmail_main N T K B =
      with_session (app_login (authenticate T K B gmail_process ''XOAUTH2'' gmail_auth ?client)) (gmail_session T K)"
    by (simp add: gmail_main_def connect_tls_Ok [OF assms(4,5)])
  have auth: "authenticate T K B gmail_process ''XOAUTH2'' gmail_auth ?client =
      (case check_done_ok None (format_tag 1) sc () of
         (r, sc', _) \<Rightarrow> or_unauth (r, cn\<lparr>incoming := sc'\<rparr>) (\<lambda>_ cn. Ok (Session_new K cn)))"
    using cn(1) unfolding authenticate_def cn(1) or_unauth.simps cn(2)
    by (intro handshake_greeting [OF assms(7) answers_beforeD [OF assms(8)]])
  have silent: "check_done_ok None (format_tag 1) sc () = (check_status_ok st code info, later, ())"
    if "sc = Some (Inr d) # later" "parsed d = R_Done (format_tag 1) st code info" for d later st code info
    using check_done_silent.loop_complete [of "format_tag 1" d later "()"] that
    by (simp add: completes_iff done_result_Done [OF that(2)])
  have waits: "sc = [] \<Longrightarrow> gmail_main N T K B = (Pending, None)"
    and lost: "sc = None # later \<Longrightarrow> gmail_main N T K B = (Err (App_Imap ConnectionLost), None)" for later
    unfolding main by (simp_all add: auth check_done_ok_def app_login_def)
  show ?thesis
  proof (intro conjI allI impI waits lost)
    fix d later code info st
    assume d: "sc = Some (Inr d) # later" "parsed d = R_Done (format_tag 1) st code info"
    show "\<exists>cn. written (inner (stream cn)) = written tls @ ''A0001 AUTHENTICATE XOAUTH2'' @ [CR, LF] \<and> incoming cn = later
             \<and> authenticate T K B gmail_process ''XOAUTH2'' gmail_auth ?client =
                 (case check_status_ok st code info of Err e \<Rightarrow> Err (e, cn) | _ \<Rightarrow> Ok (Session_new K cn))
             \<and> gmail_main N T K B =
                 (case check_status_ok st code info of
                    Err e \<Rightarrow> (Err (App_Imap e), None)
                  | _ \<Rightarrow> (case gmail_session T K (Session_new K cn) of (r, s) \<Rightarrow> (r, Some s)))"
      unfolding main auth silent [OF d] prod.case using cn(3)
      by (intro exI [of _ "cn\<lparr>incoming := later\<rparr>"]) (cases st; simp add: check_status_ok_def app_login_def split: prod.split)
  qed
qed

text \<open>The server greets, asks for the answer, and gives up.\<close>

theorem gmail_never_answers_challenge_witness:
  "\<exists>cn. written_buf (inner (stream cn)) = ''A0001 AUTHENTICATE XOAUTH2'' @ [CR, LF]
     \<and> authenticate mock_transport fifo_ops plain_base64 gmail_process ''XOAUTH2'' gmail_auth
         (Client_new (responses [sample (R_Data Status_Ok None (Some ''ready'')), sample (R_Continue None None), done_no]) MockStream_default)
       = Err (No (Code_Info None None), cn)"
proof -
  let ?greeting = "sample (R_Data Status_Ok None (Some ''ready''))" and ?rs = "[sample (R_Continue None None)]"
  let ?N = "mock_network (responses (?greeting # ?rs @ [done_no]))"
  show ?thesis
    using gmail_never_answers_challenge [OF mock_commands.command_sink_axioms mock_reliable fifo_contract, of ?N "()" MockStream_default
        ?greeting ?rs "[Some (Inr done_no)]" plain_base64]
    by (auto simp: mock_network_def continues_def answers_before_def sample_defs completes_iff done_failure_def check_status_ok_def
        MockStream_default_def first_lines)
qed

text \<open>
  The integration test \<open>inbox_zero\<close> reads the greeting, logs in, selects \<open>INBOX\<close> and searches it,
  and passes exactly when the answers to \<open>SEARCH\<close> list no message; a refused \<open>SEARCH\<close> passes too,
  since its completion is not looked at.
\<close>

theorem inbox_zero_run:
  fixes T :: "('r, 'x) transport"
  assumes "command_sink T written" and "reliable T" and "channel_contract K contents capacity is_open"
    and "net_connect N (test_host var, 3993) = Inr tcp" and "net_tls N ''imap.example.com'' tcp = Inr tls"
    and "net_answers N tls = Some greeting # responses rs1 @ Some (Inr d1) # responses rs2 @ Some (Inr d2)
           # responses rs3 @ Some (Inr d3) # later"
    and "answers_before 1 done_failure rs1" and "completion 1 Status_Ok d1"
    and "answers_before 2 data_failure rs2" and "completion 2 Status_Ok d2"
    and "\<forall>r \<in> set rs3. \<not> completes (format_tag 3) r" and "completion 3 st d3"
  shows "\<exists>s. inbox_zero N T K var =
           (if \<forall>r \<in> set rs3. search_ids r \<in> {None, Some []} then Ok () else Panic ''assertion failed'', Some s)
     \<and> incoming (conn s) = later
     \<and> written (inner (stream (conn s))) = written tls
         @ ''A0001 LOGIN '' @ quote ''readonly-test@localhost'' @ '' '' @ quote ''readonly-test@localhost'' @ [CR, LF]
         @ ''A0002 SELECT '' @ quote ''INBOX'' @ [CR, LF] @ ''A0003 SEARCH ALL'' @ [CR, LF]"
proof -
  let ?u = "''readonly-test@localhost''"
  let ?client = "(Client_new (net_answers N tls) tls)\<lparr>incoming := responses rs1 @ Some (Inr d1) # responses rs2 @ Some (Inr d2)
           # responses rs3 @ Some (Inr d3) # later\<rparr>"
  let ?ids = "\<Union> (set ` set (List.map_filter search_ids rs3))"
  note user = session_userI [OF assms(1-3)]
  have greet: "read_greeting (Client_new (net_answers N tls) tls) = (Ok greeting, ?client)"
    by (simp add: read_greeting_def read_response_def Client_new_def assms(6))
  obtain s where s: "login T K ?u ?u ?client = Ok s"
    "session_at written is_open s (written tls @ command_line 1 (''LOGIN '' @ quote ?u @ '' '' @ quote ?u)) 1
       (responses rs2 @ Some (Inr d2) # responses rs3 @ Some (Inr d3) # later)"
    using session_user.login_step [OF user, of ?client rs1 d1 "responses rs2 @ Some (Inr d2) # responses rs3 @ Some (Inr d3) # later" 0 ?u ?u] assms(7,8)
    by (auto simp: Client_new_def IdGenerator_new_def ImapStream_new_def)
  obtain s1 where s1: "select T K ''INBOX'' s = (Ok (mailbox_of rs2), s1)"
    "session_at written is_open s1 ((written tls @ command_line 1 (''LOGIN '' @ quote ?u @ '' '' @ quote ?u))
       @ command_line 2 (''SELECT '' @ quote ''INBOX'')) 2 (responses rs3 @ Some (Inr d3) # later)"
    using session_user.select_step [OF user s(2), of "''INBOX''"] assms(9,10) by (auto simp: numeral_2_eq_2)
  obtain s2 where s2: "search T K ''ALL'' s1 = (Ok ?ids, s2)"
    "session_at written is_open s2 (((written tls @ command_line 1 (''LOGIN '' @ quote ?u @ '' '' @ quote ?u))
       @ command_line 2 (''SELECT '' @ quote ''INBOX'')) @ command_line 3 (''SEARCH ALL'')) 3 later"
    using session_user.search_step [OF user s1(2), of st "''ALL''"] assms(11,12) by (auto simp: numeral_3_eq_3 numeral_2_eq_2)
  have "card ?ids = 0 \<longleftrightarrow> (\<forall>r \<in> set rs3. search_ids r \<in> {None, Some []})"
    by (induction rs3) (auto simp: List.map_filter_simps split: option.split)
  with s s1(1) s2 greet show ?thesis
    by (intro exI [of _ s2])
      (simp add: inbox_zero_def test_session_def connect_tls_Ok [OF assms(4,5)] app_login_def app_assert_def session_at_def first_lines)
qed

theorem inbox_zero_run_witness:
  "\<exists>s. inbox_zero (mock_network (map (Some \<circ> Inr) [exists_4, done_as 1, done_as 2, sample (R_MailboxData (MD_Search [])), done_as 3]))
        mock_transport fifo_ops None = (Ok (), Some s) \<and> incoming (conn s) = []"
proof -
  let ?none = "sample (R_MailboxData (MD_Search [])) :: nat response_data"
  let ?N = "mock_network (map (Some \<circ> Inr) [exists_4, done_as 1, done_as 2, ?none, done_as 3])"
  have net: "net_connect ?N (test_host None, 3993) = Inr ()" "net_tls ?N ''imap.example.com'' () = Inr MockStream_default"
    and answers: "net_answers ?N MockStream_default = Some (Inr exists_4) # responses [] @ Some (Inr (done_as 1))
      # responses [] @ Some (Inr (done_as 2)) # responses [?none] @ Some (Inr (done_as 3)) # []"
    by (simp_all add: mock_network_def)
  have none: "answers_before n f ([] :: nat response_data list)" for n f by (simp add: answers_before_def)
  have quiet: "\<forall>r \<in> set [?none]. \<not> completes (format_tag 3) r" and empty: "search_ids ?none = Some []"
    by (simp_all add: sample_def completes_iff search_ids_def)
  from inbox_zero_run [OF mock_commands.command_sink_axioms mock_reliable fifo_contract net answers
      none completion_done_as none completion_done_as quiet completion_done_as] empty
  show ?thesis by auto
qed

end
