(* ===== verification/Inbox_Tests.thy ===== *)
theory Inbox_Tests
  imports Examples
begin

text \<open>
  The integration tests \<open>inbox\<close> and \<open>inbox_uid\<close> of \<open>examples/src/bin/integration.rs\<close>: log in, send a mail
  through SMTP, find it, read the unsolicited responses, fetch the mail and delete it.  The SMTP library,
  the user's end of the channel and the views of an envelope are parameters.
\<close>

section \<open>The user's end of the channel\<close>

text \<open>
  \<open>recv().await\<close> takes the oldest message, or fails because the channel is closed and empty, or waits for
  a message.
\<close>

datatype 'm recv_result = Received 'm | Recv_Closed | Recv_Waits

record ('c, 'm) receiver_ops =
  rx_is_empty :: "'c \<Rightarrow> bool"
  rx_recv :: "'c \<Rightarrow> 'm recv_result \<times> 'c"

definition receiver_contract :: "('c, 'm) receiver_ops \<Rightarrow> ('c \<Rightarrow> 'm list) \<Rightarrow> ('c \<Rightarrow> bool) \<Rightarrow> bool" where
  "receiver_contract R contents is_open \<longleftrightarrow>
     (\<forall>c. rx_is_empty R c \<longleftrightarrow> contents c = [])
   \<and> (\<forall>c m ms. contents c = m # ms \<longrightarrow>
        (case rx_recv R c of (r, c') \<Rightarrow> r = Received m \<and> contents c' = ms \<and> is_open c' = is_open c))"

text \<open>
  \<open>while !unsolicited_responses.is_empty() { unsolicited.push(recv().await ..) }\<close>; \<open>closed\<close> is what the test
  makes of an error.  A loop that does not end has no value.
\<close>

partial_function (option) drain :: "('c, 'm) receiver_ops \<Rightarrow> ('m list, 'e) outcome \<Rightarrow> 'c \<Rightarrow> 'm list
    \<Rightarrow> (('m list, 'e) outcome \<times> 'c) option" where
  "drain R closed c news =
     (if rx_is_empty R c then Some (Ok news, c)
      else
        (case rx_recv R c of
           (Received m, c') \<Rightarrow> drain R closed c' (news @ [m])
         | (Recv_Closed, c') \<Rightarrow> Some (closed, c')
         | (Recv_Waits, c') \<Rightarrow> Some (Pending, c')))"

definition drain_session :: "('c, 'x unsolicited_response) receiver_ops \<Rightarrow> ('x unsolicited_response list, 'e) outcome
    \<Rightarrow> ('r, 'x, 'c) session \<Rightarrow> ('x unsolicited_response list, 'e) outcome \<times> ('r, 'x, 'c) session" where
  "drain_session R closed s =
     (case drain R closed (unsolicited s) [] of
        Some (r, c) \<Rightarrow> (r, s\<lparr>unsolicited := c\<rparr>)
      | None \<Rightarrow> (Pending, s))"

lemma drain_all:
  assumes "receiver_contract R contents is_open"
  shows "contents c = ms \<Longrightarrow> \<exists>c'. drain R closed c acc = Some (Ok (acc @ ms), c') \<and> contents c' = [] \<and> is_open c' = is_open c"
proof (induction ms arbitrary: c acc)
  case Nil
  with assms show ?case by (subst drain.simps) (simp add: receiver_contract_def)
next
  case (Cons m ms)
  with assms obtain c1 where c1: "rx_recv R c = (Received m, c1)" "contents c1 = ms" "is_open c1 = is_open c" "\<not> rx_is_empty R c"
    by (cases "rx_recv R c") (fastforce simp: receiver_contract_def)
  with Cons.IH [OF c1(2), of "acc @ [m]"] show ?case by (subst drain.simps) simp
qed

section \<open>Sending mail\<close>

record email =
  mail_from :: string
  mail_to :: "string list"
  mail_text :: string

record ('r, 'm, 'x) smtp_ops =
  smtp_new :: "'r \<Rightarrow> 'x + 'm"
  smtp_try_login :: "string \<Rightarrow> string \<Rightarrow> 'm \<Rightarrow> 'x + 'm"
  smtp_send :: "email \<Rightarrow> 'm \<Rightarrow> 'x + 'm"
  smtp_address :: "string \<Rightarrow> bool"

text \<open>\<open>smtp\<close>: the client speaks UTF-8 and logs in with \<open>PLAIN\<close> or \<open>LOGIN\<close>, as \<open>smtp_new\<close> and \<open>smtp_try_login\<close> do.\<close>

definition smtp :: "('t, 'r, 'x) network \<Rightarrow> ('r, 'm, 'x) smtp_ops \<Rightarrow> string option \<Rightarrow> string \<Rightarrow> ('m, 'x app_error) outcome" where
  "smtp N M var user =
     obind (connect_tls N (test_host var, 3465) ''localhost'') (\<lambda>tls_stream.
     obind (try_result App_Smtp (smtp_new M tls_stream)) (\<lambda>transport.
       try_result App_Smtp (smtp_try_login M user user transport)))"

text \<open>\<open>make_email\<close>; \<open>parse().unwrap()\<close> panics on what is not an address.\<close>

definition make_email :: "('r, 'm, 'x) smtp_ops \<Rightarrow> string \<Rightarrow> (email, 'e) outcome" where
  "make_email M to =
     (if smtp_address M ''sender@localhost'' \<and> smtp_address M to
      then Ok \<lparr>mail_from = ''sender@localhost'', mail_to = [to],
        mail_text = ''To: <'' @ to @ ''>'' @ [CR, LF] @ ''From: <sender@localhost>'' @ [CR, LF] @ ''Message-ID: <'' @ ''abc''
          @ ''.msg@localhost>'' @ [CR, LF] @ ''Subject: My first e-mail'' @ [CR, LF] @ [CR, LF] @ ''Hello world from SMTP''\<rparr>
      else Panic ''called Result::unwrap() on an Err value'')"

definition send_mail :: "('t, 'r, 'x) network \<Rightarrow> ('r, 'm, 'x) smtp_ops \<Rightarrow> string option \<Rightarrow> string \<Rightarrow> (unit, 'x app_error) outcome" where
  "send_mail N M var to =
     obind (smtp N M var to) (\<lambda>s.
     obind (make_email M to) (\<lambda>mail.
     obind (try_result App_Smtp (smtp_send M mail s)) (\<lambda>_. Ok ())))"

section \<open>Looking at the mail\<close>

record address =
  adr_mailbox :: "string option"
  adr_host :: "string option"

record 'x envelope_ops =
  env_subject :: "'x \<Rightarrow> string option"
  env_from :: "'x \<Rightarrow> address list option"
  env_to :: "'x \<Rightarrow> address list option"

definition unwrap_some :: "'a option \<Rightarrow> ('a, 'e) outcome" where
  "unwrap_some v = (case v of Some a \<Rightarrow> Ok a | None \<Rightarrow> Panic ''called `Option::unwrap()` on a `None` value'')"

definition require :: "bool \<Rightarrow> (unit, 'e) outcome" where
  "require b = (if b then Ok () else Panic ''assertion failed'')"

definition one_address :: "address list option \<Rightarrow> string \<Rightarrow> string \<Rightarrow> (unit, 'e) outcome" where
  "one_address addresses mailbox host =
     obind (require (addresses \<noteq> None)) (\<lambda>_.
     obind (unwrap_some addresses) (\<lambda>as.
     obind (require (length as = 1)) (\<lambda>_.
     obind (require (adr_mailbox (as ! 0) = Some mailbox)) (\<lambda>_.
       require (adr_host (as ! 0) = Some host)))))"

definition check_mail :: "'x envelope_ops \<Rightarrow> (string \<Rightarrow> string \<Rightarrow> 'd option) \<Rightarrow> 'x fetch \<Rightarrow> (unit, 'e) outcome" where
  "check_mail E parse_from_str fetch =
     obind (require (message fetch = 1)) (\<lambda>_.
     obind (require (uid fetch \<noteq> None)) (\<lambda>_.
     obind (require (size32 fetch = Some 21)) (\<lambda>_.
     obind (fetch_envelope fetch) (\<lambda>e.
     obind (unwrap_some e) (\<lambda>e.
     obind (require (env_subject E e = Some ''My first e-mail'')) (\<lambda>_.
     obind (one_address (env_from E e) ''sender'' ''localhost'') (\<lambda>_.
     obind (one_address (env_to E e) ''inbox'' ''localhost'') (\<lambda>_.
     obind (fetch_internal_date parse_from_str fetch) (\<lambda>date_opt.
       require (date_opt \<noteq> None))))))))))"

definition check_mail_uid :: "'x envelope_ops \<Rightarrow> (string \<Rightarrow> string \<Rightarrow> 'd option) \<Rightarrow> u32 \<Rightarrow> 'x fetch \<Rightarrow> (unit, 'e) outcome" where
  "check_mail_uid E parse_from_str i fetch =
     obind (require (uid fetch = Some i)) (\<lambda>_.
     obind (fetch_envelope fetch) (\<lambda>e.
     obind (unwrap_some e) (\<lambda>e.
     obind (require (env_subject E e = Some ''My first e-mail'')) (\<lambda>_.
     obind (fetch_internal_date parse_from_str fetch) (\<lambda>date_opt.
       require (date_opt \<noteq> None))))))"

text \<open>The two unsolicited responses that are to have come.\<close>

definition check_news :: "'x unsolicited_response list \<Rightarrow> (unit, 'e) outcome" where
  "check_news news =
     obind (require (length news = 2)) (\<lambda>_.
     obind (require (U_Exists 1 \<in> set news)) (\<lambda>_.
       require (U_Recent 1 \<in> set news)))"

section \<open>The tests\<close>

text \<open>\<open>unwrap()\<close> of the result of a method.\<close>

fun app_unwrap :: "('a, 'x error) outcome \<times> 's \<Rightarrow> ('a, 'x app_error) outcome \<times> 's" where
  "app_unwrap (Ok a, s) = (Ok a, s)"
| "app_unwrap (Err e, s) = (Panic ''called Result::unwrap() on an Err value'', s)"
| "app_unwrap (Panic m, s) = (Panic m, s)"
| "app_unwrap (Pending, s) = (Pending, s)"

definition inbox_test :: "('t, 'r, 'x) network \<Rightarrow> ('r, 'x) transport \<Rightarrow> ('c, 'x unsolicited_response) channel_ops
    \<Rightarrow> ('c, 'x unsolicited_response) receiver_ops \<Rightarrow> ('r, 'm, 'x) smtp_ops \<Rightarrow> 'x envelope_ops \<Rightarrow> (string \<Rightarrow> string \<Rightarrow> 'd option)
    \<Rightarrow> string option \<Rightarrow> (unit, 'x app_error) outcome \<times> ('r, 'x, 'c) session option" where
  "inbox_test N T K R M E parse_from_str var =
     with_session (test_session N T K var ''inbox@localhost'') (\<lambda>c.
       bind_out (app (select T K ''INBOX'' c)) (\<lambda>_ c.
       bind_out (send_mail N M var ''inbox@localhost'', c) (\<lambda>_ _.
       bind_out (app (search T K ''ALL'' c)) (\<lambda>inbox c.
       bind_out (obind (require (card inbox = 1)) (\<lambda>_. require (1 \<in> inbox)), c) (\<lambda>_ _.
       bind_out (app_unwrap (noop T K c)) (\<lambda>_ c.
       bind_out (drain_session R (Panic ''called Result::unwrap() on an Err value'') c) (\<lambda>news c.
       bind_out (check_news news, c) (\<lambda>_ _.
       bind_out (app_unwrap (fetch_messages T K ''1'' ''(ALL UID)'' c)) (\<lambda>fetches c.
       bind_out (app_unwrap (try_collect fetches c)) (\<lambda>fetch c.
       bind_out (obind (require (length fetch = 1)) (\<lambda>_. check_mail E parse_from_str (fetch ! 0)), c) (\<lambda>_ _.
       bind_out (app_unwrap (store T K ''1'' (''+FLAGS ('' @ [bslash] @ ''Deleted)'') c)) (\<lambda>stored c.
       bind_out (app (collect stored c)) (\<lambda>_ c.
       bind_out (app_unwrap (expunge T K c)) (\<lambda>expunged c.
       bind_out (app (collect expunged c)) (\<lambda>_ c.
       bind_out (app (search T K ''ALL'' c)) (\<lambda>inbox c.
         (require (card inbox = 0), c)))))))))))))))))"

definition inbox_uid_test :: "('t, 'r, 'x) network \<Rightarrow> ('r, 'x) transport \<Rightarrow> ('c, 'x unsolicited_response) channel_ops
    \<Rightarrow> ('c, 'x unsolicited_response) receiver_ops \<Rightarrow> ('r, 'm, 'x) smtp_ops \<Rightarrow> 'x envelope_ops \<Rightarrow> (string \<Rightarrow> string \<Rightarrow> 'd option)
    \<Rightarrow> string option \<Rightarrow> (unit, 'x app_error) outcome \<times> ('r, 'x, 'c) session option" where
  "inbox_uid_test N T K R M E parse_from_str var =
     with_session (test_session N T K var ''inbox-uid@localhost'') (\<lambda>c.
       bind_out (app (select T K ''INBOX'' c)) (\<lambda>_ c.
       bind_out (send_mail N M var ''inbox-uid@localhost'', c) (\<lambda>_ _.
       bind_out (app (uid_search T K ''ALL'' c)) (\<lambda>inbox c.
       bind_out (require (card inbox = 1), c) (\<lambda>_ _.
       let i = the_elem inbox in
       bind_out (app (noop T K c)) (\<lambda>_ c.
       bind_out (drain_session R (Err App_Recv) c) (\<lambda>news c.
       bind_out (check_news news, c) (\<lambda>_ _.
       bind_out (app (uid_fetch T K (decimal (unat i)) ''(ALL UID)'' c)) (\<lambda>fetches c.
       bind_out (app (try_collect fetches c)) (\<lambda>fetch c.
       bind_out (obind (require (length fetch = 1)) (\<lambda>_. check_mail_uid E parse_from_str i (fetch ! 0)), c) (\<lambda>_ _.
       bind_out (app (uid_store T K (decimal (unat i)) (''+FLAGS ('' @ [bslash] @ ''Deleted)'') c)) (\<lambda>stored c.
       bind_out (app (collect stored c)) (\<lambda>_ c.
       bind_out (app (expunge T K c)) (\<lambda>expunged c.
       bind_out (app (collect expunged c)) (\<lambda>_ c.
       bind_out (app (search T K ''ALL'' c)) (\<lambda>inbox c.
         (require (card inbox = 0), c)))))))))))))))))"

text \<open>\<open>main\<close> runs the five tests one after the other, each on connections of its own.\<close>

definition integration_main :: "('t, 'r, 'x) network \<Rightarrow> ('r, 'x) transport \<Rightarrow> ('c, 'x unsolicited_response) channel_ops
    \<Rightarrow> ('c, 'x unsolicited_response) receiver_ops \<Rightarrow> ('r, 'm, 'x) smtp_ops \<Rightarrow> 'x envelope_ops \<Rightarrow> (string \<Rightarrow> string \<Rightarrow> 'd option)
    \<Rightarrow> string option \<Rightarrow> (unit, 'x app_error) outcome" where
  "integration_main N T K R M E parse_from_str var =
     obind (fst (login_test N T K var)) (\<lambda>_.
     obind (fst (logout_test N T K var)) (\<lambda>_.
     obind (fst (inbox_zero N T K var)) (\<lambda>_.
     obind (fst (inbox_test N T K R M E parse_from_str var)) (\<lambda>_.
       fst (inbox_uid_test N T K R M E parse_from_str var)))))"

section \<open>What they do\<close>

text \<open>The ids a search finds, and what the three commands before the news hand over.\<close>

definition found :: "'x response_data list \<Rightarrow> u32 set" where
  "found rs = \<Union> (set ` set (List.map_filter search_ids rs))"

definition inbox_news :: "'x response_data list \<Rightarrow> 'x response_data list \<Rightarrow> 'x response_data list \<Rightarrow> 'x unsolicited_response list" where
  "inbox_news selecting searching waiting =
     map unsolicited_of (filter (\<lambda>r. mailbox_update r = None) selecting)
     @ map unsolicited_of (filter (\<lambda>r. search_ids r = None) searching) @ map unsolicited_of waiting"

lemma or_unauth_Ok_iff: "or_unauth p f = Ok s \<longleftrightarrow> (\<exists>a cn. p = (Ok a, cn) \<and> f a cn = Ok s)"
  by (cases "(p, f)" rule: or_unauth.cases) auto

lemma login_channel: "login T K u p cn = Ok s \<Longrightarrow> unsolicited s = ch_bounded K 100"
  by (auto simp: login_def Session_new_def or_unauth_Ok_iff)

context session_user
begin

lemma session_start:
  assumes "net_connect N (test_host var, 3993) = Inr tcp" and "net_tls N ''imap.example.com'' tcp = Inr tls"
    and "net_answers N tls = Some greeting # responses rs @ Some (Inr d) # sc"
    and "answers_before 1 done_failure rs" and "completion 1 Status_Ok d" and "LF \<notin> set u" "CR \<notin> set u"
  shows "\<exists>s. test_session N T K var u = Ok s
     \<and> at s (written tls @ command_line 1 (''LOGIN '' @ quote u @ '' '' @ quote u)) 1 sc \<and> unsolicited s = ch_bounded K 100"
proof -
  let ?client = "(Client_new (net_answers N tls) tls)\<lparr>incoming := responses rs @ Some (Inr d) # sc\<rparr>"
  have "read_greeting (Client_new (net_answers N tls) tls) = (Ok greeting, ?client)"
    by (simp add: read_greeting_def read_response_def Client_new_def assms(3))
  moreover obtain s where s: "login T K u u ?client = Ok s"
    "at s (written tls @ command_line 1 (''LOGIN '' @ quote u @ '' '' @ quote u)) 1 sc"
    using login_step [of ?client rs d sc 0 u u] assms(4-7)
    by (auto simp: Client_new_def IdGenerator_new_def ImapStream_new_def)
  ultimately show ?thesis
    using login_channel [OF s(1)] by (simp add: test_session_def connect_tls_Ok [OF assms(1,2)] app_login_def)
qed

text \<open>A search by either command, and a \<open>NOOP\<close>, with what they hand over.\<close>

lemma ids_step:
  assumes "at s w n (responses rs @ Some (Inr d) # sc)" and "n < 9999"
    and before: "\<forall>r \<in> set rs. \<not> completes (format_tag (Suc n)) r" and last: "completion (Suc n) st d"
  shows "\<exists>s'. bind_out (session_run_command T command s) (\<lambda>tag. parse_answers (parse_ids K tag)) = (Ok (found rs), s')
     \<and> at s' (w @ command_line (Suc n) command) (Suc n) sc
     \<and> delivered contents capacity is_open (unsolicited s) (map unsolicited_of (filter (\<lambda>r. search_ids r = None) rs)) (unsolicited s')"
proof (rule command_parse_step [OF assms(1,2)])
  fix c assume "is_open c"
  moreover have "ends_command (format_tag (Suc n)) (Some (Inr d))"
    using completion_completes [OF last] by (simp add: ends_command_def)
  ultimately show "\<exists>c'. parse_ids K (format_tag (Suc n)) (responses rs @ Some (Inr d) # sc) c = (Ok (found rs), sc, c')
     \<and> delivered contents capacity is_open c (map unsolicited_of (filter (\<lambda>r. search_ids r = None) rs)) c'"
    using ids.run_filter [OF channel _ before, where sc = sc and acc = "{}"] by (simp add: parse_ids_def fold_insert_ids found_def)
qed

lemma noop_step:
  assumes "at s w n (responses rs @ Some (Inr d) # sc)" and "n < 9999"
    and before: "\<forall>r \<in> set rs. \<not> completes (format_tag (Suc n)) r" and last: "completion (Suc n) st d"
  shows "\<exists>s'. noop T K s = (Ok (), s') \<and> at s' (w @ command_line (Suc n) ''NOOP'') (Suc n) sc
     \<and> delivered contents capacity is_open (unsolicited s) (map unsolicited_of rs) (unsolicited s')"
  unfolding noop_def
proof (rule command_parse_step [OF assms(1,2)])
  fix c assume "is_open c"
  moreover have "ends_command (format_tag (Suc n)) (Some (Inr d))"
    using completion_completes [OF last] by (simp add: ends_command_def)
  ultimately show "\<exists>c'. parse_noop K (format_tag (Suc n)) (responses rs @ Some (Inr d) # sc) c = (Ok (), sc, c')
     \<and> delivered contents capacity is_open c (map unsolicited_of rs) c'"
    using noop.run_filter [OF channel _ before, where sc = sc] by simp
qed

lemma select_gets:
  assumes "at s w n (responses rs @ Some (Inr d) # sc)" and "n < 9999" and "LF \<notin> set m" "CR \<notin> set m"
    and before: "answers_before (Suc n) data_failure rs" and last: "completion (Suc n) Status_Ok d"
  shows "\<exists>s'. select T K m s = (Ok (mailbox_of rs), s') \<and> at s' (w @ command_line (Suc n) (''SELECT '' @ quote m)) (Suc n) sc
     \<and> delivered contents capacity is_open (unsolicited s) (map unsolicited_of (filter (\<lambda>r. mailbox_update r = None) rs)) (unsolicited s')"
proof -
  from last obtain code info where d: "parsed d = R_Done (format_tag (Suc n)) Status_Ok code info"
    by (auto simp: completion_def)
  have "\<exists>c'. parse_mailbox K (format_tag (Suc n)) (responses rs @ Some (Inr d) # sc) c = (Ok (mailbox_of rs), sc, c')
     \<and> delivered contents capacity is_open c (map unsolicited_of (filter (\<lambda>r. mailbox_update r = None) rs)) c'" if "is_open c" for c
    using parse_mailbox_complete [OF channel that answers_beforeD [OF before] d, of sc] by simp
  from command_parse_step [where parse = "parse_mailbox K", OF assms(1,2) this] assms(3,4)
  show ?thesis by (simp add: select_def validate_str_Ok)
qed

text \<open>The part of both tests up to the news, with any command for the search.\<close>

lemma upto_news:
  assumes "at s w 1 (responses rs2 @ Some (Inr d2) # responses rs3 @ Some (Inr d3) # responses rs4 @ Some (Inr d4) # sc)"
    and fresh: "unsolicited s = ch_bounded K 100"
    and sel: "answers_before 2 data_failure rs2" "completion 2 Status_Ok d2"
    and sea: "\<forall>r \<in> set rs3. \<not> completes (format_tag 3) r" "completion 3 st3 d3"
    and nop: "\<forall>r \<in> set rs4. \<not> completes (format_tag 4) r" "completion 4 st4 d4"
    and R: "receiver_contract R contents is_open"
  shows "\<exists>s1 s2 s3 s4. select T K ''INBOX'' s = (Ok (mailbox_of rs2), s1)
     \<and> bind_out (session_run_command T command s1) (\<lambda>tag. parse_answers (parse_ids K tag)) = (Ok (found rs3), s2)
     \<and> noop T K s2 = (Ok (), s3)
     \<and> drain_session R closed s3 = (Ok (take 100 (inbox_news rs2 rs3 rs4)), s4)
     \<and> at s4 (w @ command_line 2 (''SELECT '' @ quote ''INBOX'') @ command_line 3 command @ command_line 4 ''NOOP'') 4 sc"
proof -
  obtain s1 where s1: "select T K ''INBOX'' s = (Ok (mailbox_of rs2), s1)"
    "at s1 (w @ command_line 2 (''SELECT '' @ quote ''INBOX'')) 2 (responses rs3 @ Some (Inr d3) # responses rs4 @ Some (Inr d4) # sc)"
    "delivered contents capacity is_open (unsolicited s) (map unsolicited_of (filter (\<lambda>r. mailbox_update r = None) rs2)) (unsolicited s1)"
    using select_gets [OF assms(1), of "''INBOX''"] sel by (auto simp: numeral_2_eq_2)
  obtain s2 where s2: "bind_out (session_run_command T command s1) (\<lambda>tag. parse_answers (parse_ids K tag)) = (Ok (found rs3), s2)"
    "at s2 ((w @ command_line 2 (''SELECT '' @ quote ''INBOX'')) @ command_line 3 command) 3 (responses rs4 @ Some (Inr d4) # sc)"
    "delivered contents capacity is_open (unsolicited s1) (map unsolicited_of (filter (\<lambda>r. search_ids r = None) rs3)) (unsolicited s2)"
    using ids_step [OF s1(2), of st3 command] sea by (auto simp: numeral_3_eq_3 numeral_2_eq_2)
  obtain s3 where s3: "noop T K s2 = (Ok (), s3)"
    "at s3 (((w @ command_line 2 (''SELECT '' @ quote ''INBOX'')) @ command_line 3 command) @ command_line 4 ''NOOP'') 4 sc"
    "delivered contents capacity is_open (unsolicited s2) (map unsolicited_of rs4) (unsolicited s3)"
    using noop_step [OF s2(2), of st4] nop by (auto simp: eval_nat_numeral)
  have "delivered contents capacity is_open (ch_bounded K 100) (inbox_news rs2 rs3 rs4) (unsolicited s3)"
    using delivered_trans [OF delivered_trans [OF s1(3) s2(3)] s3(3)] by (simp add: inbox_news_def fresh)
  moreover have "contents (ch_bounded K 100) = []" "capacity (ch_bounded K 100) = 100"
    using channel unfolding channel_contract_def by simp_all
  ultimately have "contents (unsolicited s3) = take 100 (inbox_news rs2 rs3 rs4)" by (simp add: delivered_def)
  from drain_all [OF R this, of closed "[]"] obtain c where
    "drain_session R closed s3 = (Ok (take 100 (inbox_news rs2 rs3 rs4)), s3\<lparr>unsolicited := c\<rparr>)" "is_open c = is_open (unsolicited s3)"
    by (auto simp: drain_session_def)
  moreover from this(2) s3(2) have "at (s3\<lparr>unsolicited := c\<rparr>)
      (w @ command_line 2 (''SELECT '' @ quote ''INBOX'') @ command_line 3 command @ command_line 4 ''NOOP'') 4 sc"
    by (simp add: session_at_def)
  ultimately show ?thesis using s1(1) s2(1) s3(1) by blast
qed

text \<open>The part behind the news.\<close>

lemma after_news:
  assumes "at s w 4 (responses rs5 @ Some (Inr d5) # responses rs6 @ Some (Inr d6) # responses rs7 @ Some (Inr d7)
       # responses rs8 @ Some (Inr d8) # sc)"
    and "\<forall>r \<in> set rs5. \<not> completes (format_tag 5) r" "completion 5 st5 d5"
    and "\<forall>r \<in> set rs6. \<not> completes (format_tag 6) r" "completion 6 st6 d6"
    and "\<forall>r \<in> set rs7. \<not> completes (format_tag 7) r" "completion 7 st7 d7"
    and "\<forall>r \<in> set rs8. \<not> completes (format_tag 8) r" "completion 8 st8 d8"
  shows "\<exists>s1 s2 s3 s4 expunged vs s5 s6 s7. session_run_command T fetching s = (Ok (format_tag 5), s1)
     \<and> try_collect (parse_fetches K (format_tag 5)) s1 = (Ok (List.map_filter fetched rs5), s2)
     \<and> session_run_command T storing s2 = (Ok (format_tag 6), s3)
     \<and> collect (parse_fetches K (format_tag 6)) s3 = (Ok (map Inr (List.map_filter fetched rs6)), s4)
     \<and> expunge T K s4 = (Ok expunged, s5) \<and> collect expunged s5 = (Ok vs, s6)
     \<and> search T K ''ALL'' s6 = (Ok (found rs8), s7)
     \<and> at s7 (w @ command_line 5 fetching @ command_line 6 storing @ command_line 7 ''EXPUNGE'' @ command_line 8 ''SEARCH ALL'') 8 sc"
proof -
  obtain s1 s2 where s2: "session_run_command T fetching s = (Ok (format_tag 5), s1)"
    "try_collect (parse_fetches K (format_tag 5)) s1 = (Ok (List.map_filter fetched rs5), s2)"
    "at s2 (w @ command_line 5 fetching) 5 (responses rs6 @ Some (Inr d6) # responses rs7 @ Some (Inr d7) # responses rs8 @ Some (Inr d8) # sc)"
    using fetches_step [OF assms(1), of st5 fetching] assms(2,3) by (auto simp: eval_nat_numeral)
  obtain s3 s4 where s4: "session_run_command T storing s2 = (Ok (format_tag 6), s3)"
    "collect (parse_fetches K (format_tag 6)) s3 = (Ok (map Inr (List.map_filter fetched rs6)), s4)"
    "at s4 ((w @ command_line 5 fetching) @ command_line 6 storing) 6 (responses rs7 @ Some (Inr d7) # responses rs8 @ Some (Inr d8) # sc)"
    using fetches_step [OF s2(3), of st6 storing] assms(4,5) by (auto simp: eval_nat_numeral)
  obtain expunged vs s5 s6 where s6: "expunge T K s4 = (Ok expunged, s5)" "collect expunged s5 = (Ok vs, s6)"
    "at s6 (((w @ command_line 5 fetching) @ command_line 6 storing) @ command_line 7 ''EXPUNGE'') 7 (responses rs8 @ Some (Inr d8) # sc)"
    using expunge_step [OF s4(3), of st7] assms(6,7) by (auto simp: eval_nat_numeral simp del: split_paired_Ex)
  obtain s7 where s7: "search T K ''ALL'' s6 = (Ok (found rs8), s7)"
    "at s7 ((((w @ command_line 5 fetching) @ command_line 6 storing) @ command_line 7 ''EXPUNGE'') @ command_line 8 ''SEARCH ALL'') 8 sc"
    using ids_step [OF s6(3), of st8 "''SEARCH ALL''"] assms(8,9) by (auto simp: search_def eval_nat_numeral)
  show ?thesis using s2(1,2) s4(1,2) s6(1,2) s7 by (simp only: append_assoc) blast
qed

text \<open>All commands of both tests, whatever the search, the fetch and the store are.\<close>

lemma inbox_commands:
  assumes "receiver_contract R contents is_open" and u: "LF \<notin> set u" "CR \<notin> set u"
    and "net_connect N (test_host var, 3993) = Inr tcp" and "net_tls N ''imap.example.com'' tcp = Inr tls"
    and "net_answers N tls = Some greeting # responses rs1 @ Some (Inr d1) # responses rs2 @ Some (Inr d2)
           # responses rs3 @ Some (Inr d3) # responses rs4 @ Some (Inr d4) # responses rs5 @ Some (Inr d5)
           # responses rs6 @ Some (Inr d6) # responses rs7 @ Some (Inr d7) # responses rs8 @ Some (Inr d8) # later"
    and "answers_before 1 done_failure rs1" and "completion 1 Status_Ok d1"
    and "answers_before 2 data_failure rs2" and "completion 2 Status_Ok d2"
    and "\<forall>r \<in> set rs3. \<not> completes (format_tag 3) r" and "completion 3 st3 d3"
    and "\<forall>r \<in> set rs4. \<not> completes (format_tag 4) r" and "completion 4 st4 d4"
    and "\<forall>r \<in> set rs5. \<not> completes (format_tag 5) r" and "completion 5 st5 d5"
    and "\<forall>r \<in> set rs6. \<not> completes (format_tag 6) r" and "completion 6 st6 d6"
    and "\<forall>r \<in> set rs7. \<not> completes (format_tag 7) r" and "completion 7 st7 d7"
    and "\<forall>r \<in> set rs8. \<not> completes (format_tag 8) r" and "completion 8 st8 d8"
  shows "\<exists>s s1 s2 s3 s4 t1 t2 t3 t4 expunged vs t5 t6 t7. test_session N T K var u = Ok s
     \<and> select T K ''INBOX'' s = (Ok (mailbox_of rs2), s1)
     \<and> bind_out (session_run_command T searching s1) (\<lambda>tag. parse_answers (parse_ids K tag)) = (Ok (found rs3), s2)
     \<and> noop T K s2 = (Ok (), s3) \<and> drain_session R closed s3 = (Ok (take 100 (inbox_news rs2 rs3 rs4)), s4)
     \<and> session_run_command T fetching s4 = (Ok (format_tag 5), t1)
     \<and> try_collect (parse_fetches K (format_tag 5)) t1 = (Ok (List.map_filter fetched rs5), t2)
     \<and> session_run_command T storing t2 = (Ok (format_tag 6), t3)
     \<and> collect (parse_fetches K (format_tag 6)) t3 = (Ok (map Inr (List.map_filter fetched rs6)), t4)
     \<and> expunge T K t4 = (Ok expunged, t5) \<and> collect expunged t5 = (Ok vs, t6)
     \<and> search T K ''ALL'' t6 = (Ok (found rs8), t7)
     \<and> at t7 (written tls
               @ command_line 1 (''LOGIN '' @ quote u @ '' '' @ quote u)
               @ command_line 2 (''SELECT '' @ quote ''INBOX'') @ command_line 3 searching @ command_line 4 ''NOOP''
               @ command_line 5 fetching @ command_line 6 storing
               @ command_line 7 ''EXPUNGE'' @ command_line 8 ''SEARCH ALL'') 8 later"
proof -
  let ?w = "written tls @ command_line 1 (''LOGIN '' @ quote u @ '' '' @ quote u)"
  obtain s where s: "test_session N T K var u = Ok s" "unsolicited s = ch_bounded K 100"
    "at s ?w 1 (responses rs2 @ Some (Inr d2) # responses rs3 @ Some (Inr d3) # responses rs4 @ Some (Inr d4) # responses rs5 @ Some (Inr d5)
           # responses rs6 @ Some (Inr d6) # responses rs7 @ Some (Inr d7) # responses rs8 @ Some (Inr d8) # later)"
    using session_start [OF assms(4-8) u] by auto
  from upto_news [OF s(3,2) assms(9-14,1), where command = searching and closed = closed]
  obtain s1 s2 s3 s4 where s4: "select T K ''INBOX'' s = (Ok (mailbox_of rs2), s1)"
    "bind_out (session_run_command T searching s1) (\<lambda>tag. parse_answers (parse_ids K tag)) = (Ok (found rs3), s2)"
    "noop T K s2 = (Ok (), s3)" "drain_session R closed s3 = (Ok (take 100 (inbox_news rs2 rs3 rs4)), s4)"
    "at s4 (?w @ command_line 2 (''SELECT '' @ quote ''INBOX'') @ command_line 3 searching @ command_line 4 ''NOOP'') 4
       (responses rs5 @ Some (Inr d5) # responses rs6 @ Some (Inr d6) # responses rs7 @ Some (Inr d7) # responses rs8 @ Some (Inr d8) # later)"
    by blast
  show ?thesis
    using s(1) s4(1-4) after_news [OF s4(5) assms(15-22), where fetching = fetching and storing = storing]
    unfolding append_assoc by blast
qed

end

section \<open>When they pass\<close>

lemma require_simps: "require b = Ok () \<longleftrightarrow> b" "is_panic (require b) \<longleftrightarrow> \<not> b" "obind (require b) f = (if b then f () else Panic ''assertion failed'')"
  by (simp_all add: require_def)

lemma obind_Ok_iff: "obind r f = Ok b \<longleftrightarrow> (\<exists>a. r = Ok a \<and> f a = Ok b)"
  by (cases r) auto

text \<open>The checks of a mail fail by a panic only.\<close>

definition passes_or_panics :: "(unit, 'e) outcome \<Rightarrow> bool" where
  "passes_or_panics r \<longleftrightarrow> r = Ok () \<or> is_panic r"

lemma passes_or_panics_require [simp]: "passes_or_panics (require b)"
  by (simp add: passes_or_panics_def require_def)

lemma passes_or_panics_obind:
  "(\<exists>a. r = Ok a) \<or> is_panic r \<Longrightarrow> (\<And>a. r = Ok a \<Longrightarrow> passes_or_panics (f a)) \<Longrightarrow> passes_or_panics (obind r f)"
  by (cases r) (auto simp: passes_or_panics_def)

lemma require_settles: "(\<exists>a. require b = Ok a) \<or> is_panic (require b)"
  by (simp add: require_def)

lemma unwrap_some_settles: "(\<exists>a. unwrap_some v = Ok a) \<or> is_panic (unwrap_some v)"
  by (simp add: unwrap_some_def split: option.split)

lemma fetch_views_settle:
  "(\<exists>v. fetch_envelope f = Ok v) \<or> is_panic (fetch_envelope f)" "(\<exists>v. fetch_internal_date p f = Ok v) \<or> is_panic (fetch_internal_date p f)"
  by (simp_all add: fetch_envelope_def fetch_internal_date_def fetch_attrs_def unreachable_def split: response.split)

lemmas settles = require_settles unwrap_some_settles fetch_views_settle

lemma one_address_settles: "passes_or_panics (one_address as m h)"
  unfolding one_address_def by (intro passes_or_panics_obind settles) simp

lemma check_mail_settles: "passes_or_panics (check_mail E p f)"
  unfolding check_mail_def
  by (intro passes_or_panics_obind settles one_address_settles [unfolded passes_or_panics_def, THEN disj_forward]) auto

lemma check_mail_uid_settles: "passes_or_panics (check_mail_uid E p i f)"
  unfolding check_mail_uid_def by (intro passes_or_panics_obind settles) simp

text \<open>The news that the tests wait for, in either order.\<close>

lemma check_news_iff:
  "check_news (take 100 news) = (Ok () :: (unit, 'e) outcome)
     \<longleftrightarrow> news \<in> {[U_Exists 1, U_Recent 1], [U_Recent 1, U_Exists 1]}"
proof -
  have "length (take 100 news) = 2 \<longleftrightarrow> length news = 2" by auto
  then show ?thesis
    by (auto simp: check_news_def require_simps obind_Ok_iff length_Suc_conv eval_nat_numeral)
qed

lemma check_news_settles: "passes_or_panics (check_news news)"
  unfolding check_news_def by (intro passes_or_panics_obind settles) simp

lemma one_found: "obind (require (card A = 1)) (\<lambda>_. require (1 \<in> A)) = Ok () \<longleftrightarrow> A = {1}"
  by (auto simp: obind_Ok_iff require_simps card_1_singleton_iff)

lemma one_mail: "obind (require (length fs = 1)) (\<lambda>_. f (fs ! 0)) = Ok () \<longleftrightarrow> (\<exists>m. fs = [m] \<and> f m = Ok ())"
  by (cases fs) (auto simp: obind_Ok_iff require_simps)

lemma none_found: "card (found rs) = 0 \<longleftrightarrow> found rs = {}"
  by simp

text \<open>What is left of both tests: three checks between commands that succeed, and a last one.\<close>

lemma verdict:
  assumes "test = (case bind_out (a, s2) (\<lambda>_ _. bind_out (b, s4) (\<lambda>_ _. bind_out (c, t2) (\<lambda>_ _. (require d, t7)))) of (r, s) \<Rightarrow> (r, Some s))"
    and "session_at written is_open t7 w n sc"
    and "passes_or_panics a" "passes_or_panics b" "passes_or_panics c"
    and "a = Ok () \<longleftrightarrow> A" "b = Ok () \<longleftrightarrow> B" "c = Ok () \<longleftrightarrow> C" "d \<longleftrightarrow> D"
  shows "\<exists>r s. test = (r, Some s) \<and> (if A \<and> B \<and> C \<and> D
     then r = Ok () \<and> incoming (conn s) = sc \<and> written (inner (stream (conn s))) = w else is_panic r)"
  using assms by (cases a; cases b; cases c) (simp_all add: passes_or_panics_def require_def session_at_def)

text \<open>
  C24: the integration test \<open>inbox\<close> as a whole, over any network, channel and SMTP library.  When the
  server accepts the login and the selection and the mail is sent, the test passes exactly when the
  search finds message 1 alone, the unsolicited responses among the answers to \<open>SELECT\<close>, \<open>SEARCH\<close> and
  \<open>NOOP\<close> are one \<open>EXISTS\<close> and one \<open>RECENT\<close>, the answers to \<open>FETCH\<close> carry one message that is the mail, and
  the last search finds nothing; it then has written its eight lines.  In every other case it
  panics.  The status with which any command but the first two ends plays no part.
\<close>

theorem inbox_run:
  fixes T :: "('r, 'x) transport" and K :: "('c, 'x unsolicited_response) channel_ops"
  assumes "command_sink T written" and "reliable T" and "channel_contract K contents capacity is_open"
    and "send_mail N M var ''inbox@localhost'' = Ok ()" and "receiver_contract R contents is_open"
    and "net_connect N (test_host var, 3993) = Inr tcp" and "net_tls N ''imap.example.com'' tcp = Inr tls"
    and "net_answers N tls = Some greeting # responses rs1 @ Some (Inr d1) # responses rs2 @ Some (Inr d2)
           # responses rs3 @ Some (Inr d3) # responses rs4 @ Some (Inr d4) # responses rs5 @ Some (Inr d5)
           # responses rs6 @ Some (Inr d6) # responses rs7 @ Some (Inr d7) # responses rs8 @ Some (Inr d8) # later"
    and "answers_before 1 done_failure rs1" and "completion 1 Status_Ok d1"
    and "answers_before 2 data_failure rs2" and "completion 2 Status_Ok d2"
    and "\<forall>r \<in> set rs3. \<not> completes (format_tag 3) r" and "completion 3 st3 d3"
    and "\<forall>r \<in> set rs4. \<not> completes (format_tag 4) r" and "completion 4 st4 d4"
    and "\<forall>r \<in> set rs5. \<not> completes (format_tag 5) r" and "completion 5 st5 d5"
    and "\<forall>r \<in> set rs6. \<not> completes (format_tag 6) r" and "completion 6 st6 d6"
    and "\<forall>r \<in> set rs7. \<not> completes (format_tag 7) r" and "completion 7 st7 d7"
    and "\<forall>r \<in> set rs8. \<not> completes (format_tag 8) r" and "completion 8 st8 d8"
  shows "\<exists>r s. inbox_test N T K R M E parse_from_str var = (r, Some s)
     \<and> (if found rs3 = {1} \<and> inbox_news rs2 rs3 rs4 \<in> {[U_Exists 1, U_Recent 1], [U_Recent 1, U_Exists 1]}
          \<and> (\<exists>f. List.map_filter fetched rs5 = [f] \<and> check_mail E parse_from_str f = (Ok () :: (unit, 'x app_error) outcome))
          \<and> found rs8 = {}
        then r = Ok () \<and> incoming (conn s) = later
           \<and> written (inner (stream (conn s))) = written tls
               @ command_line 1 (''LOGIN '' @ quote ''inbox@localhost'' @ '' '' @ quote ''inbox@localhost'')
               @ command_line 2 (''SELECT '' @ quote ''INBOX'') @ command_line 3 ''SEARCH ALL'' @ command_line 4 ''NOOP''
               @ command_line 5 ''FETCH 1 (ALL UID)'' @ command_line 6 (''STORE 1 +FLAGS ('' @ [bslash] @ ''Deleted)'')
               @ command_line 7 ''EXPUNGE'' @ command_line 8 ''SEARCH ALL''
        else is_panic r)"
proof -
  let ?closed = "Panic ''called Result::unwrap() on an Err value'' :: ('x unsolicited_response list, 'x app_error) outcome"
  let ?a = "obind (require (card (found rs3) = 1)) (\<lambda>_. require (1 \<in> found rs3)) :: (unit, 'x app_error) outcome"
  let ?b = "check_news (take 100 (inbox_news rs2 rs3 rs4)) :: (unit, 'x app_error) outcome"
  let ?c = "obind (require (length (List.map_filter fetched rs5) = 1)) (\<lambda>_. check_mail E parse_from_str (List.map_filter fetched rs5 ! 0))
      :: (unit, 'x app_error) outcome"
  from session_user.inbox_commands [OF session_userI [OF assms(1-3)] assms(5) _ _ assms(6-), of "''inbox@localhost''" "''SEARCH ALL''" ?closed
      "''FETCH 1 (ALL UID)''" "''STORE 1 +FLAGS ('' @ [bslash] @ ''Deleted)''"]
  obtain s s1 s2 s3 s4 t1 t2 t3 t4 expunged vs t5 t6 t7 where run: "test_session N T K var ''inbox@localhost'' = Ok s"
    "select T K ''INBOX'' s = (Ok (mailbox_of rs2), s1)" "search T K ''ALL'' s1 = (Ok (found rs3), s2)" "noop T K s2 = (Ok (), s3)"
    "drain_session R ?closed s3 = (Ok (take 100 (inbox_news rs2 rs3 rs4)), s4)"
    "fetch_messages T K ''1'' ''(ALL UID)'' s4 = (Ok (parse_fetches K (format_tag 5)), t1)"
    "try_collect (parse_fetches K (format_tag 5)) t1 = (Ok (List.map_filter fetched rs5), t2)"
    "store T K ''1'' (''+FLAGS ('' @ [bslash] @ ''Deleted)'') t2 = (Ok (parse_fetches K (format_tag 6)), t3)"
    "collect (parse_fetches K (format_tag 6)) t3 = (Ok (map Inr (List.map_filter fetched rs6)), t4)"
    "expunge T K t4 = (Ok expunged, t5)" "collect expunged t5 = (Ok vs, t6)" "search T K ''ALL'' t6 = (Ok (found rs8), t7)"
    and t7: "session_at written is_open t7 (written tls
               @ command_line 1 (''LOGIN '' @ quote ''inbox@localhost'' @ '' '' @ quote ''inbox@localhost'')
               @ command_line 2 (''SELECT '' @ quote ''INBOX'') @ command_line 3 ''SEARCH ALL'' @ command_line 4 ''NOOP''
               @ command_line 5 ''FETCH 1 (ALL UID)'' @ command_line 6 (''STORE 1 +FLAGS ('' @ [bslash] @ ''Deleted)'')
               @ command_line 7 ''EXPUNGE'' @ command_line 8 ''SEARCH ALL'') 8 later"
    by (auto simp: search_def fetch_messages_def store_def simp del: split_paired_Ex)
  have "inbox_test N T K R M E parse_from_str var = (case bind_out (?a, s2) (\<lambda>_ _. bind_out (?b, s4) (\<lambda>_ _. bind_out (?c, t2) (\<lambda>_ _.
      (require (card (found rs8) = 0), t7)))) of (r, s) \<Rightarrow> (r, Some s))"
    by (simp only: inbox_test_def with_session.simps assms(4) run app_Ok app_unwrap.simps bind_out.simps)
  then show ?thesis
    by (rule verdict [OF _ t7 _ _ _ one_found check_news_iff one_mail none_found])
      (auto intro!: passes_or_panics_obind settles check_news_settles check_mail_settles)
qed

text \<open>A run: the queue as the channel, and a server with the mail.\<close>

definition fifo_receiver :: "('m fifo, 'm) receiver_ops" where
  "fifo_receiver =
     \<lparr>rx_is_empty = (\<lambda>c. fifo_queue c = []),
      rx_recv = (\<lambda>c. case fifo_queue c of
          m # ms \<Rightarrow> (Received m, c\<lparr>fifo_queue := ms\<rparr>)
        | [] \<Rightarrow> (if fifo_closed c then Recv_Closed else Recv_Waits, c))\<rparr>"

lemma fifo_receiver_contract: "receiver_contract fifo_receiver fifo_queue (\<lambda>c. \<not> fifo_closed c)"
  by (simp add: receiver_contract_def fifo_receiver_def)

definition mock_smtp :: "(mock_stream, unit, nat) smtp_ops" where
  "mock_smtp = \<lparr>smtp_new = \<lambda>_. Inr (), smtp_try_login = \<lambda>_ _ _. Inr (), smtp_send = \<lambda>_ _. Inr (), smtp_address = \<lambda>_. True\<rparr>"

definition mail_envelope :: "nat envelope_ops" where
  "mail_envelope =
     \<lparr>env_subject = \<lambda>_. Some ''My first e-mail'',
      env_from = \<lambda>_. Some [\<lparr>adr_mailbox = Some ''sender'', adr_host = Some ''localhost''\<rparr>],
      env_to = \<lambda>_. Some [\<lparr>adr_mailbox = Some ''inbox'', adr_host = Some ''localhost''\<rparr>]\<rparr>"

definition the_mail :: "nat response_data" where
  "the_mail = sample (R_Fetch 1 [AV_Uid 7, AV_Rfc822Size 21, AV_Envelope 0, AV_InternalDate ''now''])"

definition inbox_answers :: "nat script" where
  "inbox_answers =
     Some (Inr exists_4) # responses [] @ Some (Inr (done_as 1)) # responses [] @ Some (Inr (done_as 2))
       # responses [sample (R_MailboxData (MD_Search [1]))] @ Some (Inr (done_as 3))
       # responses [sample (R_MailboxData (MD_Exists 1)), sample (R_MailboxData (MD_Recent 1))] @ Some (Inr (done_as 4))
       # responses [the_mail] @ Some (Inr (done_as 5)) # responses [] @ Some (Inr (done_as 6))
       # responses [sample (R_Expunge 1)] @ Some (Inr (done_as 7)) # responses [] @ Some (Inr (done_as 8)) # []"

theorem inbox_run_witness:
  "\<exists>s. inbox_test (mock_network inbox_answers) mock_transport fifo_ops fifo_receiver mock_smtp mail_envelope (\<lambda>_ _. Some ()) None
        = (Ok (), Some s) \<and> incoming (conn s) = []"
proof -
  have net: "net_connect (mock_network inbox_answers) (test_host None, 3993) = Inr ()"
    "net_tls (mock_network inbox_answers) ''imap.example.com'' () = Inr MockStream_default"
    and sent: "send_mail (mock_network inbox_answers) mock_smtp None ''inbox@localhost'' = Ok ()"
    by (simp_all add: mock_network_def send_mail_def smtp_def connect_tls_def try_result_def mock_smtp_def make_email_def)
  have answers: "net_answers (mock_network inbox_answers) MockStream_default = inbox_answers" by (simp add: mock_network_def)
  have none: "answers_before n f ([] :: nat response_data list)" for n f by (simp add: answers_before_def)
  have quiet: "\<not> completes t (sample (R_MailboxData m))" "\<not> completes t (sample (R_Expunge i))" "\<not> completes t the_mail" for t m i
    by (simp_all add: sample_def the_mail_def completes_iff)
  have found: "found [sample (R_MailboxData (MD_Search [1]))] = {1}" "found ([] :: nat response_data list) = {}"
    by (simp_all add: found_def search_ids_def sample_def List.map_filter_simps)
  have news: "inbox_news [] [sample (R_MailboxData (MD_Search [1]))]
      [sample (R_MailboxData (MD_Exists 1)), sample (R_MailboxData (MD_Recent 1))] = [U_Exists 1, U_Recent 1]"
    by (simp add: inbox_news_def unsolicited_of_def search_ids_def sample_def)
  have mail: "\<exists>f. List.map_filter fetched [the_mail] = [f] \<and> check_mail mail_envelope (\<lambda>_ _. Some ()) f = (Ok () :: (unit, nat app_error) outcome)"
    by (simp add: fetched_def List.map_filter_simps the_mail_def sample_def last_match_def Fetch_new_def check_mail_def fetch_envelope_def
        fetch_internal_date_def fetch_attrs_def one_address_def unwrap_some_def require_def mail_envelope_def)
  show ?thesis
    using inbox_run [OF mock_commands.command_sink_axioms mock_reliable fifo_contract sent fifo_receiver_contract net
      trans [OF answers inbox_answers_def] none completion_done_as none completion_done_as _ completion_done_as _ completion_done_as
      _ completion_done_as _ completion_done_as _ completion_done_as _ completion_done_as, of mail_envelope "\<lambda>_ _. Some ()"] quiet mail
    by (auto simp: found news)
qed

text \<open>The same of \<open>inbox_uid\<close>, which looks for one message with any UID and then names it by its UID.\<close>

theorem inbox_uid_run:
  fixes T :: "('r, 'x) transport" and K :: "('c, 'x unsolicited_response) channel_ops"
  assumes "command_sink T written" and "reliable T" and "channel_contract K contents capacity is_open"
    and "send_mail N M var ''inbox-uid@localhost'' = Ok ()" and "receiver_contract R contents is_open"
    and "net_connect N (test_host var, 3993) = Inr tcp" and "net_tls N ''imap.example.com'' tcp = Inr tls"
    and "net_answers N tls = Some greeting # responses rs1 @ Some (Inr d1) # responses rs2 @ Some (Inr d2)
           # responses rs3 @ Some (Inr d3) # responses rs4 @ Some (Inr d4) # responses rs5 @ Some (Inr d5)
           # responses rs6 @ Some (Inr d6) # responses rs7 @ Some (Inr d7) # responses rs8 @ Some (Inr d8) # later"
    and "answers_before 1 done_failure rs1" and "completion 1 Status_Ok d1"
    and "answers_before 2 data_failure rs2" and "completion 2 Status_Ok d2"
    and "\<forall>r \<in> set rs3. \<not> completes (format_tag 3) r" and "completion 3 st3 d3"
    and "\<forall>r \<in> set rs4. \<not> completes (format_tag 4) r" and "completion 4 st4 d4"
    and "\<forall>r \<in> set rs5. \<not> completes (format_tag 5) r" and "completion 5 st5 d5"
    and "\<forall>r \<in> set rs6. \<not> completes (format_tag 6) r" and "completion 6 st6 d6"
    and "\<forall>r \<in> set rs7. \<not> completes (format_tag 7) r" and "completion 7 st7 d7"
    and "\<forall>r \<in> set rs8. \<not> completes (format_tag 8) r" and "completion 8 st8 d8"
  shows "\<exists>r s. inbox_uid_test N T K R M E parse_from_str var = (r, Some s)
     \<and> (if card (found rs3) = 1 \<and> inbox_news rs2 rs3 rs4 \<in> {[U_Exists 1, U_Recent 1], [U_Recent 1, U_Exists 1]}
          \<and> (\<exists>f. List.map_filter fetched rs5 = [f] \<and> check_mail_uid E parse_from_str (the_elem (found rs3)) f = (Ok () :: (unit, 'x app_error) outcome))
          \<and> found rs8 = {}
        then r = Ok () \<and> incoming (conn s) = later
           \<and> written (inner (stream (conn s))) = written tls
               @ command_line 1 (''LOGIN '' @ quote ''inbox-uid@localhost'' @ '' '' @ quote ''inbox-uid@localhost'')
               @ command_line 2 (''SELECT '' @ quote ''INBOX'') @ command_line 3 ''UID SEARCH ALL'' @ command_line 4 ''NOOP''
               @ command_line 5 (''UID FETCH '' @ decimal (unat (the_elem (found rs3))) @ '' (ALL UID)'') @ command_line 6 (''UID STORE '' @ decimal (unat (the_elem (found rs3))) @ '' +FLAGS ('' @ [bslash] @ ''Deleted)'')
               @ command_line 7 ''EXPUNGE'' @ command_line 8 ''SEARCH ALL''
        else is_panic r)"
proof -
  let ?closed = "Err App_Recv :: ('x unsolicited_response list, 'x app_error) outcome"
  let ?a = "require (card (found rs3) = 1) :: (unit, 'x app_error) outcome"
  let ?b = "check_news (take 100 (inbox_news rs2 rs3 rs4)) :: (unit, 'x app_error) outcome"
  let ?c = "obind (require (length (List.map_filter fetched rs5) = 1)) (\<lambda>_. check_mail_uid E parse_from_str (the_elem (found rs3)) (List.map_filter fetched rs5 ! 0))
      :: (unit, 'x app_error) outcome"
  from session_user.inbox_commands [OF session_userI [OF assms(1-3)] assms(5) _ _ assms(6-), of "''inbox-uid@localhost''" "''UID SEARCH ALL''" ?closed
      "''UID FETCH '' @ decimal (unat (the_elem (found rs3))) @ '' (ALL UID)''" "''UID STORE '' @ decimal (unat (the_elem (found rs3))) @ '' +FLAGS ('' @ [bslash] @ ''Deleted)''"]
  obtain s s1 s2 s3 s4 t1 t2 t3 t4 expunged vs t5 t6 t7 where run: "test_session N T K var ''inbox-uid@localhost'' = Ok s"
    "select T K ''INBOX'' s = (Ok (mailbox_of rs2), s1)" "uid_search T K ''ALL'' s1 = (Ok (found rs3), s2)" "noop T K s2 = (Ok (), s3)"
    "drain_session R ?closed s3 = (Ok (take 100 (inbox_news rs2 rs3 rs4)), s4)"
    "uid_fetch T K (decimal (unat (the_elem (found rs3)))) ''(ALL UID)'' s4 = (Ok (parse_fetches K (format_tag 5)), t1)"
    "try_collect (parse_fetches K (format_tag 5)) t1 = (Ok (List.map_filter fetched rs5), t2)"
    "uid_store T K (decimal (unat (the_elem (found rs3)))) (''+FLAGS ('' @ [bslash] @ ''Deleted)'') t2 = (Ok (parse_fetches K (format_tag 6)), t3)"
    "collect (parse_fetches K (format_tag 6)) t3 = (Ok (map Inr (List.map_filter fetched rs6)), t4)"
    "expunge T K t4 = (Ok expunged, t5)" "collect expunged t5 = (Ok vs, t6)" "search T K ''ALL'' t6 = (Ok (found rs8), t7)"
    and t7: "session_at written is_open t7 (written tls
               @ command_line 1 (''LOGIN '' @ quote ''inbox-uid@localhost'' @ '' '' @ quote ''inbox-uid@localhost'')
               @ command_line 2 (''SELECT '' @ quote ''INBOX'') @ command_line 3 ''UID SEARCH ALL'' @ command_line 4 ''NOOP''
               @ command_line 5 (''UID FETCH '' @ decimal (unat (the_elem (found rs3))) @ '' (ALL UID)'') @ command_line 6 (''UID STORE '' @ decimal (unat (the_elem (found rs3))) @ '' +FLAGS ('' @ [bslash] @ ''Deleted)'')
               @ command_line 7 ''EXPUNGE'' @ command_line 8 ''SEARCH ALL'') 8 later"
    by (auto simp: uid_search_def search_def uid_fetch_def uid_store_def simp del: split_paired_Ex)
  have "inbox_uid_test N T K R M E parse_from_str var = (case bind_out (?a, s2) (\<lambda>_ _. bind_out (?b, s4) (\<lambda>_ _. bind_out (?c, t2) (\<lambda>_ _.
      (require (card (found rs8) = 0), t7)))) of (r, s) \<Rightarrow> (r, Some s))"
    by (simp only: inbox_uid_test_def Let_def with_session.simps assms(4) run app_Ok bind_out.simps)
  then show ?thesis
    by (rule verdict [OF _ t7 _ _ _ require_simps(1) check_news_iff one_mail none_found])
      (auto intro!: passes_or_panics_obind settles check_news_settles check_mail_uid_settles)
qed


end
