(* ===== verification/Scripted_Parser.thy ===== *)
theory Scripted_Parser
  imports Commands Mock_Stream
begin

text \<open>
  A parser for test servers.  \<open>imap_proto\<close> stays a parameter of the tests; \<open>speaks\<close> says which
  lines it reads as which responses.  \<open>table_parser\<close> knows a given table of lines and nothing else:
  it keeps the contract of a streaming parser, so what the tests assume can hold.
\<close>

section \<open>Reading given lines\<close>

definition crlf :: string where
  "crlf = [CR, LF]"

definition speaks :: "(string \<Rightarrow> nat parse_result) \<Rightarrow> (string \<times> nat response) list \<Rightarrow> bool" where
  "speaks P lines \<longleftrightarrow> (\<forall>(line, r) \<in> set lines. P line = Parsed [] r)"

text \<open>The bytes of some lines parse as their responses.\<close>

lemma speaks_line:
  assumes "parser_contract P" and "speaks P lines" and "(line, r) \<in> set lines"
  shows "P (line @ later) = Parsed later r"
proof -
  from assms(2,3) have "P line = Parsed [] r" by (auto simp: speaks_def)
  from parsed_mono [OF assms(1) this] show ?thesis by simp
qed

lemma speaks_many:
  assumes "parser_contract P" and "speaks P lines"
  shows "set said \<subseteq> set lines \<Longrightarrow> parse_many P (length said) (concat (map fst said)) = Some (map snd said, [])"
proof (induction said)
  case (Cons lr said)
  obtain line r where lr: "lr = (line, r)" by fastforce
  from Cons.prems have "(line, r) \<in> set lines" by (simp add: lr)
  from speaks_line [OF assms this] Cons show ?case by (simp add: lr)
qed simp

section \<open>A parser that knows the lines\<close>

text \<open>
  It answers with the first line of its table that the input begins with.  When no line of the table
  begins with another one it keeps the contract of a streaming parser.
\<close>

fun begins :: "string \<Rightarrow> string \<Rightarrow> bool" where
  "begins s [] = True"
| "begins [] (c # line) = False"
| "begins (d # s) (c # line) = (if c = d then begins s line else False)"

lemma begins_iff: "begins s line \<longleftrightarrow> (\<exists>later. s = line @ later)"
  by (induction s line rule: begins.induct) auto

fun table_parser :: "(string \<times> nat response) list \<Rightarrow> string \<Rightarrow> nat parse_result" where
  "table_parser [] s = Incomplete_Unknown"
| "table_parser ((line, r) # lines) s =
     (if begins s line then Parsed (drop (length line) s) r else table_parser lines s)"

text \<open>One of two lines begins with the other.\<close>

fun comparable :: "string \<Rightarrow> string \<Rightarrow> bool" where
  "comparable (c # l) (d # m) = (if c = d then comparable l m else False)"
| "comparable _ _ = True"

lemma comparable_iff: "comparable l m \<longleftrightarrow> begins l m \<or> begins m l"
  by (induction l m rule: comparable.induct) auto

fun prefix_free :: "string list \<Rightarrow> bool" where
  "prefix_free [] = True"
| "prefix_free (l # ls) = (l \<noteq> [] \<and> list_all (\<lambda>m. \<not> comparable l m) ls \<and> prefix_free ls)"

lemma begins_append: "begins (line @ later) m \<Longrightarrow> begins line m \<or> begins m line"
  by (auto simp: begins_iff append_eq_append_conv2)

lemma table_hit:
  "prefix_free (map fst lines) \<Longrightarrow> (line, r) \<in> set lines \<Longrightarrow> table_parser lines (line @ later) = Parsed later r"
proof (induction lines)
  case (Cons lr lines)
  obtain m q where lr: "lr = (m, q)" by fastforce
  show ?case
  proof (cases "(line, r) = lr")
    case False
    with Cons.prems(2) have "(line, r) \<in> set lines" by simp
    moreover from this Cons.prems(1) have "\<not> begins (line @ later) m"
      using begins_append [of line later m] by (auto simp: lr list_all_iff comparable_iff)
    ultimately show ?thesis using Cons by (simp add: lr)
  qed (simp add: lr begins_iff)
qed simp

lemma table_parsed:
  "prefix_free (map fst lines) \<Longrightarrow> table_parser lines s = Parsed rem r \<Longrightarrow> \<exists>line. (line, r) \<in> set lines \<and> line \<noteq> [] \<and> s = line @ rem"
proof (induction lines)
  case (Cons lr lines)
  obtain m q where lr: "lr = (m, q)" by fastforce
  show ?case
  proof (cases "begins s m")
    case True
    with Cons.prems show ?thesis by (auto simp: lr begins_iff)
  next
    case False
    with Cons show ?thesis by (auto simp: lr)
  qed
qed simp

lemma table_parser_other: "table_parser lines s \<noteq> Incomplete_Size n" "table_parser lines s \<noteq> Parse_Failure x"
  by (induction lines s rule: table_parser.induct) auto

lemma table_parser_contract:
  assumes "prefix_free (map fst lines)"
  shows "parser_contract (table_parser lines)"
  unfolding parser_contract_def
proof (intro conjI allI impI)
  fix s rem r
  assume "table_parser lines s = Parsed rem r"
  then show "\<exists>p. p \<noteq> [] \<and> s = p @ rem" using table_parsed [OF assms] by blast
next
  fix s rem r t
  assume "table_parser lines s = Parsed rem r"
  then obtain line where "(line, r) \<in> set lines" "s = line @ rem" using table_parsed [OF assms] by blast
  then show "table_parser lines (s @ t) = Parsed (rem @ t) r" using table_hit [OF assms] by simp
qed (simp_all add: table_parser_other)

lemma table_parser_speaks: "prefix_free (map fst lines) \<Longrightarrow> speaks (table_parser lines) lines"
  using table_hit [where later = "[]"] by (fastforce simp: speaks_def)

lemma table_parser_silent: "prefix_free (map fst lines) \<Longrightarrow> table_parser lines [] = Incomplete_Unknown"
  by (induction lines) (auto simp: begins_iff)

end
