(* ===== verification/Mock_Client.thy ===== *)
theory Mock_Client
  imports Scripted_Parser End_To_End Session_Triples
begin

text \<open>
  The harness of the unit tests of \<open>src/client.rs\<close>: a client or a session over a mock transport that
  holds the bytes of a server, with what the stream makes of them as its answers.
\<close>

section \<open>The mock client\<close>

text \<open>
  \<open>mock_client!\<close> and \<open>mock_session!\<close>.  The answers are what polling the stream yields; every response
  takes at least one byte, and at the end of its bytes the mock transport reports an error.
\<close>

definition mock_answers :: "(string \<Rightarrow> nat parse_result) \<Rightarrow> mock_stream \<Rightarrow> nat script" where
  "mock_answers P m = stream_script P mock_poll_read (Suc (length (mock_buf m))) (ImapStream_new m)"

definition mock_client :: "(string \<Rightarrow> nat parse_result) \<Rightarrow> mock_stream \<Rightarrow> (mock_stream, nat) connection" where
  "mock_client P m = Client_new (mock_answers P m) m"

definition mock_session :: "(string \<Rightarrow> nat parse_result) \<Rightarrow> mock_stream
    \<Rightarrow> (mock_stream, nat, nat unsolicited_response fifo) session" where
  "mock_session P m = Session_new fifo_ops (mock_client P m)"

definition wrote :: "(mock_stream, nat) connection \<Rightarrow> string \<Rightarrow> bool" where
  "wrote cn line \<longleftrightarrow> written_buf (inner (stream cn)) = line"

text \<open>
  The pattern of most tests: the method returns \<open>Ok\<close> (\<open>unwrap\<close>), exactly the given line was
  written, and the result is as expected.
\<close>

definition session_test :: "(string \<Rightarrow> nat parse_result)
    \<Rightarrow> ((mock_stream, nat, nat unsolicited_response fifo) session
         \<Rightarrow> ('a, nat error) outcome \<times> (mock_stream, nat, nat unsolicited_response fifo) session)
    \<Rightarrow> string \<Rightarrow> string \<Rightarrow> ('a \<Rightarrow> bool) \<Rightarrow> bool" where
  "session_test P op response line expected =
     (case op (mock_session P (MockStream_new response)) of
        (Ok a, s) \<Rightarrow> wrote (conn s) line \<and> expected a
      | _ \<Rightarrow> False)"

lemma stream_script_add:
  "stream_script P poll_read n s = xs \<Longrightarrow> length xs = n \<Longrightarrow>
     stream_script P poll_read (n + k) s = xs @ stream_script P poll_read k (polled P poll_read n s)"
proof (induction n arbitrary: s xs)
  case (Suc n)
  then show ?case by (fastforce split: prod.splits outcome.splits)
qed simp

lemma said_length:
  assumes "parser_contract P" and "speaks P lines"
  shows "set said \<subseteq> set lines \<Longrightarrow> length said \<le> length (concat (map fst said))"
proof (induction said)
  case (Cons lr said)
  obtain line r where lr: "lr = (line, r)" by fastforce
  with Cons.prems assms(2) have "P line = Parsed [] r" by (auto simp: speaks_def)
  from parsed_consumes [OF assms(1) this] obtain x xs where "line = x # xs" by (cases line) auto
  with Cons lr show ?case by simp
qed simp

lemma mock_answers_said:
  assumes P: "parser_contract P" "speaks P lines" and said: "set said \<subseteq> set lines"
    and m: "mock_calm m" "mock_unread m = concat (map fst said)" "length (mock_unread m) < MAX_CAPACITY"
  obtains ds later where "mock_answers P m = responses ds @ later" and "map parsed ds = map snd said"
proof -
  let ?n = "length said"
  from script_of_bytes [OF mock_eager.eager_source_axioms P(1) m(1,3), of ?n "map snd said" "[]"] speaks_many [OF P said] m(2)
  obtain ds where ds: "stream_script P mock_poll_read ?n (ImapStream_new m) = responses ds" "map parsed ds = map snd said"
    by auto
  have "length (responses ds) = ?n" using ds(2) by (metis length_map)
  moreover have "?n \<le> Suc (length (mock_buf m))"
    using said_length [OF P said] m(2) by (simp add: mock_unread_def flip: m(2))
  then obtain k where "Suc (length (mock_buf m)) = ?n + k" by (metis le_Suc_ex)
  ultimately have "mock_answers P m = responses ds @ stream_script P mock_poll_read k (polled P mock_poll_read ?n (ImapStream_new m))"
    using stream_script_add [OF ds(1)] by (simp add: mock_answers_def)
  with ds(2) that show thesis by blast
qed

lemma fresh_mock: "mock_calm (MockStream_new bytes)" "mock_unread (MockStream_new bytes) = bytes"
  "written_buf (MockStream_new bytes) = []"
  by (simp_all add: mock_calm_def mock_unread_def MockStream_new_def with_buf_def MockStream_default_def)

text \<open>A session test passes when the method does its work on the responses of the lines.\<close>

definition replies :: "nat script \<Rightarrow> mock_stream \<Rightarrow> (mock_stream, nat, nat unsolicited_response fifo) session" where
  "replies sc m = Session_new fifo_ops (Client_new sc m)"

lemma session_test_passes:
  assumes P: "parser_contract P" "speaks P lines" and said: "set said \<subseteq> set lines"
    and "response = concat (map fst said)" and "length response < MAX_CAPACITY"
    and run: "\<And>ds later. map parsed ds = map snd said \<Longrightarrow>
        \<exists>a s. op (replies (responses ds @ later) (MockStream_new response)) = (Ok a, s) \<and> wrote (conn s) line \<and> expected a"
  shows "session_test P op response line expected"
proof -
  obtain ds later where ds: "mock_answers P (MockStream_new response) = responses ds @ later" "map parsed ds = map snd said"
    by (rule mock_answers_said [OF P said, of "MockStream_new response"]) (use assms(4,5) fresh_mock in auto)
  from run [OF ds(2), of later] ds(1) show ?thesis
    by (auto simp: session_test_def mock_session_def mock_client_def replies_def)
qed

end
