(* ===== verification/Client_Tests.thy ===== *)
theory Client_Tests
  imports Mock_Client
begin

text \<open>
  The unit tests of \<open>src/client.rs\<close> on the model.  A test gives a mock transport the bytes of a
  server, runs a method, and compares what was written and what was returned.  What
  \<open>imap_proto\<close> makes of the lines of the test servers is the one assumption; the tests then run
  through the stream, the parsers and the methods as they are modelled.
\<close>

section \<open>The lines of the test servers\<close>

text \<open>Completions with \<open>OK\<close>.\<close>

definition done_line :: "string \<Rightarrow> string \<times> nat response" where
  "done_line text = (''A0001 OK '' @ text @ crlf, R_Done ''A0001'' Status_Ok None (Some text))"

text \<open>Every line with the response it stands for; what the crate passes on is a number.\<close>

definition transcript :: "(string \<times> nat response) list" where
  "transcript =
     map done_line [''Logged in'', ''Logout completed.'', ''RENAME completed'', ''SUBSCRIBE completed'',
       ''UNSUBSCRIBE completed'', ''EXPUNGE completed'', ''UID EXPUNGE completed'', ''CHECK completed'',
       ''Search completed'', ''CAPABILITY completed'', ''CREATE completed'', ''DELETE completed'',
       ''NOOP completed'', ''CLOSE completed'', ''STORE completed'', ''COPY completed'', ''Move completed'',
       ''FETCH completed'', ''STATUS completed'', ''GETMETADATA complete'']
   @ [(''+ YmFy'' @ crlf, R_Continue None (Some ''YmFy'')),
      (''* OK Dovecot ready.'' @ crlf, R_Data Status_Ok None (Some ''Dovecot ready.'')),
      (''* 2 EXPUNGE'' @ crlf, R_Expunge 2), (''* 3 EXPUNGE'' @ crlf, R_Expunge 3),
      (''* 4 EXPUNGE'' @ crlf, R_Expunge 4), (''* 1 EXPUNGE'' @ crlf, R_Expunge 1),
      (''* SEARCH 1 2 3 4 5'' @ crlf, R_MailboxData (MD_Search [1, 2, 3, 4, 5])),
      (''A0002 OK CAPABILITY completed'' @ crlf, R_Done ''A0002'' Status_Ok None (Some ''CAPABILITY completed'')),
      (''* CAPABILITY IMAP4rev1 STARTTLS AUTH=GSSAPI LOGINDISABLED'' @ crlf,
         R_Capabilities [Ref_Imap4rev1, Ref_Atom ''STARTTLS'', Ref_Auth ''GSSAPI'', Ref_Atom ''LOGINDISABLED'']),
      (''* OK [COPYUID 1511554416 142,399 41:42] Moved UIDs.'' @ crlf, R_Data Status_Ok (Some (RC_Other 0)) (Some ''Moved UIDs.'')),
      (''* 2 FETCH (FLAGS ('' @ backslash # ''Deleted '' @ backslash # ''Seen))'' @ crlf,
         R_Fetch 2 [AV_Flags [backslash # ''Deleted'', backslash # ''Seen'']]),
      (''* 3 FETCH (FLAGS ('' @ backslash # ''Deleted))'' @ crlf, R_Fetch 3 [AV_Flags [backslash # ''Deleted'']]),
      (''* 4 FETCH (FLAGS ('' @ backslash # ''Deleted '' @ backslash # ''Flagged '' @ backslash # ''Seen))'' @ crlf,
         R_Fetch 4 [AV_Flags [backslash # ''Deleted'', backslash # ''Flagged'', backslash # ''Seen'']]),
      (''* STATUS INBOX (UIDNEXT 25)'' @ crlf, R_MailboxData (MD_Status ''INBOX'' [SA_UidNext 25])),
      (''* STATUS INBOX (RECENT 15)'' @ crlf, R_MailboxData (MD_Status ''INBOX'' [SA_Recent 15])),
      (''* STATUS blurdybloop (MESSAGES 231 UIDNEXT 44292)'' @ crlf,
         R_MailboxData (MD_Status ''blurdybloop'' [SA_Messages 231, SA_UidNext 44292])),
       (''a0 OK Logged in.'' @ crlf, R_Done ''a0'' Status_Ok None (Some ''Logged in.'')),
      (''* 2 FETCH (BODY[TEXT] {3}'' @ crlf @ ''foo)'' @ crlf, R_Fetch 2 [AV_BodySection (Some (SP_Full MS_Text)) (Some ''foo'')]),
      (''a0 OK FETCH completed'' @ crlf, R_Done ''a0'' Status_Ok None (Some ''FETCH completed''))]"

text \<open>
  Metadata.  The crate does not look into the entries, so they are numbers here: 1 is
  \<open>/private/comment\<close> with \<open>My own comment\<close>, 2 \<open>/shared/comment\<close> with \<open>Shared comment\<close>, 3 \<open>/shared/comment\<close>
  with \<open>Chatmail server\<close>, 4 \<open>/shared/admin\<close> with the address, 5 and 6 the same two entries with no value.
\<close>

definition metadata_transcript :: "(string \<times> nat response) list" where
  "metadata_transcript =
     [(''* METADATA '' @ quote ''INBOX'' @ '' (/private/comment '' @ quote ''My own comment'' @ '')'' @ crlf,
         R_MailboxData (MD_MetadataSolicited ''INBOX'' [1])),
      (''* METADATA '' @ quote ''INBOX'' @ '' (/shared/comment '' @ quote ''Shared comment'' @ '' /private/comment ''
         @ quote ''My own comment'' @ '')'' @ crlf, R_MailboxData (MD_MetadataSolicited ''INBOX'' [2, 1])),
      (''* METADATA '' @ quote [] @ '' (/shared/comment {15}'' @ crlf @ ''Chatmail server /shared/admin {28}'' @ crlf
         @ ''mailto:root@nine.testrun.org)'' @ crlf, R_MailboxData (MD_MetadataSolicited [] [3, 4])),
      (''* METADATA '' @ quote [] @ '' (/shared/comment '' @ quote ''Chatmail server'' @ '')'' @ crlf,
         R_MailboxData (MD_MetadataSolicited [] [3])),
      (''* METADATA '' @ quote [] @ '' (/shared/admin '' @ quote ''mailto:root@nine.testrun.org'' @ '')'' @ crlf,
         R_MailboxData (MD_MetadataSolicited [] [4])),
      (''* METADATA '' @ quote [] @ '' (/shared/comment NIL /shared/admin NIL)'' @ crlf,
         R_MailboxData (MD_MetadataSolicited [] [5, 6])),
      done_line ''OK Getmetadata completed (0.001 + 0.000 secs).'']"

text \<open>The lines that describe a mailbox.\<close>

definition select_transcript :: "(string \<times> nat response) list" where
  "select_transcript =
     [(''* FLAGS ('' @ backslash # ''Answered '' @ backslash # ''Flagged '' @ backslash # ''Deleted '' @ backslash # ''Seen ''
         @ backslash # ''Draft)'' @ crlf,
         R_MailboxData (MD_Flags [backslash # ''Answered'', backslash # ''Flagged'', backslash # ''Deleted'',
           backslash # ''Seen'', backslash # ''Draft''])),
      (''* OK [PERMANENTFLAGS ()] Read-only mailbox.'' @ crlf,
         R_Data Status_Ok (Some (RC_PermanentFlags [])) (Some ''Read-only mailbox.'')),
      (''* OK [PERMANENTFLAGS ('' @ backslash # ''* '' @ backslash # ''Answered '' @ backslash # ''Flagged '' @ backslash # ''Deleted ''
         @ backslash # ''Draft '' @ backslash # ''Seen)] Read-only mailbox.'' @ crlf,
         R_Data Status_Ok (Some (RC_PermanentFlags [backslash # ''*'', backslash # ''Answered'', backslash # ''Flagged'',
           backslash # ''Deleted'', backslash # ''Draft'', backslash # ''Seen''])) (Some ''Read-only mailbox.'')),
      (''* 1 EXISTS'' @ crlf, R_MailboxData (MD_Exists 1)),
      (''* 1 RECENT'' @ crlf, R_MailboxData (MD_Recent 1)),
      (''* OK [UNSEEN 1] First unseen.'' @ crlf, R_Data Status_Ok (Some (RC_Unseen 1)) (Some ''First unseen.'')),
      (''* OK [UIDVALIDITY 1257842737] UIDs valid'' @ crlf,
         R_Data Status_Ok (Some (RC_UidValidity 1257842737)) (Some ''UIDs valid'')),
      (''* OK [UIDNEXT 2] Predicted next UID'' @ crlf, R_Data Status_Ok (Some (RC_UidNext 2)) (Some ''Predicted next UID'')),
      (''* OK [HIGHESTMODSEQ 90060115205545359] Highest mailbox modsequence'' @ crlf,
         R_Data Status_Ok (Some (RC_HighestModSeq 90060115205545359)) (Some ''Highest mailbox modsequence'')),
      (''A0001 OK [READ-ONLY] Select completed.'' @ crlf,
         R_Done ''A0001'' Status_Ok (Some (RC_Other 2)) (Some ''Select completed.''))]"

section \<open>The tests\<close>

text \<open>Commands that wait for their completion only.\<close>

definition logout_unit :: "(string \<Rightarrow> nat parse_result) \<Rightarrow> bool" where
  "logout_unit P \<longleftrightarrow> session_test P (logout mock_transport fifo_ops)
     (''A0001 OK Logout completed.'' @ crlf) (''A0001 LOGOUT'' @ crlf) (\<lambda>_. True)"

definition rename_unit :: "(string \<Rightarrow> nat parse_result) \<Rightarrow> bool" where
  "rename_unit P \<longleftrightarrow> session_test P (rename_mailbox mock_transport fifo_ops ''INBOX'' ''NEWINBOX'')
     (''A0001 OK RENAME completed'' @ crlf) (''A0001 RENAME '' @ quote ''INBOX'' @ '' '' @ quote ''NEWINBOX'' @ crlf) (\<lambda>_. True)"

definition subscribe_unit :: "(string \<Rightarrow> nat parse_result) \<Rightarrow> bool" where
  "subscribe_unit P \<longleftrightarrow> session_test P (subscribe mock_transport fifo_ops ''INBOX'')
     (''A0001 OK SUBSCRIBE completed'' @ crlf) (''A0001 SUBSCRIBE '' @ quote ''INBOX'' @ crlf) (\<lambda>_. True)"

definition unsubscribe_unit :: "(string \<Rightarrow> nat parse_result) \<Rightarrow> bool" where
  "unsubscribe_unit P \<longleftrightarrow> session_test P (unsubscribe mock_transport fifo_ops ''INBOX'')
     (''A0001 OK UNSUBSCRIBE completed'' @ crlf) (''A0001 UNSUBSCRIBE '' @ quote ''INBOX'' @ crlf) (\<lambda>_. True)"

definition check_unit :: "(string \<Rightarrow> nat parse_result) \<Rightarrow> bool" where
  "check_unit P \<longleftrightarrow> session_test P (check mock_transport fifo_ops)
     (''A0001 OK CHECK completed'' @ crlf) (''A0001 CHECK'' @ crlf) (\<lambda>_. True)"

definition create_unit :: "(string \<Rightarrow> nat parse_result) \<Rightarrow> bool" where
  "create_unit P \<longleftrightarrow> session_test P (create mock_transport fifo_ops ''INBOX'')
     (''A0001 OK CREATE completed'' @ crlf) (''A0001 CREATE '' @ quote ''INBOX'' @ crlf) (\<lambda>_. True)"

definition delete_unit :: "(string \<Rightarrow> nat parse_result) \<Rightarrow> bool" where
  "delete_unit P \<longleftrightarrow> session_test P (delete_mailbox mock_transport fifo_ops ''INBOX'')
     (''A0001 OK DELETE completed'' @ crlf) (''A0001 DELETE '' @ quote ''INBOX'' @ crlf) (\<lambda>_. True)"

definition close_unit :: "(string \<Rightarrow> nat parse_result) \<Rightarrow> bool" where
  "close_unit P \<longleftrightarrow> session_test P (close_mailbox mock_transport fifo_ops)
     (''A0001 OK CLOSE completed'' @ crlf) (''A0001 CLOSE'' @ crlf) (\<lambda>_. True)"

definition moved_lines :: string where
  "moved_lines = ''* OK [COPYUID 1511554416 142,399 41:42] Moved UIDs.'' @ crlf @ ''* 2 EXPUNGE'' @ crlf
     @ ''* 1 EXPUNGE'' @ crlf @ ''A0001 OK Move completed'' @ crlf"

definition mv_unit :: "(string \<Rightarrow> nat parse_result) \<Rightarrow> bool" where
  "mv_unit P \<longleftrightarrow> session_test P (mv mock_transport fifo_ops ''1:2'' ''MEETING'')
     moved_lines (''A0001 MOVE 1:2 '' @ quote ''MEETING'' @ crlf) (\<lambda>_. True)"

definition uid_mv_unit :: "(string \<Rightarrow> nat parse_result) \<Rightarrow> bool" where
  "uid_mv_unit P \<longleftrightarrow> session_test P (uid_mv mock_transport fifo_ops ''41:42'' ''MEETING'')
     moved_lines (''A0001 UID MOVE 41:42 '' @ quote ''MEETING'' @ crlf) (\<lambda>_. True)"

text \<open>\<open>generic_with_uid\<close> and the tests that use it.\<close>

definition generic_with_uid :: "(string \<Rightarrow> nat parse_result) \<Rightarrow> string \<Rightarrow> string \<Rightarrow> string \<Rightarrow> string \<Rightarrow> string
    \<Rightarrow> (string \<Rightarrow> string \<Rightarrow> (mock_stream, nat, nat unsolicited_response fifo) session
         \<Rightarrow> (unit, nat error) outcome \<times> (mock_stream, nat, nat unsolicited_response fifo) session) \<Rightarrow> bool" where
  "generic_with_uid P res cmd seq query pfx op \<longleftrightarrow>
     session_test P (op seq query) res (''A0001'' @ pfx @ cmd @ '' '' @ seq @ '' '' @ query @ crlf) (\<lambda>_. True)"

definition generic_store :: "(string \<Rightarrow> nat parse_result) \<Rightarrow> string
    \<Rightarrow> (string \<Rightarrow> string \<Rightarrow> (mock_stream, nat, nat unsolicited_response fifo) session
         \<Rightarrow> (unit, nat error) outcome \<times> (mock_stream, nat, nat unsolicited_response fifo) session) \<Rightarrow> bool" where
  "generic_store P pfx op \<longleftrightarrow>
     generic_with_uid P
       (''* 2 FETCH (FLAGS ('' @ backslash # ''Deleted '' @ backslash # ''Seen))'' @ crlf
        @ ''* 3 FETCH (FLAGS ('' @ backslash # ''Deleted))'' @ crlf
        @ ''* 4 FETCH (FLAGS ('' @ backslash # ''Deleted '' @ backslash # ''Flagged '' @ backslash # ''Seen))'' @ crlf
        @ ''A0001 OK STORE completed'' @ crlf)
       ''STORE'' ''2.4'' (''+FLAGS ('' @ backslash # ''Deleted)'') pfx op"

text \<open>\<open>.collect::<Vec<_>>().await; Ok(())\<close>.\<close>

definition collected :: "(('x, 'c, 'v) response_stream, 'x error) outcome \<times> ('r, 'x, 'c) session
    \<Rightarrow> (unit, 'x error) outcome \<times> ('r, 'x, 'c) session" where
  "collected p = bind_out p (\<lambda>st s. bind_out (collect st s) (\<lambda>vs s. (Ok (), s)))"

definition store_unit :: "(string \<Rightarrow> nat parse_result) \<Rightarrow> bool" where
  "store_unit P \<longleftrightarrow> generic_store P '' '' (\<lambda>set query s. collected (store mock_transport fifo_ops set query s))"

definition uid_store_unit :: "(string \<Rightarrow> nat parse_result) \<Rightarrow> bool" where
  "uid_store_unit P \<longleftrightarrow> generic_store P '' UID '' (\<lambda>set query s. collected (uid_store mock_transport fifo_ops set query s))"

definition generic_copy :: "(string \<Rightarrow> nat parse_result) \<Rightarrow> string
    \<Rightarrow> (string \<Rightarrow> string \<Rightarrow> (mock_stream, nat, nat unsolicited_response fifo) session
         \<Rightarrow> (unit, nat error) outcome \<times> (mock_stream, nat, nat unsolicited_response fifo) session) \<Rightarrow> bool" where
  "generic_copy P pfx op \<longleftrightarrow>
     generic_with_uid P (''A0001 OK COPY completed'' @ crlf) ''COPY'' ''2:4'' ''MEETING'' pfx op"

definition copy_unit :: "(string \<Rightarrow> nat parse_result) \<Rightarrow> bool" where
  "copy_unit P \<longleftrightarrow> generic_copy P '' '' (copy mock_transport fifo_ops)"

definition uid_copy_unit :: "(string \<Rightarrow> nat parse_result) \<Rightarrow> bool" where
  "uid_copy_unit P \<longleftrightarrow> generic_copy P '' UID '' (uid_copy mock_transport fifo_ops)"

definition generic_fetch :: "(string \<Rightarrow> nat parse_result) \<Rightarrow> string
    \<Rightarrow> (string \<Rightarrow> string \<Rightarrow> (mock_stream, nat, nat unsolicited_response fifo) session
         \<Rightarrow> (unit, nat error) outcome \<times> (mock_stream, nat, nat unsolicited_response fifo) session) \<Rightarrow> bool" where
  "generic_fetch P pfx op \<longleftrightarrow>
     generic_with_uid P (''A0001 OK FETCH completed'' @ crlf) ''FETCH'' ''1'' ''BODY[]'' pfx op"

definition fetch_unit :: "(string \<Rightarrow> nat parse_result) \<Rightarrow> bool" where
  "fetch_unit P \<longleftrightarrow> generic_fetch P '' '' (\<lambda>seq query s. collected (fetch_messages mock_transport fifo_ops seq query s))"

definition uid_fetch_unit :: "(string \<Rightarrow> nat parse_result) \<Rightarrow> bool" where
  "uid_fetch_unit P \<longleftrightarrow> generic_fetch P '' UID '' (\<lambda>seq query s. collected (uid_fetch mock_transport fifo_ops seq query s))"

text \<open>Commands with a result.\<close>

definition expunge_unit :: "(string \<Rightarrow> nat parse_result) \<Rightarrow> bool" where
  "expunge_unit P \<longleftrightarrow> session_test P (\<lambda>s. collected (expunge mock_transport fifo_ops s))
     (''A0001 OK EXPUNGE completed'' @ crlf) (''A0001 EXPUNGE'' @ crlf) (\<lambda>_. True)"

definition uid_expunge_unit :: "(string \<Rightarrow> nat parse_result) \<Rightarrow> bool" where
  "uid_expunge_unit P \<longleftrightarrow> session_test P (\<lambda>s. collected (uid_expunge mock_transport fifo_ops ''2:4'' s))
     (''* 2 EXPUNGE'' @ crlf @ ''* 3 EXPUNGE'' @ crlf @ ''* 4 EXPUNGE'' @ crlf @ ''A0001 OK UID EXPUNGE completed'' @ crlf)
     (''A0001 UID EXPUNGE 2:4'' @ crlf) (\<lambda>_. True)"

definition examine_unit :: "(string \<Rightarrow> nat parse_result) \<Rightarrow> bool" where
  "examine_unit P \<longleftrightarrow> session_test P (examine mock_transport fifo_ops ''INBOX'')
     (''* FLAGS ('' @ backslash # ''Answered '' @ backslash # ''Flagged '' @ backslash # ''Deleted '' @ backslash # ''Seen ''
        @ backslash # ''Draft)'' @ crlf @ ''* OK [PERMANENTFLAGS ()] Read-only mailbox.'' @ crlf
      @ ''* 1 EXISTS'' @ crlf @ ''* 1 RECENT'' @ crlf @ ''* OK [UNSEEN 1] First unseen.'' @ crlf
      @ ''* OK [UIDVALIDITY 1257842737] UIDs valid'' @ crlf @ ''* OK [UIDNEXT 2] Predicted next UID'' @ crlf
      @ ''A0001 OK [READ-ONLY] Select completed.'' @ crlf)
     (''A0001 EXAMINE '' @ quote ''INBOX'' @ crlf)
     (\<lambda>mbox. mbox = \<lparr>flags = [Answered, Flagged, Deleted, Seen, Draft], exists = 1, recent = 1, unseen = Some 1,
        permanent_flags = [], uid_next = Some 2, uid_validity = Some 1257842737, highest_modseq = None\<rparr>)"

definition select_unit :: "(string \<Rightarrow> nat parse_result) \<Rightarrow> bool" where
  "select_unit P \<longleftrightarrow> session_test P (select mock_transport fifo_ops ''INBOX'')
     (''* FLAGS ('' @ backslash # ''Answered '' @ backslash # ''Flagged '' @ backslash # ''Deleted '' @ backslash # ''Seen ''
        @ backslash # ''Draft)'' @ crlf
      @ ''* OK [PERMANENTFLAGS ('' @ backslash # ''* '' @ backslash # ''Answered '' @ backslash # ''Flagged '' @ backslash # ''Deleted ''
        @ backslash # ''Draft '' @ backslash # ''Seen)] Read-only mailbox.'' @ crlf
      @ ''* 1 EXISTS'' @ crlf @ ''* 1 RECENT'' @ crlf @ ''* OK [UNSEEN 1] First unseen.'' @ crlf
      @ ''* OK [UIDVALIDITY 1257842737] UIDs valid'' @ crlf @ ''* OK [UIDNEXT 2] Predicted next UID'' @ crlf
      @ ''* OK [HIGHESTMODSEQ 90060115205545359] Highest mailbox modsequence'' @ crlf
      @ ''A0001 OK [READ-ONLY] Select completed.'' @ crlf)
     (''A0001 SELECT '' @ quote ''INBOX'' @ crlf)
     (\<lambda>mbox. mbox = \<lparr>flags = [Answered, Flagged, Deleted, Seen, Draft], exists = 1, recent = 1, unseen = Some 1,
        permanent_flags = [MayCreate, Answered, Flagged, Deleted, Draft, Seen], uid_next = Some 2,
        uid_validity = Some 1257842737, highest_modseq = Some 90060115205545359\<rparr>)"

definition search_unit :: "(string \<Rightarrow> nat parse_result) \<Rightarrow> bool" where
  "search_unit P \<longleftrightarrow> session_test P (search mock_transport fifo_ops ''Unseen'')
     (''* SEARCH 1 2 3 4 5'' @ crlf @ ''A0001 OK Search completed'' @ crlf)
     (''A0001 SEARCH Unseen'' @ crlf) (\<lambda>ids. ids = {1, 2, 3, 4, 5})"

definition uid_search_unit :: "(string \<Rightarrow> nat parse_result) \<Rightarrow> bool" where
  "uid_search_unit P \<longleftrightarrow> session_test P (uid_search mock_transport fifo_ops ''Unseen'')
     (''* SEARCH 1 2 3 4 5'' @ crlf @ ''A0001 OK Search completed'' @ crlf)
     (''A0001 UID SEARCH Unseen'' @ crlf) (\<lambda>ids. ids = {1, 2, 3, 4, 5})"

definition uid_search_unordered_unit :: "(string \<Rightarrow> nat parse_result) \<Rightarrow> bool" where
  "uid_search_unordered_unit P \<longleftrightarrow> session_test P (uid_search mock_transport fifo_ops ''Unseen'')
     (''* SEARCH 1 2 3 4 5'' @ crlf @ ''A0002 OK CAPABILITY completed'' @ crlf @ ''A0001 OK Search completed'' @ crlf)
     (''A0001 UID SEARCH Unseen'' @ crlf) (\<lambda>ids. ids = {1, 2, 3, 4, 5})"

definition capability_unit :: "(string \<Rightarrow> nat parse_result) \<Rightarrow> bool" where
  "capability_unit P \<longleftrightarrow> session_test P (session_capabilities mock_transport fifo_ops)
     (''* CAPABILITY IMAP4rev1 STARTTLS AUTH=GSSAPI LOGINDISABLED'' @ crlf @ ''A0001 OK CAPABILITY completed'' @ crlf)
     (''A0001 CAPABILITY'' @ crlf)
     (\<lambda>caps. capabilities_len caps = 4
        \<and> (\<forall>e \<in> set [''IMAP4rev1'', ''STARTTLS'', ''AUTH=GSSAPI'', ''LOGINDISABLED'']. has_str caps e = (Ok True :: (bool, unit) outcome)))"

definition noop_unit :: "(string \<Rightarrow> nat parse_result) \<Rightarrow> bool" where
  "noop_unit P \<longleftrightarrow> session_test P (noop mock_transport fifo_ops)
     (''A0001 OK NOOP completed'' @ crlf) (''A0001 NOOP'' @ crlf) (\<lambda>_. True)"

definition status_unit :: "(string \<Rightarrow> nat parse_result) \<Rightarrow> bool" where
  "status_unit P \<longleftrightarrow>
     session_test P (status mock_transport fifo_ops ''INBOX'' ''(UIDNEXT)'')
       (''* STATUS INBOX (UIDNEXT 25)'' @ crlf
        @ ''A0001 OK [CLIENTBUG] Status on selected mailbox completed (0.001 + 0.000 secs).'' @ crlf)
       (''A0001 STATUS '' @ quote ''INBOX'' @ '' (UIDNEXT)'' @ crlf) (\<lambda>st. uid_next st = Some 25)
   \<and> session_test P (status mock_transport fifo_ops ''INBOX'' ''(RECENT)'')
       (''* STATUS INBOX (RECENT 15)'' @ crlf @ ''A0001 OK STATUS completed'' @ crlf)
       (''A0001 STATUS '' @ quote ''INBOX'' @ '' (RECENT)'' @ crlf) (\<lambda>st. recent st = 15)
   \<and> session_test P (status mock_transport fifo_ops ''blurdybloop'' ''(UIDNEXT MESSAGES)'')
       (''* STATUS blurdybloop (MESSAGES 231 UIDNEXT 44292)'' @ crlf @ ''A0001 OK STATUS completed'' @ crlf)
       (''A0001 STATUS '' @ quote ''blurdybloop'' @ '' (UIDNEXT MESSAGES)'' @ crlf)
       (\<lambda>st. uid_next st = Some 44292 \<and> exists st = 231)"

definition get_metadata_unit :: "(string \<Rightarrow> nat parse_result) \<Rightarrow> bool" where
  "get_metadata_unit P \<longleftrightarrow>
     session_test P (get_metadata mock_transport fifo_ops ''INBOX'' [] ''/private/comment'')
       (''* METADATA '' @ quote ''INBOX'' @ '' (/private/comment '' @ quote ''My own comment'' @ '')'' @ crlf
        @ ''A0001 OK GETMETADATA complete'' @ crlf)
       (''A0001 GETMETADATA '' @ quote ''INBOX'' @ '' /private/comment'' @ crlf) (\<lambda>md. md = [1])
   \<and> session_test P (get_metadata mock_transport fifo_ops ''INBOX'' [] ''(/shared/comment /private/comment)'')
       (''* METADATA '' @ quote ''INBOX'' @ '' (/shared/comment '' @ quote ''Shared comment'' @ '' /private/comment ''
        @ quote ''My own comment'' @ '')'' @ crlf @ ''A0001 OK GETMETADATA complete'' @ crlf)
       (''A0001 GETMETADATA '' @ quote ''INBOX'' @ '' (/shared/comment /private/comment)'' @ crlf) (\<lambda>md. md = [2, 1])
   \<and> session_test P (get_metadata mock_transport fifo_ops [] [] ''(/shared/comment /shared/admin)'')
       (''* METADATA '' @ quote [] @ '' (/shared/comment {15}'' @ crlf @ ''Chatmail server /shared/admin {28}'' @ crlf
        @ ''mailto:root@nine.testrun.org)'' @ crlf @ ''A0001 OK OK Getmetadata completed (0.001 + 0.000 secs).'' @ crlf)
       (''A0001 GETMETADATA '' @ quote [] @ '' (/shared/comment /shared/admin)'' @ crlf) (\<lambda>md. md = [3, 4])
   \<and> session_test P (get_metadata mock_transport fifo_ops [] [] ''(/shared/comment /shared/admin)'')
       (''* METADATA '' @ quote [] @ '' (/shared/comment '' @ quote ''Chatmail server'' @ '')'' @ crlf
        @ ''* METADATA '' @ quote [] @ '' (/shared/admin '' @ quote ''mailto:root@nine.testrun.org'' @ '')'' @ crlf
        @ ''A0001 OK OK Getmetadata completed (0.001 + 0.000 secs).'' @ crlf)
       (''A0001 GETMETADATA '' @ quote [] @ '' (/shared/comment /shared/admin)'' @ crlf) (\<lambda>md. md = [3, 4])
   \<and> session_test P (get_metadata mock_transport fifo_ops [] [] ''(/shared/comment /shared/admin)'')
       (''* METADATA '' @ quote [] @ '' (/shared/comment NIL /shared/admin NIL)'' @ crlf
        @ ''A0001 OK OK Getmetadata completed (0.001 + 0.000 secs).'' @ crlf)
       (''A0001 GETMETADATA '' @ quote [] @ '' (/shared/comment /shared/admin)'' @ crlf) (\<lambda>md. md = [5, 6])"

text \<open>The tests that look at the stream itself.\<close>

definition fetch_body_unit :: "(string \<Rightarrow> nat parse_result) \<Rightarrow> bool" where
  "fetch_body_unit P \<longleftrightarrow>
     (let s = mock_session P (MockStream_new (''a0 OK Logged in.'' @ crlf @ ''* 2 FETCH (BODY[TEXT] {3}'' @ crlf @ ''foo)'' @ crlf
        @ ''a0 OK FETCH completed'' @ crlf))
      in case session_read_response s of
           (Ok (Some (Inr _)), s) \<Rightarrow> (case session_read_response s of (Ok (Some (Inr _)), s) \<Rightarrow> True | _ \<Rightarrow> False)
         | _ \<Rightarrow> False)"

definition readline_delay_read_unit :: "(string \<Rightarrow> nat parse_result) \<Rightarrow> bool" where
  "readline_delay_read_unit P \<longleftrightarrow>
     (case read_response (mock_client P (with_delay (with_buf (''* OK Dovecot ready.'' @ crlf) MockStream_default))) of
        (Ok (Some (Inr actual_response)), client) \<Rightarrow>
          parsed actual_response = R_Data Status_Ok None (Some ''Dovecot ready.'')
      | _ \<Rightarrow> False)"

definition readline_eof_unit :: "(string \<Rightarrow> nat parse_result) \<Rightarrow> bool" where
  "readline_eof_unit P \<longleftrightarrow>
     (case read_response (mock_client P (with_eof MockStream_default)) of (Ok res, client) \<Rightarrow> res = None | _ \<Rightarrow> False)"

text \<open>\<open>should_panic\<close>: one of the two \<open>unwrap\<close>s does.\<close>

definition readline_err_unit :: "(string \<Rightarrow> nat parse_result) \<Rightarrow> bool" where
  "readline_err_unit P \<longleftrightarrow>
     (case read_response (mock_client P (with_err MockStream_default)) of
        (Ok None, client) \<Rightarrow> True
      | (Ok (Some (Inl e)), client) \<Rightarrow> True
      | _ \<Rightarrow> False)"

definition fetch_unexpected_eof_unit :: "(string \<Rightarrow> nat parse_result) \<Rightarrow> bool" where
  "fetch_unexpected_eof_unit P \<longleftrightarrow>
     (case uid_fetch mock_transport fifo_ops ''1:*'' ''(FLAGS BODY.PEEK[])'' (mock_session P (MockStream_new [])) of
        (Ok fetch_result, s) \<Rightarrow>
          (case parse_answers (poll_stream fetch_result) s of
             (Ok (Some (Inl (Io (Io_Error kind msg)))), s) \<Rightarrow>
               kind = Kind_UnexpectedEof \<and> wrote (conn s) (''A0001 UID FETCH 1:* (FLAGS BODY.PEEK[])'' @ crlf)
           | _ \<Rightarrow> False)
      | _ \<Rightarrow> False)"

text \<open>Logging in; \<open>B\<close> is the \<open>base64\<close> engine.\<close>

definition login_unit :: "(string \<Rightarrow> nat parse_result) \<Rightarrow> bool" where
  "login_unit P \<longleftrightarrow>
     (case login mock_transport fifo_ops ''username'' ''password'' (mock_client P (MockStream_new (''A0001 OK Logged in'' @ crlf))) of
        Ok s \<Rightarrow> wrote (conn s) (''A0001 LOGIN '' @ quote ''username'' @ '' '' @ quote ''password'' @ crlf)
      | _ \<Rightarrow> False)"

definition authenticate_process :: "string \<Rightarrow> unit \<Rightarrow> string \<times> unit" where
  "authenticate_process challenge a =
     (if challenge = ''bar'' then ''foo'' else ''Invalid authenticate challenge'', a)"

definition authenticate_unit :: "(string \<Rightarrow> nat parse_result) \<Rightarrow> nat base64 \<Rightarrow> bool" where
  "authenticate_unit P B \<longleftrightarrow>
     (case authenticate mock_transport fifo_ops B authenticate_process ''PLAIN'' ()
             (mock_client P (MockStream_new (''+ YmFy'' @ crlf @ ''A0001 OK Logged in'' @ crlf))) of
        Ok s \<Rightarrow> wrote (conn s) (''A0001 AUTHENTICATE PLAIN'' @ crlf @ ''Zm9v'' @ crlf)
      | _ \<Rightarrow> False)"

text \<open>Strings.\<close>

definition quote_backslash_unit :: bool where
  "quote_backslash_unit \<longleftrightarrow>
     [dquote] @ ''test'' @ [backslash, backslash] @ ''text'' @ [dquote] = quote (''test'' @ [backslash] @ ''text'')"

definition quote_dquote_unit :: bool where
  "quote_dquote_unit \<longleftrightarrow>
     [dquote] @ ''test'' @ [backslash, dquote] @ ''text'' @ [dquote] = quote (''test'' @ [dquote] @ ''text'')"

definition validate_random_unit :: bool where
  "validate_random_unit \<longleftrightarrow>
     validate_str (''~iCQ_k;>[&'' @ [dquote] @ ''sVCvUW`e<<P!wJ'') =
       (Ok ([dquote] @ ''~iCQ_k;>[&'' @ [backslash, dquote] @ ''sVCvUW`e<<P!wJ'' @ [dquote]) :: (string, nat error) outcome)"

definition validate_newline_unit :: bool where
  "validate_newline_unit \<longleftrightarrow> validate_str (''test'' @ [LF] @ ''string'') = (Err (Validate LF) :: (string, nat error) outcome)"

definition validate_carriage_return_unit :: bool where
  "validate_carriage_return_unit \<longleftrightarrow> validate_str (''test'' @ [CR] @ ''string'') = (Err (Validate CR) :: (string, nat error) outcome)"

section \<open>They pass\<close>

text \<open>
  The completion with the code \<open>[CLIENTBUG]\<close> is read as \<open>OK\<close> with the code and the text \<open>said\<close>, whatever
  they are: the crate does not look at them, and whether \<open>imap_proto\<close> knows this code is not assumed.
\<close>

definition client_bug_line :: string where
  "client_bug_line = ''A0001 OK [CLIENTBUG] Status on selected mailbox completed (0.001 + 0.000 secs).'' @ crlf"

definition test_lines :: "nat response_code option \<times> string option \<Rightarrow> (string \<times> nat response) list" where
  "test_lines said = transcript @ select_transcript @ metadata_transcript
     @ [(client_bug_line, R_Done ''A0001'' Status_Ok (fst said) (snd said))]"

lemma replies_command:
  "\<exists>cn. run_command mock_transport command (conn (replies sc m)) = (Ok ''A0001'', cn) \<and> incoming cn = sc
     \<and> written_buf (inner (stream cn)) = written_buf m @ ''A0001 '' @ command @ crlf"
  by (simp add: replies_def Session_new_def Client_new_def run_command_def mock_id_next request_bytes_def ImapStream_new_def crlf_def)

lemma unsolicited_replies: "unsolicited (replies sc m) = ch_bounded fifo_ops 100"
  by (simp add: replies_def Session_new_def)

lemma run_parser:
  assumes "parse ''A0001'' sc (ch_bounded fifo_ops 100) = (Ok a, sc', c')" and "expected a"
    and "line = ''A0001 '' @ command @ crlf" and "written_buf m = []"
  shows "\<exists>a s. bind_out (session_run_command mock_transport command (replies sc m)) (\<lambda>tag s. parse_answers (parse tag) s) = (Ok a, s)
     \<and> wrote (conn s) line \<and> expected a"
proof -
  obtain cn where cn: "run_command mock_transport command (conn (replies sc m)) = (Ok ''A0001'', cn)" "incoming cn = sc"
    "written_buf (inner (stream cn)) = written_buf m @ ''A0001 '' @ command @ crlf"
    using replies_command by blast
  with assms show ?thesis
    by (simp add: session_run_command_Ok [OF cn(1)] parse_answers_def on_incoming_def unsolicited_replies wrote_def)
qed

lemma run_check_ok:
  assumes "check_done_ok (Some fifo_ops) ''A0001'' sc (ch_bounded fifo_ops 100) = (Ok (), sc', c')"
    and "line = ''A0001 '' @ command @ crlf" and "written_buf m = []"
  shows "\<exists>a s. session_run_command_and_check_ok mock_transport fifo_ops command (replies sc m) = (Ok a, s)
     \<and> wrote (conn s) line \<and> True"
proof -
  obtain cn where cn: "run_command mock_transport command (conn (replies sc m)) = (Ok ''A0001'', cn)" "incoming cn = sc"
    "written_buf (inner (stream cn)) = written_buf m @ ''A0001 '' @ command @ crlf"
    using replies_command by blast
  with assms show ?thesis
    by (simp add: session_run_command_and_check_ok_def run_command_and_check_ok_def on_incoming_def unsolicited_replies wrote_def)
qed

lemma run_stream:
  assumes "stream_collect item ''A0001'' False sc (ch_bounded fifo_ops 100) = (Ok vs, ended, sc', c')"
    and "line = ''A0001 '' @ command @ crlf" and "written_buf m = []"
  shows "\<exists>a s. collected (bind_out (session_run_command mock_transport command (replies sc m)) (\<lambda>tag s. (Ok (item, tag, False), s)))
       = (Ok a, s) \<and> wrote (conn s) line \<and> True"
proof -
  obtain cn where cn: "run_command mock_transport command (conn (replies sc m)) = (Ok ''A0001'', cn)" "incoming cn = sc"
    "written_buf (inner (stream cn)) = written_buf m @ ''A0001 '' @ command @ crlf"
    using replies_command by blast
  with assms show ?thesis
    by (simp add: collected_def collect_def collect_stream_def session_run_command_Ok [OF cn(1)] parse_answers_def on_incoming_def
        unsolicited_replies wrote_def)
qed

lemma fifo_bounded: "ch_bounded fifo_ops 100 = fifo_new 100" "\<not> fifo_closed (fifo_new n)"
  by (simp_all add: fifo_ops_def fifo_new_def)

text \<open>Waiting for a completion, whatever came before it.\<close>

lemma check_ok_said:
  assumes "map parsed ds = rs @ [R_Done ''A0001'' Status_Ok code info]"
    and "\<forall>r \<in> set rs. \<forall>t st code info. r \<noteq> R_Done t st code info"
  shows "\<exists>c'. check_done_ok (Some fifo_ops) ''A0001'' (responses ds @ later) (ch_bounded fifo_ops 100) = (Ok (), later, c')"
proof -
  from assms(1) obtain ds' d where ds: "ds = ds' @ [d]" "map parsed ds' = rs" "parsed d = R_Done ''A0001'' Status_Ok code info"
    by (auto simp: map_eq_append_conv)
  have "\<forall>q \<in> set ds'. \<not> completes ''A0001'' q" and "\<forall>q \<in> set ds'. done_failure q = None"
    using assms(2) unfolding ds(2) [symmetric] by (auto simp: completes_iff done_failure_def split: response.split)
  from check_done.run_keep_complete [OF fifo_contract _ this, of "ch_bounded fifo_ops 100" d later] ds(1,3)
  show ?thesis
    by (auto simp: fifo_bounded done_result_Done [OF ds(3)] completes_iff check_status_ok_def)
qed

lemma check_ok_test:
  assumes "parser_contract P" and "speaks P (test_lines bug)" and "set said \<subseteq> set (test_lines bug)"
    and "response = concat (map fst said)" and "length response < MAX_CAPACITY"
    and "line = ''A0001 '' @ command @ crlf"
    and "map snd said = rs @ [R_Done ''A0001'' Status_Ok code info]"
    and "\<forall>r \<in> set rs. \<forall>t st code info. r \<noteq> R_Done t st code info"
  shows "session_test P (session_run_command_and_check_ok mock_transport fifo_ops command) response line (\<lambda>_. True)"
proof (rule session_test_passes [OF assms(1-5)])
  fix ds :: "nat response_data list" and later
  assume "map parsed ds = map snd said"
  then obtain c' where "check_done_ok (Some fifo_ops) ''A0001'' (responses ds @ later) (ch_bounded fifo_ops 100) = (Ok (), later, c')"
    using check_ok_said [OF _ assms(8)] assms(7) by metis
  from run_check_ok [OF this assms(6) fresh_mock(3)]
  show "\<exists>a s. session_run_command_and_check_ok mock_transport fifo_ops command
      (replies (responses ds @ later) (MockStream_new response)) = (Ok a, s) \<and> wrote (conn s) line \<and> True" .
qed

lemmas test_simps = test_lines_def client_bug_line_def transcript_def done_line_def crlf_def MAX_CAPACITY_def

lemma validated_commands:
  "create mock_transport fifo_ops ''INBOX'' = session_run_command_and_check_ok mock_transport fifo_ops (''CREATE '' @ quote ''INBOX'')"
  "delete_mailbox mock_transport fifo_ops ''INBOX'' = session_run_command_and_check_ok mock_transport fifo_ops (''DELETE '' @ quote ''INBOX'')"
  "mv mock_transport fifo_ops seqs ''MEETING'' =
     session_run_command_and_check_ok mock_transport fifo_ops (''MOVE '' @ seqs @ '' '' @ quote ''MEETING'')"
  "uid_mv mock_transport fifo_ops seqs ''MEETING'' =
     session_run_command_and_check_ok mock_transport fifo_ops (''UID MOVE '' @ seqs @ '' '' @ quote ''MEETING'')"
  by (simp_all add: fun_eq_iff create_def delete_mailbox_def mv_def uid_mv_def validate_str_Ok)

lemma parser_test:
  assumes "parser_contract P" and "speaks P (test_lines bug)" and "set said \<subseteq> set (test_lines bug)"
    and "response = concat (map fst said)" and "length response < MAX_CAPACITY"
    and "line = ''A0001 '' @ command @ crlf"
    and "\<And>ds later. map parsed ds = map snd said \<Longrightarrow>
        \<exists>a sc' c'. parse ''A0001'' (responses ds @ later) (ch_bounded fifo_ops 100) = (Ok a, sc', c') \<and> expected a"
  shows "session_test P (\<lambda>s. bind_out (session_run_command mock_transport command s) (\<lambda>tag s. parse_answers (parse tag) s))
     response line expected"
proof (rule session_test_passes [OF assms(1-5)])
  fix ds :: "nat response_data list" and later
  assume "map parsed ds = map snd said"
  from assms(7) [OF this] obtain a sc' c' where "parse ''A0001'' (responses ds @ later) (ch_bounded fifo_ops 100) = (Ok a, sc', c')"
    "expected a" by blast
  from run_parser [where expected = expected and parse = parse, OF this assms(6) fresh_mock(3)]
  show "\<exists>a s. bind_out (session_run_command mock_transport command (replies (responses ds @ later) (MockStream_new response)))
      (\<lambda>tag s. parse_answers (parse tag) s) = (Ok a, s) \<and> wrote (conn s) line \<and> expected a" .
qed

lemma stream_test:
  assumes "parser_contract P" and "speaks P (test_lines bug)" and "set said \<subseteq> set (test_lines bug)"
    and "response = concat (map fst said)" and "length response < MAX_CAPACITY"
    and "line = ''A0001 '' @ command @ crlf"
    and "\<And>ds later. map parsed ds = map snd said \<Longrightarrow>
        \<exists>vs rest. stream_collect item ''A0001'' False (responses ds @ later) (ch_bounded fifo_ops 100) = (Ok vs, rest)"
  shows "session_test P (\<lambda>s. collected (bind_out (session_run_command mock_transport command s) (\<lambda>tag s. (Ok (item, tag, False), s))))
     response line (\<lambda>_. True)"
proof (rule session_test_passes [OF assms(1-5)])
  fix ds :: "nat response_data list" and later
  assume "map parsed ds = map snd said"
  from assms(7) [OF this] obtain vs ended sc' c'
    where "stream_collect item ''A0001'' False (responses ds @ later) (ch_bounded fifo_ops 100) = (Ok vs, ended, sc', c')"
    by (metis prod.exhaust)
  from run_stream [OF this assms(6) fresh_mock(3)]
  show "\<exists>a s. collected (bind_out (session_run_command mock_transport command (replies (responses ds @ later) (MockStream_new response)))
      (\<lambda>tag s. (Ok (item, tag, False), s))) = (Ok a, s) \<and> wrote (conn s) line \<and> True" .
qed

text \<open>The first poll of a new stream over a transport that has nothing to read.\<close>

lemma first_poll:
  assumes "P [] = Incomplete_Unknown" and "mock_poll_read BLOCK_SIZE m = (res, m)"
    and "res = Read [] \<and> t = None \<or> (\<exists>e. res = Read_Error e \<and> t = Some (Inl e))"
  shows "\<exists>later. mock_answers P m = t # later"
proof -
  let ?s = "ImapStream_new m"
  have dec: "decode P ?s = (Ok None, ?s)"
    using assms(1) by (simp add: decode_def ImapStream_new_def Buffer_new_def take_block_def return_block_def used_def)
  have cap: "ensure_capacity (decode_needs ?s) (buffer ?s) = (Ok (), buffer ?s)"
    by (simp add: ensure_capacity_def usize_sub_def ImapStream_new_def Buffer_new_def BLOCK_SIZE_def Let_def)
  have "poll_step P mock_poll_read ?s = Inl (Ok t, ?s)"
    unfolding poll_step_eq [OF cap] using assms(2,3)
    by (auto simp: poll_received_def ImapStream_new_def Buffer_new_def write_free_def used_def)
  then have "poll_next P mock_poll_read ?s = (Ok t, ?s)"
    by (simp add: poll_next_def dec poll_loop.simps [of P mock_poll_read ?s])
  then show ?thesis by (simp add: mock_answers_def)
qed

lemma quoted:
  "quote [] = [dquote, dquote]" "quote ''INBOX'' = dquote # ''INBOX'' @ [dquote]"
  "quote ''My own comment'' = dquote # ''My own comment'' @ [dquote]"
  "quote ''Shared comment'' = dquote # ''Shared comment'' @ [dquote]"
  "quote ''Chatmail server'' = dquote # ''Chatmail server'' @ [dquote]"
  "quote ''mailto:root@nine.testrun.org'' = dquote # ''mailto:root@nine.testrun.org'' @ [dquote]"
  by code_simp+

locale test_server =
  fixes P :: "string \<Rightarrow> nat parse_result" and bug :: "nat response_code option \<times> string option"
  assumes contract: "parser_contract P" and speaks: "speaks P (test_lines bug)" and silent: "P [] = Incomplete_Unknown"
begin

lemma logout_passes: "logout_unit P"
  unfolding logout_unit_def logout_def
  by (rule check_ok_test [OF contract speaks, where said = "[done_line ''Logout completed.'']" and rs = "[]"]) (simp_all add: test_simps)

lemma rename_passes: "rename_unit P"
  unfolding rename_unit_def rename_mailbox_def
  by (rule check_ok_test [OF contract speaks, where said = "[done_line ''RENAME completed'']" and rs = "[]"]) (simp_all add: test_simps)

lemma subscribe_passes: "subscribe_unit P"
  unfolding subscribe_unit_def subscribe_def
  by (rule check_ok_test [OF contract speaks, where said = "[done_line ''SUBSCRIBE completed'']" and rs = "[]"]) (simp_all add: test_simps)

lemma unsubscribe_passes: "unsubscribe_unit P"
  unfolding unsubscribe_unit_def unsubscribe_def
  by (rule check_ok_test [OF contract speaks, where said = "[done_line ''UNSUBSCRIBE completed'']" and rs = "[]"]) (simp_all add: test_simps)

lemma check_passes: "check_unit P"
  unfolding check_unit_def check_def
  by (rule check_ok_test [OF contract speaks, where said = "[done_line ''CHECK completed'']" and rs = "[]"]) (simp_all add: test_simps)

lemma create_passes: "create_unit P"
  unfolding create_unit_def validated_commands
  by (rule check_ok_test [OF contract speaks, where said = "[done_line ''CREATE completed'']" and rs = "[]"]) (simp_all add: test_simps)

lemma delete_passes: "delete_unit P"
  unfolding delete_unit_def validated_commands
  by (rule check_ok_test [OF contract speaks, where said = "[done_line ''DELETE completed'']" and rs = "[]"]) (simp_all add: test_simps)

lemma close_passes: "close_unit P"
  unfolding close_unit_def close_mailbox_def
  by (rule check_ok_test [OF contract speaks, where said = "[done_line ''CLOSE completed'']" and rs = "[]"]) (simp_all add: test_simps)

lemma mv_passes: "mv_unit P"
  unfolding mv_unit_def validated_commands
  by (rule check_ok_test [OF contract speaks, where
      said = "[(''* OK [COPYUID 1511554416 142,399 41:42] Moved UIDs.'' @ crlf, R_Data Status_Ok (Some (RC_Other 0)) (Some ''Moved UIDs.'')), (''* 2 EXPUNGE'' @ crlf, R_Expunge 2), (''* 1 EXPUNGE'' @ crlf, R_Expunge 1), done_line ''Move completed'']" 
      and rs = "[R_Data Status_Ok (Some (RC_Other 0)) (Some ''Moved UIDs.''), R_Expunge 2, R_Expunge 1]"]) (simp_all add: test_simps moved_lines_def)

lemma uid_mv_passes: "uid_mv_unit P"
  unfolding uid_mv_unit_def validated_commands
  by (rule check_ok_test [OF contract speaks, where
      said = "[(''* OK [COPYUID 1511554416 142,399 41:42] Moved UIDs.'' @ crlf, R_Data Status_Ok (Some (RC_Other 0)) (Some ''Moved UIDs.'')), (''* 2 EXPUNGE'' @ crlf, R_Expunge 2), (''* 1 EXPUNGE'' @ crlf, R_Expunge 1), done_line ''Move completed'']" 
      and rs = "[R_Data Status_Ok (Some (RC_Other 0)) (Some ''Moved UIDs.''), R_Expunge 2, R_Expunge 1]"]) (simp_all add: test_simps moved_lines_def)

lemma copy_passes: "copy_unit P"
  unfolding copy_unit_def generic_copy_def generic_with_uid_def copy_def
  by (rule check_ok_test [OF contract speaks, where said = "[done_line ''COPY completed'']" and rs = "[]"]) (simp_all add: test_simps)

lemma uid_copy_passes: "uid_copy_unit P"
  unfolding uid_copy_unit_def generic_copy_def generic_with_uid_def uid_copy_def
  by (rule check_ok_test [OF contract speaks, where said = "[done_line ''COPY completed'']" and rs = "[]"]) (simp_all add: test_simps)


lemmas reading_simps = map_eq_Cons_conv completes_iff fifo_bounded

lemma search_passes: "search_unit P"
  unfolding search_unit_def search_def
  by (rule parser_test [OF contract speaks, where said = "[(''* SEARCH 1 2 3 4 5'' @ crlf, R_MailboxData (MD_Search [1, 2, 3, 4, 5])), done_line ''Search completed'']"])
    (auto simp: test_simps reading_simps parse_ids_def)

lemma uid_search_passes: "uid_search_unit P"
  unfolding uid_search_unit_def uid_search_def
  by (rule parser_test [OF contract speaks, where said = "[(''* SEARCH 1 2 3 4 5'' @ crlf, R_MailboxData (MD_Search [1, 2, 3, 4, 5])), done_line ''Search completed'']"])
    (auto simp: test_simps reading_simps parse_ids_def)

lemma uid_search_unordered_passes: "uid_search_unordered_unit P"
  unfolding uid_search_unordered_unit_def uid_search_def
  by (rule parser_test [OF contract speaks, where said = "[(''* SEARCH 1 2 3 4 5'' @ crlf, R_MailboxData (MD_Search [1, 2, 3, 4, 5])), (''A0002 OK CAPABILITY completed'' @ crlf, R_Done ''A0002'' Status_Ok None (Some ''CAPABILITY completed'')), done_line ''Search completed'']"])
    (auto simp: test_simps reading_simps parse_ids_def handle_unilateral_def send_expect_def fifo_ops_def fifo_new_def)

lemma four_capabilities:
  "e \<in> set [''IMAP4rev1'', ''STARTTLS'', ''AUTH=GSSAPI'', ''LOGINDISABLED''] \<Longrightarrow>
     has_str {Atom ''LOGINDISABLED'', Auth ''GSSAPI'', Atom ''STARTTLS'', Imap4rev1} e = (Ok True :: (bool, unit) outcome)"
proof -
  have "list_all (\<lambda>e. has_str {Atom ''LOGINDISABLED'', Auth ''GSSAPI'', Atom ''STARTTLS'', Imap4rev1} e = (Ok True :: (bool, unit) outcome))
      [''IMAP4rev1'', ''STARTTLS'', ''AUTH=GSSAPI'', ''LOGINDISABLED'']" by code_simp
  then show "e \<in> set [''IMAP4rev1'', ''STARTTLS'', ''AUTH=GSSAPI'', ''LOGINDISABLED''] \<Longrightarrow> ?thesis"
    by (auto simp: list_all_iff)
qed

lemma capability_passes: "capability_unit P"
  unfolding capability_unit_def session_capabilities_def
  by (rule parser_test [OF contract speaks, where said = "[(''* CAPABILITY IMAP4rev1 STARTTLS AUTH=GSSAPI LOGINDISABLED'' @ crlf, R_Capabilities [Ref_Imap4rev1, Ref_Atom ''STARTTLS'', Ref_Auth ''GSSAPI'', Ref_Atom ''LOGINDISABLED'']), done_line ''CAPABILITY completed'']"])
    (auto simp: test_simps reading_simps parse_capabilities_def capabilities_len_def four_capabilities)

lemma noop_passes: "noop_unit P"
  unfolding noop_unit_def noop_def
  by (rule parser_test [OF contract speaks, where said = "[done_line ''NOOP completed'']"])
    (auto simp: test_simps reading_simps)

lemma expunge_passes: "expunge_unit P"
  unfolding expunge_unit_def expunge_def parse_expunge_def
  by (rule stream_test [OF contract speaks, where said = "[done_line ''EXPUNGE completed'']"])
    (auto simp: test_simps reading_simps stream_collect.simps)

lemma fetch_passes: "fetch_unit P"
  unfolding fetch_unit_def generic_fetch_def generic_with_uid_def fetch_messages_def parse_fetches_def
  by (rule stream_test [OF contract speaks, where said = "[done_line ''FETCH completed'']"])
    (auto simp: test_simps reading_simps stream_collect.simps)

lemma uid_fetch_passes: "uid_fetch_unit P"
  unfolding uid_fetch_unit_def generic_fetch_def generic_with_uid_def uid_fetch_def parse_fetches_def
  by (rule stream_test [OF contract speaks, where said = "[done_line ''FETCH completed'']"])
    (auto simp: test_simps reading_simps stream_collect.simps)

lemma uid_expunge_passes: "uid_expunge_unit P"
  unfolding uid_expunge_unit_def uid_expunge_def parse_expunge_def
  by (rule stream_test [OF contract speaks, where said = "[(''* 2 EXPUNGE'' @ crlf, R_Expunge 2), (''* 3 EXPUNGE'' @ crlf, R_Expunge 3), (''* 4 EXPUNGE'' @ crlf, R_Expunge 4), done_line ''UID EXPUNGE completed'']"])
    (auto simp: test_simps reading_simps stream_collect.simps expunge_item_def)

lemma store_passes: "store_unit P"
  unfolding store_unit_def generic_store_def generic_with_uid_def store_def parse_fetches_def
  by (rule stream_test [OF contract speaks, where said = "[(''* 2 FETCH (FLAGS ('' @ backslash # ''Deleted '' @ backslash # ''Seen))'' @ crlf, R_Fetch 2 [AV_Flags [backslash # ''Deleted'', backslash # ''Seen'']]), (''* 3 FETCH (FLAGS ('' @ backslash # ''Deleted))'' @ crlf, R_Fetch 3 [AV_Flags [backslash # ''Deleted'']]), (''* 4 FETCH (FLAGS ('' @ backslash # ''Deleted '' @ backslash # ''Flagged '' @ backslash # ''Seen))'' @ crlf, R_Fetch 4 [AV_Flags [backslash # ''Deleted'', backslash # ''Flagged'', backslash # ''Seen'']]), done_line ''STORE completed'']"])
    (auto simp: test_simps reading_simps stream_collect.simps fetches_item_def Fetch_new_def)

lemma uid_store_passes: "uid_store_unit P"
  unfolding uid_store_unit_def generic_store_def generic_with_uid_def uid_store_def parse_fetches_def
  by (rule stream_test [OF contract speaks, where said = "[(''* 2 FETCH (FLAGS ('' @ backslash # ''Deleted '' @ backslash # ''Seen))'' @ crlf, R_Fetch 2 [AV_Flags [backslash # ''Deleted'', backslash # ''Seen'']]), (''* 3 FETCH (FLAGS ('' @ backslash # ''Deleted))'' @ crlf, R_Fetch 3 [AV_Flags [backslash # ''Deleted'']]), (''* 4 FETCH (FLAGS ('' @ backslash # ''Deleted '' @ backslash # ''Flagged '' @ backslash # ''Seen))'' @ crlf, R_Fetch 4 [AV_Flags [backslash # ''Deleted'', backslash # ''Flagged'', backslash # ''Seen'']]), done_line ''STORE completed'']"])
    (auto simp: test_simps reading_simps stream_collect.simps fetches_item_def Fetch_new_def)

lemma validated_readers:
  "select mock_transport fifo_ops ''INBOX'' = (\<lambda>s. bind_out (session_run_command mock_transport (''SELECT '' @ quote ''INBOX'') s)
     (\<lambda>tag s. parse_answers (parse_mailbox fifo_ops tag) s))"
  "examine mock_transport fifo_ops ''INBOX'' = (\<lambda>s. bind_out (session_run_command mock_transport (''EXAMINE '' @ quote ''INBOX'') s)
     (\<lambda>tag s. parse_answers (parse_mailbox fifo_ops tag) s))"
  "m = ''INBOX'' \<or> m = ''blurdybloop'' \<Longrightarrow> status mock_transport fifo_ops m items =
     (\<lambda>s. bind_out (session_run_command mock_transport (''STATUS '' @ quote m @ '' '' @ items) s)
       (\<lambda>tag s. parse_answers (parse_status fifo_ops m tag) s))"
  by (auto simp: fun_eq_iff select_def examine_def status_def validate_str_Ok)

lemma examine_passes: "examine_unit P"
  unfolding examine_unit_def validated_readers
  by (rule parser_test [OF contract speaks, where said = "[(''* FLAGS ('' @ backslash # ''Answered '' @ backslash # ''Flagged '' @ backslash # ''Deleted '' @ backslash # ''Seen '' @ backslash # ''Draft)'' @ crlf, R_MailboxData (MD_Flags [backslash # ''Answered'', backslash # ''Flagged'', backslash # ''Deleted'', backslash # ''Seen'', backslash # ''Draft''])), (''* OK [PERMANENTFLAGS ()] Read-only mailbox.'' @ crlf, R_Data Status_Ok (Some (RC_PermanentFlags [])) (Some ''Read-only mailbox.'')), (''* 1 EXISTS'' @ crlf, R_MailboxData (MD_Exists 1)), (''* 1 RECENT'' @ crlf, R_MailboxData (MD_Recent 1)), (''* OK [UNSEEN 1] First unseen.'' @ crlf, R_Data Status_Ok (Some (RC_Unseen 1)) (Some ''First unseen.'')), (''* OK [UIDVALIDITY 1257842737] UIDs valid'' @ crlf, R_Data Status_Ok (Some (RC_UidValidity 1257842737)) (Some ''UIDs valid'')), (''* OK [UIDNEXT 2] Predicted next UID'' @ crlf, R_Data Status_Ok (Some (RC_UidNext 2)) (Some ''Predicted next UID'')), (''A0001 OK [READ-ONLY] Select completed.'' @ crlf, R_Done ''A0001'' Status_Ok (Some (RC_Other 2)) (Some ''Select completed.''))]"])
    (auto simp: test_simps reading_simps select_transcript_def parse_mailbox_def Mailbox_default_def check_status_ok_def status_completion_def status_for_def flag_from_string_def flag_system_def)

lemma select_passes: "select_unit P"
  unfolding select_unit_def validated_readers
  by (rule parser_test [OF contract speaks, where said = "[(''* FLAGS ('' @ backslash # ''Answered '' @ backslash # ''Flagged '' @ backslash # ''Deleted '' @ backslash # ''Seen '' @ backslash # ''Draft)'' @ crlf, R_MailboxData (MD_Flags [backslash # ''Answered'', backslash # ''Flagged'', backslash # ''Deleted'', backslash # ''Seen'', backslash # ''Draft''])), (''* OK [PERMANENTFLAGS ('' @ backslash # ''* '' @ backslash # ''Answered '' @ backslash # ''Flagged '' @ backslash # ''Deleted '' @ backslash # ''Draft '' @ backslash # ''Seen)] Read-only mailbox.'' @ crlf, R_Data Status_Ok (Some (RC_PermanentFlags [backslash # ''*'', backslash # ''Answered'', backslash # ''Flagged'', backslash # ''Deleted'', backslash # ''Draft'', backslash # ''Seen''])) (Some ''Read-only mailbox.'')), (''* 1 EXISTS'' @ crlf, R_MailboxData (MD_Exists 1)), (''* 1 RECENT'' @ crlf, R_MailboxData (MD_Recent 1)), (''* OK [UNSEEN 1] First unseen.'' @ crlf, R_Data Status_Ok (Some (RC_Unseen 1)) (Some ''First unseen.'')), (''* OK [UIDVALIDITY 1257842737] UIDs valid'' @ crlf, R_Data Status_Ok (Some (RC_UidValidity 1257842737)) (Some ''UIDs valid'')), (''* OK [UIDNEXT 2] Predicted next UID'' @ crlf, R_Data Status_Ok (Some (RC_UidNext 2)) (Some ''Predicted next UID'')), (''* OK [HIGHESTMODSEQ 90060115205545359] Highest mailbox modsequence'' @ crlf, R_Data Status_Ok (Some (RC_HighestModSeq 90060115205545359)) (Some ''Highest mailbox modsequence'')), (''A0001 OK [READ-ONLY] Select completed.'' @ crlf, R_Done ''A0001'' Status_Ok (Some (RC_Other 2)) (Some ''Select completed.''))]"])
    (auto simp: test_simps reading_simps select_transcript_def parse_mailbox_def Mailbox_default_def check_status_ok_def status_completion_def status_for_def flag_from_string_def flag_system_def)

lemma status_passes: "status_unit P"
  unfolding status_unit_def
  apply (simp only: validated_readers simp_thms)
  apply (intro conjI)
    apply (rule parser_test [OF contract speaks, where said = "[(''* STATUS INBOX (UIDNEXT 25)'' @ crlf, R_MailboxData (MD_Status ''INBOX'' [SA_UidNext 25])), (''A0001 OK [CLIENTBUG] Status on selected mailbox completed (0.001 + 0.000 secs).'' @ crlf, R_Done ''A0001'' Status_Ok (fst bug) (snd bug))]"]; auto simp: test_simps reading_simps parse_status_def Mailbox_default_def check_status_ok_def status_completion_def status_for_def)
    apply (rule parser_test [OF contract speaks, where said = "[(''* STATUS INBOX (RECENT 15)'' @ crlf, R_MailboxData (MD_Status ''INBOX'' [SA_Recent 15])), done_line ''STATUS completed'']"]; auto simp: test_simps reading_simps parse_status_def Mailbox_default_def check_status_ok_def status_completion_def status_for_def)
    apply (rule parser_test [OF contract speaks, where said = "[(''* STATUS blurdybloop (MESSAGES 231 UIDNEXT 44292)'' @ crlf, R_MailboxData (MD_Status ''blurdybloop'' [SA_Messages 231, SA_UidNext 44292])), done_line ''STATUS completed'']"]; auto simp: test_simps reading_simps parse_status_def Mailbox_default_def check_status_ok_def status_completion_def status_for_def)
  done

lemma get_metadata_passes: "get_metadata_unit P"
  unfolding get_metadata_unit_def get_metadata_def Let_def
  apply (intro conjI)
    apply (rule parser_test [OF contract speaks, where said = "[(''* METADATA '' @ quote ''INBOX'' @ '' (/private/comment '' @ quote ''My own comment'' @ '')'' @ crlf, R_MailboxData (MD_MetadataSolicited ''INBOX'' [1])), done_line ''GETMETADATA complete'']"]; auto simp: test_simps metadata_transcript_def quoted reading_simps parse_metadata_def solicited_metadata_def)
    apply (rule parser_test [OF contract speaks, where said = "[(''* METADATA '' @ quote ''INBOX'' @ '' (/shared/comment '' @ quote ''Shared comment'' @ '' /private/comment '' @ quote ''My own comment'' @ '')'' @ crlf, R_MailboxData (MD_MetadataSolicited ''INBOX'' [2, 1])), done_line ''GETMETADATA complete'']"]; auto simp: test_simps metadata_transcript_def quoted reading_simps parse_metadata_def solicited_metadata_def)
    apply (rule parser_test [OF contract speaks, where said = "[(''* METADATA '' @ quote [] @ '' (/shared/comment {15}'' @ crlf @ ''Chatmail server /shared/admin {28}'' @ crlf @ ''mailto:root@nine.testrun.org)'' @ crlf, R_MailboxData (MD_MetadataSolicited [] [3, 4])), done_line ''OK Getmetadata completed (0.001 + 0.000 secs).'']"]; auto simp: test_simps metadata_transcript_def quoted reading_simps parse_metadata_def solicited_metadata_def)
    apply (rule parser_test [OF contract speaks, where said = "[(''* METADATA '' @ quote [] @ '' (/shared/comment '' @ quote ''Chatmail server'' @ '')'' @ crlf, R_MailboxData (MD_MetadataSolicited [] [3])), (''* METADATA '' @ quote [] @ '' (/shared/admin '' @ quote ''mailto:root@nine.testrun.org'' @ '')'' @ crlf, R_MailboxData (MD_MetadataSolicited [] [4])), done_line ''OK Getmetadata completed (0.001 + 0.000 secs).'']"]; auto simp: test_simps metadata_transcript_def quoted reading_simps parse_metadata_def solicited_metadata_def)
    apply (rule parser_test [OF contract speaks, where said = "[(''* METADATA '' @ quote [] @ '' (/shared/comment NIL /shared/admin NIL)'' @ crlf, R_MailboxData (MD_MetadataSolicited [] [5, 6])), done_line ''OK Getmetadata completed (0.001 + 0.000 secs).'']"]; auto simp: test_simps metadata_transcript_def quoted reading_simps parse_metadata_def solicited_metadata_def)
  done

lemma fetch_body_passes: "fetch_body_unit P"
proof -
  let ?said = "[(''a0 OK Logged in.'' @ crlf, R_Done ''a0'' Status_Ok None (Some ''Logged in.'')),
      (''* 2 FETCH (BODY[TEXT] {3}'' @ crlf @ ''foo)'' @ crlf, R_Fetch 2 [AV_BodySection (Some (SP_Full MS_Text)) (Some ''foo'')]),
      (''a0 OK FETCH completed'' @ crlf, R_Done ''a0'' Status_Ok None (Some ''FETCH completed''))] :: (string \<times> nat response) list"
  obtain ds later where "mock_answers P (MockStream_new (concat (map fst ?said))) = responses ds @ later" "map parsed ds = map snd ?said"
    by (rule mock_answers_said [OF contract speaks, of ?said "MockStream_new (concat (map fst ?said))"])
      (simp_all add: fresh_mock test_simps)
  then show ?thesis
    by (auto simp: fetch_body_unit_def mock_session_def mock_client_def Session_new_def Client_new_def Let_def
        session_read_response_def on_conn_def read_response_def map_eq_Cons_conv)
qed

lemma readline_delay_read_passes: "readline_delay_read_unit P"
proof -
  let ?said = "[(''* OK Dovecot ready.'' @ crlf, R_Data Status_Ok None (Some ''Dovecot ready.''))] :: (string \<times> nat response) list"
  let ?m = "with_delay (with_buf (''* OK Dovecot ready.'' @ crlf) MockStream_default)"
  obtain ds later where "mock_answers P ?m = responses ds @ later" "map parsed ds = map snd ?said"
    by (rule mock_answers_said [OF contract speaks, of ?said ?m])
      (simp_all add: test_simps mock_calm_def mock_unread_def with_delay_def with_buf_def MockStream_default_def)
  then show ?thesis
    by (auto simp: readline_delay_read_unit_def mock_client_def Client_new_def read_response_def map_eq_Cons_conv)
qed

lemma readline_eof_passes: "readline_eof_unit P"
proof -
  obtain later where "mock_answers P (with_eof MockStream_default) = None # later"
    using first_poll [of P "with_eof MockStream_default" "Read []" None] silent
    by (auto simp: mock_poll_read_def with_eof_def)
  then show ?thesis
    by (simp add: readline_eof_unit_def mock_client_def Client_new_def read_response_def)
qed

lemma readline_err_passes: "readline_err_unit P"
proof -
  obtain later e where "mock_answers P (with_err MockStream_default) = Some (Inl e) # later"
    using first_poll [of P "with_err MockStream_default" "Read_Error (Io_Error Kind_Other (Text ''MockStream Error''))"] silent
    by (auto simp: mock_poll_read_def with_err_def MockStream_default_def)
  then show ?thesis
    by (simp add: readline_err_unit_def mock_client_def Client_new_def read_response_def)
qed

lemma fetch_unexpected_eof_passes: "fetch_unexpected_eof_unit P"
proof -
  let ?m = "MockStream_new []" and ?line = "''UID FETCH '' @ ''1:*'' @ '' '' @ ''(FLAGS BODY.PEEK[])''"
  obtain later where later: "mock_answers P ?m = Some (Inl (Io_Error Kind_UnexpectedEof (Text ''EOF''))) # later"
    using first_poll [of P ?m "Read_Error (Io_Error Kind_UnexpectedEof (Text ''EOF''))"] silent
    by (auto simp: mock_poll_read_def MockStream_new_def with_buf_def MockStream_default_def)
  have s: "mock_session P ?m = replies (mock_answers P ?m) ?m"
    by (simp add: mock_session_def mock_client_def replies_def)
  obtain cn where cn: "run_command mock_transport ?line (conn (mock_session P ?m)) = (Ok ''A0001'', cn)"
    "incoming cn = mock_answers P ?m" "written_buf (inner (stream cn)) = ''A0001 '' @ ?line @ crlf"
    unfolding s using replies_command [of ?line "mock_answers P ?m" ?m] fresh_mock(3) by auto
  show ?thesis
    unfolding fetch_unexpected_eof_unit_def uid_fetch_def session_run_command_Ok [OF cn(1)]
    using cn(2,3) later
    by (simp add: parse_fetches_def poll_stream_def parse_answers_def on_incoming_def fetches_item_def wrote_def)
qed

lemma login_passes: "login_unit P"
proof -
  let ?m = "MockStream_new (''A0001 OK Logged in'' @ crlf)" and ?line = "''LOGIN '' @ quote ''username'' @ '' '' @ quote ''password''"
  obtain ds later where ds: "mock_answers P ?m = responses ds @ later" "map parsed ds = map snd [done_line ''Logged in'']"
    by (rule mock_answers_said [OF contract speaks, of "[done_line ''Logged in'']" ?m]) (simp_all add: fresh_mock test_simps)
  obtain cn where cn: "run_command mock_transport ?line (mock_client P ?m) = (Ok ''A0001'', cn)"
    "incoming cn = mock_answers P ?m" "written_buf (inner (stream cn)) = ''A0001 '' @ ?line @ crlf"
    using replies_command [of ?line "mock_answers P ?m" ?m] fresh_mock(3) by (auto simp: replies_def Session_new_def mock_client_def)
  have "check_done_ok None ''A0001'' (incoming cn) () = (Ok (), later, ())"
    using ds cn(2) by (auto simp: done_line_def map_eq_Cons_conv check_done_ok_Cons check_done_body_def check_status_ok_def)
  with cn(3) show ?thesis
    by (simp add: login_unit_def login_def validate_str_Ok run_command_and_check_ok_def cn(1) [simplified] on_incoming_def Session_new_def wrote_def)
qed

lemma authenticate_passes:
  assumes "b64_decode B ''YmFy'' = Inr ''bar''" and "b64_encode B ''foo'' = ''Zm9v''"
  shows "authenticate_unit P B"
proof -
  let ?said = "[(''+ YmFy'' @ crlf, R_Continue None (Some ''YmFy'')), done_line ''Logged in'']"
  let ?m = "MockStream_new (''+ YmFy'' @ crlf @ ''A0001 OK Logged in'' @ crlf)" and ?line = "''AUTHENTICATE '' @ ''PLAIN''"
  obtain ds later where ds: "mock_answers P ?m = responses ds @ later" "map parsed ds = map snd ?said"
    by (rule mock_answers_said [OF contract speaks, of ?said ?m]) (simp_all add: fresh_mock test_simps)
  then obtain d1 d2 where d: "mock_answers P ?m = Some (Inr d1) # Some (Inr d2) # later" "parsed d1 = R_Continue None (Some ''YmFy'')"
    "parsed d2 = R_Done ''A0001'' Status_Ok None (Some ''Logged in'')"
    by (auto simp: map_eq_Cons_conv done_line_def)
  obtain cn where cn: "run_command mock_transport ?line (mock_client P ?m) = (Ok ''A0001'', cn)"
    "incoming cn = mock_answers P ?m" "written_buf (inner (stream cn)) = ''A0001 '' @ ?line @ crlf"
    using replies_command [of ?line "mock_answers P ?m" ?m] fresh_mock(3) by (auto simp: replies_def Session_new_def mock_client_def)
  show ?thesis
    unfolding authenticate_unit_def authenticate_def cn(1)
    using d assms cn(2,3)
    by (simp add: challenge_of_def authenticate_process_def
        run_command_untagged_def check_done_ok_from.simps check_done_body_def check_status_ok_def
        Session_new_def wrote_def request_bytes_def crlf_def)
qed

end

lemma strings_pass: "quote_backslash_unit \<and> quote_dquote_unit \<and> validate_random_unit \<and> validate_newline_unit \<and> validate_carriage_return_unit"
  by code_simp

section \<open>A parser that knows the lines\<close>

lemma test_lines_prefix_free: "prefix_free (map fst (test_lines said))"
  by code_simp

interpretation table: test_server "table_parser (test_lines said)" said for said
proof
  show "parser_contract (table_parser (test_lines said))" by (rule table_parser_contract [OF test_lines_prefix_free])
  show "speaks (table_parser (test_lines said)) (test_lines said)" by (rule table_parser_speaks [OF test_lines_prefix_free])
  show "table_parser (test_lines said) [] = Incomplete_Unknown" by (rule table_parser_silent [OF test_lines_prefix_free])
qed

text \<open>
  The unit tests of \<open>client.rs\<close> pass on the model, from the bytes of their servers to the bytes
  they expect on the wire and the values they expect back, for every parser that keeps the
  contract of a streaming parser and reads the lines of the test servers as they are meant.
\<close>

theorem client_tests_pass:
  assumes "parser_contract P" and "speaks P (test_lines bug)" and "P [] = Incomplete_Unknown"
    and "b64_decode B ''YmFy'' = Inr ''bar''" and "b64_encode B ''foo'' = ''Zm9v''"
  shows "fetch_body_unit P \<and> readline_delay_read_unit P \<and> readline_eof_unit P \<and> readline_err_unit P \<and> login_unit P \<and> logout_unit P
   \<and> rename_unit P \<and> subscribe_unit P \<and> unsubscribe_unit P \<and> expunge_unit P \<and> uid_expunge_unit P \<and> check_unit P
   \<and> examine_unit P \<and> select_unit P \<and> search_unit P \<and> uid_search_unit P \<and> uid_search_unordered_unit P \<and> capability_unit P
   \<and> create_unit P \<and> delete_unit P \<and> noop_unit P \<and> close_unit P \<and> store_unit P \<and> uid_store_unit P \<and> copy_unit P
   \<and> uid_copy_unit P \<and> mv_unit P \<and> uid_mv_unit P \<and> fetch_unit P \<and> uid_fetch_unit P \<and> fetch_unexpected_eof_unit P
   \<and> status_unit P \<and> get_metadata_unit P
   \<and> authenticate_unit P B
   \<and> quote_backslash_unit \<and> quote_dquote_unit \<and> validate_random_unit \<and> validate_newline_unit \<and> validate_carriage_return_unit"
proof -
  have "test_server P bug" by (rule test_server.intro [OF assms(1-3)])
  then show ?thesis
    by (intro conjI test_server.authenticate_passes [OF _ assms(4,5)] strings_pass [THEN conjunct1]
      test_server.fetch_body_passes test_server.readline_delay_read_passes test_server.readline_eof_passes test_server.readline_err_passes test_server.login_passes test_server.logout_passes test_server.rename_passes test_server.subscribe_passes test_server.unsubscribe_passes test_server.expunge_passes test_server.uid_expunge_passes test_server.check_passes test_server.examine_passes test_server.select_passes test_server.search_passes test_server.uid_search_passes test_server.uid_search_unordered_passes test_server.capability_passes test_server.create_passes test_server.delete_passes test_server.noop_passes test_server.close_passes test_server.store_passes test_server.uid_store_passes test_server.copy_passes test_server.uid_copy_passes test_server.mv_passes test_server.uid_mv_passes test_server.fetch_passes test_server.uid_fetch_passes test_server.fetch_unexpected_eof_passes test_server.status_passes test_server.get_metadata_passes)
      (simp_all add: strings_pass)
qed

text \<open>A parser that does not know the code \<open>[CLIENTBUG]\<close> and leaves it in the text.\<close>

theorem client_tests_pass_witness:
  "select_unit (table_parser (test_lines (None, Some ''[CLIENTBUG] Status on selected mailbox completed (0.001 + 0.000 secs).''))) \<and> get_metadata_unit (table_parser (test_lines (None, Some ''[CLIENTBUG] Status on selected mailbox completed (0.001 + 0.000 secs).'')))
   \<and> authenticate_unit (table_parser (test_lines (None, Some ''[CLIENTBUG] Status on selected mailbox completed (0.001 + 0.000 secs).''))) \<lparr>b64_decode = \<lambda>_. Inr ''bar'', b64_encode = \<lambda>_. ''Zm9v''\<rparr>"
  using client_tests_pass [OF table.contract table.speaks table.silent, of "\<lparr>b64_decode = \<lambda>_. Inr ''bar'', b64_encode = \<lambda>_. ''Zm9v''\<rparr>"]
  by simp

end
