(* ===== verification/Stream_Tests.thy ===== *)
theory Stream_Tests
  imports Buffer
begin

text \<open>
  The unit tests of \<open>src/imap_stream.rs\<close>, which are about \<open>Buffer\<close>.  A test is a list of steps on
  one buffer, run in order until one panics; it passes when none does.  The test of \<open>Debug\<close> is left
  out with the implementation it is about.
\<close>

section \<open>Steps\<close>

type_synonym buffer_result = "(unit, nat io_error) outcome \<times> buffer"
type_synonym buffer_step = "buffer \<Rightarrow> buffer_result"

fun run_steps :: "buffer_step list \<Rightarrow> buffer_step" where
  "run_steps [] b = (Ok (), b)"
| "run_steps (f # fs) b = bind_out (f b) (\<lambda>_ b. run_steps fs b)"

lemma run_steps_append: "run_steps (fs @ gs) = (\<lambda>b. bind_out (run_steps fs b) (\<lambda>_. run_steps gs))"
  by (induction fs) (rule ext, simp add: bind_out_assoc)+

text \<open>\<open>assert!\<close> and its relatives on the buffer, and on the slice of free bytes.\<close>

definition check_buffer :: "(buffer \<Rightarrow> bool) \<Rightarrow> buffer_step" where
  "check_buffer ok b = (if ok b then Ok () else Panic ''assertion failed'', b)"

definition check_free :: "(string \<Rightarrow> bool) \<Rightarrow> buffer_step" where
  "check_free ok b = bind_out (free_as_mut_slice b, b) (\<lambda>slice. check_buffer (\<lambda>_. ok slice))"

text \<open>\<open>unwrap()\<close> of the result of a step.\<close>

fun unwrapped :: "buffer_result \<Rightarrow> buffer_result" where
  "unwrapped (Err e, b) = (Panic ''called Result::unwrap() on an Err value'', b)"
| "unwrapped r = r"

section \<open>The tests\<close>

definition test_buffer_empty :: buffer_result where
  "test_buffer_empty =
     run_steps [check_buffer (\<lambda>b. used b = 0), check_free (\<lambda>slice. length slice = BLOCK_SIZE),
       \<lambda>b. check_free (\<lambda>slice. length slice = length (block b)) b] Buffer_new"

definition test_buffer_extend_use :: buffer_result where
  "test_buffer_extend_use =
     run_steps [extend_used 3, check_buffer (\<lambda>b. used b = 3), check_free (\<lambda>slice. length slice = BLOCK_SIZE - 3),
       extend_used BLOCK_SIZE, check_buffer (\<lambda>b. used b = BLOCK_SIZE), check_buffer (\<lambda>b. offset b = BLOCK_SIZE),
       check_buffer (\<lambda>b. length (block b) = offset b), check_free (\<lambda>slice. length slice = 0)] Buffer_new"

text \<open>\<open>write_all\<close> on a slice fails when the slice is too short.\<close>

definition write_all_free :: "string \<Rightarrow> buffer_step" where
  "write_all_free bytes b =
     bind_out (free_as_mut_slice b, b) (\<lambda>slice b.
       if length bytes \<le> length slice then (Ok (), write_free bytes b)
       else (Err (Io_Error Kind_WriteZero (Text ''failed to write whole buffer'')), b))"

definition test_buffer_write_read :: buffer_result where
  "test_buffer_write_read =
     run_steps [\<lambda>b. unwrapped (write_all_free ''hello'' b), extend_used (length ''hello''),
       check_buffer (\<lambda>b. take (used b) (block b) = ''hello''),
       \<lambda>b. check_free (\<lambda>slice. length slice = length (block b) - offset b) b] Buffer_new"

definition test_buffer_grow :: buffer_result where
  "test_buffer_grow =
     run_steps [check_buffer (\<lambda>b. length (block b) = BLOCK_SIZE),
       \<lambda>b. unwrapped (grow 1 b), check_buffer (\<lambda>b. length (block b) = 2 * BLOCK_SIZE),
       \<lambda>b. unwrapped (grow (BLOCK_SIZE + 1) b), check_buffer (\<lambda>b. length (block b) = 4 * BLOCK_SIZE),
       \<lambda>b. (case grow MAX_CAPACITY b of (ret, b) \<Rightarrow>
              check_buffer (\<lambda>_. case (ret :: (unit, nat io_error) outcome) of Err e \<Rightarrow> True | _ \<Rightarrow> False) b)] Buffer_new"

definition test_buffer_ensure_capacity :: buffer_result where
  "test_buffer_ensure_capacity =
     run_steps [extend_used (BLOCK_SIZE - 1),
       check_free (\<lambda>slice. length slice = 1), check_buffer (\<lambda>b. length (block b) = BLOCK_SIZE),
       \<lambda>b. unwrapped (ensure_capacity 0 b),
       check_free (\<lambda>slice. length slice = 1), check_buffer (\<lambda>b. length (block b) = BLOCK_SIZE),
       extend_used 1,
       check_free (\<lambda>slice. length slice = 0), check_buffer (\<lambda>b. length (block b) = BLOCK_SIZE),
       \<lambda>b. unwrapped (ensure_capacity 0 b),
       check_free (\<lambda>slice. length slice = BLOCK_SIZE), check_buffer (\<lambda>b. length (block b) = 2 * BLOCK_SIZE),
       extend_used 5,
       check_buffer (\<lambda>b. offset b = BLOCK_SIZE + 5),
       \<lambda>b. unwrapped (ensure_capacity (3 * BLOCK_SIZE - 6) b),
       check_free (\<lambda>slice. length slice = 2 * BLOCK_SIZE - 5), check_buffer (\<lambda>b. length (block b) = 3 * BLOCK_SIZE)] Buffer_new"

text \<open>One round of \<open>test_ensure_capacity_loop\<close> and the loop.\<close>

definition capacity_round :: "nat \<Rightarrow> buffer_step" where
  "capacity_round i b =
     run_steps [\<lambda>b. unwrapped (ensure_capacity i b),
       \<lambda>b. bind_out (free_as_mut_slice b, b) (\<lambda>free b.
             run_steps [check_buffer (\<lambda>_. length free \<ge> i), extend_used (length free)] b)] b"

definition test_ensure_capacity_loop :: buffer_result where
  "test_ensure_capacity_loop = run_steps (map capacity_round [1..<500]) Buffer_new"

definition test_buffer_take_and_return_block :: buffer_result where
  "test_buffer_take_and_return_block =
     bind_out (unwrapped (grow 1 Buffer_new)) (\<lambda>_ b.
       let block_size = length (block b) in
       (case take_block b of (blk, b) \<Rightarrow>
          run_steps [check_buffer (\<lambda>_. length blk = block_size), check_buffer (\<lambda>b. length (block b) \<noteq> block_size),
            \<lambda>b. (Ok (), return_block blk b), check_buffer (\<lambda>b. length (block b) = block_size)] b))"

definition test_buffer_reset_with_data :: buffer_result where
  "test_buffer_reset_with_data =
     (let data = replicate (2 * BLOCK_SIZE) (CHR ''a''); block_size = length (block Buffer_new) in
      bind_out (run_steps [check_buffer (\<lambda>_. block_size = BLOCK_SIZE),
         \<lambda>b. (Ok (), reset_with_data data b), check_buffer (\<lambda>b. length (block b) \<noteq> block_size),
         check_buffer (\<lambda>b. length (block b) = 3 * BLOCK_SIZE), check_free (\<lambda>slice. slice \<noteq> [])] Buffer_new) (\<lambda>_ _.
       run_steps [\<lambda>b. (Ok (), reset_with_data [] b), check_buffer (\<lambda>b. length (block b) = BLOCK_SIZE)] Buffer_new))"

section \<open>They pass\<close>

definition succeeds :: "buffer_result \<Rightarrow> bool" where
  "succeeds test \<longleftrightarrow> fst test = Ok ()"

lemma check_buffer_Ok [simp]: "ok b \<Longrightarrow> check_buffer ok b = (Ok (), b)"
  by (simp add: check_buffer_def)

lemma check_free_Ok [simp]: "offset b \<le> length (block b) \<Longrightarrow> ok (drop (offset b) (block b)) \<Longrightarrow> check_free ok b = (Ok (), b)"
  by (simp add: check_free_def free_as_mut_slice_def)

lemma Buffer_new_simps [simp]: "block Buffer_new = zeroed BLOCK_SIZE" "offset Buffer_new = 0"
  by (simp_all add: Buffer_new_def)

lemma extend_used_Ok:
  "offset b + n < usize_limit \<Longrightarrow>
     extend_used n b = ((Ok (), b\<lparr>offset := min (offset b + n) (length (block b))\<rparr>) :: buffer_result)"
  by (simp add: extend_used_def min_def)

lemma unwrapped_ensure_capacity:
  assumes "offset b \<le> length (block b)" and "length (block b) \<le> n * BLOCK_SIZE" and "n < 100000" and "required \<le> n * BLOCK_SIZE"
  shows "unwrapped (ensure_capacity required b) =
     (Ok (), if offset b < length (block b) \<and> required \<le> length (block b) then b
       else b\<lparr>block := resize (round_up (length (block b) + max BLOCK_SIZE (required - length (block b)))) (block b)\<rparr>)"
proof -
  let ?n = "max BLOCK_SIZE (required - length (block b))"
  have "length (block b) + ?n + BLOCK_SIZE \<le> usize_limit" and "length (block b) + ?n \<le> MAX_CAPACITY"
    using assms by (simp_all add: BLOCK_SIZE_def usize_limit_def MAX_CAPACITY_def max_def)
  then have "grow ?n b = ((Ok (), b\<lparr>block := resize (round_up (length (block b) + ?n)) (block b)\<rparr>)
      :: buffer_result)"
    using grow_eq [of b ?n] by simp
  moreover have "offset b < round_up (length (block b) + ?n)"
    using round_up_ge [of "length (block b) + ?n"] assms(1) BLOCK_SIZE_pos by linarith
  ultimately show ?thesis
    using assms(1) by (auto simp: ensure_capacity_def Let_def)
qed

text \<open>Blocks a whole number of which are full.\<close>

definition full_blocks :: "nat \<Rightarrow> buffer \<Rightarrow> bool" where
  "full_blocks k b \<longleftrightarrow> length (block b) = k * BLOCK_SIZE \<and> offset b = k * BLOCK_SIZE"

lemma round_up_blocks [simp]: "round_up (k * BLOCK_SIZE) = k * BLOCK_SIZE"
  by (simp add: round_up_case)

lemma capacity_round_first: "\<exists>b. capacity_round 1 Buffer_new = (Ok (), b) \<and> full_blocks 1 b"
  using unwrapped_ensure_capacity [of Buffer_new 1 1]
  by (simp add: capacity_round_def extend_used_Ok full_blocks_def free_as_mut_slice_def BLOCK_SIZE_def usize_limit_def)

lemma capacity_round_full:
  assumes "full_blocks k b" and "i \<le> BLOCK_SIZE" and "0 < k" and "k < 1000"
  shows "\<exists>b'. capacity_round i b = (Ok (), b') \<and> full_blocks (Suc k) b'"
proof -
  have b: "length (block b) = k * BLOCK_SIZE" "offset b = k * BLOCK_SIZE"
    using assms(1) by (simp_all add: full_blocks_def)
  have "BLOCK_SIZE \<le> k * BLOCK_SIZE" using assms(3) by simp
  with assms(2) have i: "i \<le> k * BLOCK_SIZE" by linarith
  have up: "round_up (k * BLOCK_SIZE + BLOCK_SIZE) = Suc k * BLOCK_SIZE"
    using round_up_blocks [of "Suc k"] by (simp add: add.commute)
  have step: "unwrapped (ensure_capacity i b) = (Ok (), b\<lparr>block := resize (Suc k * BLOCK_SIZE) (block b)\<rparr>)"
    using unwrapped_ensure_capacity [of b k i] b i assms(4) up by simp
  have "k * BLOCK_SIZE + BLOCK_SIZE < usize_limit"
    using assms(4) by (simp add: BLOCK_SIZE_def usize_limit_def)
  with assms(2) show ?thesis
    by (simp add: capacity_round_def step free_as_mut_slice_def b extend_used_Ok full_blocks_def add.commute)
qed

lemma capacity_rounds:
  "n < 1000 \<Longrightarrow> \<exists>b. run_steps (map capacity_round [1..<Suc (Suc n)]) Buffer_new = (Ok (), b) \<and> full_blocks (Suc n) b"
proof (induction n)
  case 0
  then show ?case using capacity_round_first by (auto simp: upt_rec)
next
  case (Suc n)
  then obtain b where b: "run_steps (map capacity_round [1..<Suc (Suc n)]) Buffer_new = (Ok (), b)" "full_blocks (Suc n) b"
    by auto
  have "Suc (Suc n) \<le> BLOCK_SIZE" using Suc.prems by (simp add: BLOCK_SIZE_def)
  from capacity_round_full [OF b(2) this] Suc.prems
  obtain b' where "capacity_round (Suc (Suc n)) b = (Ok (), b')" "full_blocks (Suc (Suc n)) b'" by auto
  moreover have "[1..<Suc (Suc (Suc n))] = [1..<Suc (Suc n)] @ [Suc (Suc n)]" by simp
  ultimately show ?case using b(1) by (simp only: map_append run_steps_append) simp
qed

lemma test_ensure_capacity_loop_passes: "succeeds test_ensure_capacity_loop"
  using capacity_rounds [of 498] by (auto simp: succeeds_def test_ensure_capacity_loop_def simp del: upt_Suc upt_rec_numeral)

lemma test_buffer_empty_passes: "succeeds test_buffer_empty"
  by (simp add: succeeds_def test_buffer_empty_def used_def)

lemma test_buffer_extend_use_passes: "succeeds test_buffer_extend_use"
  by (simp add: succeeds_def test_buffer_extend_use_def used_def extend_used_Ok BLOCK_SIZE_def usize_limit_def)

lemma test_buffer_write_read_passes: "succeeds test_buffer_write_read"
  by (simp add: succeeds_def test_buffer_write_read_def used_def extend_used_Ok BLOCK_SIZE_def usize_limit_def write_all_free_def
      free_as_mut_slice_def write_free_def)

lemma test_buffer_grow_passes: "succeeds test_buffer_grow"
  by (simp add: succeeds_def test_buffer_grow_def grow_eq BLOCK_SIZE_def usize_limit_def MAX_CAPACITY_def round_up_def)

lemma test_buffer_ensure_capacity_passes: "succeeds test_buffer_ensure_capacity"
  by (simp add: succeeds_def test_buffer_ensure_capacity_def extend_used_Ok BLOCK_SIZE_def usize_limit_def round_up_def
      unwrapped_ensure_capacity [where n = 10])

lemma test_buffer_take_and_return_block_passes: "succeeds test_buffer_take_and_return_block"
  by (simp add: succeeds_def test_buffer_take_and_return_block_def grow_eq BLOCK_SIZE_def usize_limit_def MAX_CAPACITY_def round_up_def
      take_block_def return_block_def Let_def)

lemma test_buffer_reset_with_data_passes: "succeeds test_buffer_reset_with_data"
  by (simp add: succeeds_def test_buffer_reset_with_data_def BLOCK_SIZE_def reset_with_data_def Let_def)

lemmas buffer_tests_pass = test_buffer_empty_passes test_buffer_extend_use_passes test_buffer_write_read_passes
  test_buffer_grow_passes test_buffer_ensure_capacity_passes test_ensure_capacity_loop_passes
  test_buffer_take_and_return_block_passes test_buffer_reset_with_data_passes

end
