(* ===== verification/Parse_Tests.thy ===== *)
theory Parse_Tests
  imports Stream_Tests Scripted_Parser Session_Triples
begin

text \<open>
  The unit tests of \<open>src/parse.rs\<close> and \<open>src/extensions/id.rs\<close> on the model.  A test parses its lines with \<open>imap_proto\<close>, runs a
  parser of the crate on the stream of the responses, and looks at the result and at the channel.
\<close>

section \<open>The lines of the tests\<close>

definition has_no_children :: string where
  "has_no_children = bslash # ''HasNoChildren''"

definition seen_flag :: string where
  "seen_flag = bslash # ''Seen''"

definition searched_1 :: "u32 list" where
  "searched_1 =
    [1600, 1698, 1739, 1781, 1795, 1885, 1891, 1892, 1893, 1898, 1899, 1901, 1911, 1926, 1932, 1933, 1993, 1994, 2007,
     2032, 2033, 2041, 2053, 2062, 2063, 2065, 2066, 2072, 2078, 2079, 2082, 2084, 2095, 2100, 2101, 2102, 2103,
     2104, 2107, 2116, 2120, 2135, 2138, 2154, 2163, 2168, 2172, 2189, 2193, 2198, 2199, 2205, 2212, 2213, 2221,
     2227, 2267, 2275, 2276, 2295, 2300, 2328, 2330, 2332, 2333, 2334]"

definition searched_2 :: "u32 list" where
  "searched_2 =
    [2335, 2336, 2337, 2338, 2339, 2341, 2342, 2347, 2349, 2350, 2358, 2359, 2362, 2369, 2371, 2372, 2373, 2374, 2375,
     2376, 2377, 2378, 2379, 2380, 2381, 2382, 2383, 2384, 2385, 2386, 2390, 2392, 2397, 2400, 2401, 2403, 2405,
     2409, 2411, 2414, 2417, 2419, 2420, 2424, 2426, 2428, 2439, 2454, 2456, 2467, 2468, 2469, 2490, 2515, 2519,
     2520, 2521]"

definition search_line_1 :: string where
  "search_line_1 = ''* SEARCH ''
     @ ''1600 1698 1739 1781 1795 1885 1891 1892 1893 1898 1899 1901 1911 1926 1932 1933 1993 1994 2007 2032 2033 2041''
     @ '' 2053 2062 2063 2065 2066 2072 2078 2079 2082 2084 2095 2100 2101 2102 2103 2104 2107 2116 2120 2135 2138 2154''
     @ '' 2163 2168 2172 2189 2193 2198 2199 2205 2212 2213 2221 2227 2267 2275 2276 2295 2300 2328 2330 2332 2333 2334'' @ crlf"

definition search_line_2 :: string where
  "search_line_2 = ''* SEARCH ''
     @ ''2335 2336 2337 2338 2339 2341 2342 2347 2349 2350 2358 2359 2362 2369 2371 2372 2373 2374 2375 2376 2377 2378''
     @ '' 2379 2380 2381 2382 2383 2384 2385 2386 2390 2392 2397 2400 2401 2403 2405 2409 2411 2414 2417 2419 2420 2424''
     @ '' 2426 2428 2439 2454 2456 2467 2468 2469 2490 2515 2519 2520 2521'' @ crlf"

definition capability_line :: string where
  "capability_line = ''* CAPABILITY IMAP4rev1 STARTTLS AUTH=GSSAPI LOGINDISABLED'' @ crlf"

definition list_line :: string where
  "list_line = ''* LIST ('' @ has_no_children @ '') '' @ quote ''.'' @ '' '' @ quote ''INBOX'' @ crlf"

definition capability_rev1_line :: string where
  "capability_rev1_line = ''* CAPABILITY IMAP4REV1 STARTTLS'' @ crlf"

definition fetch_24_line :: string where
  "fetch_24_line = ''* 24 FETCH (FLAGS ('' @ seen_flag @ '') UID 4827943)'' @ crlf"

definition fetch_25_line :: string where
  "fetch_25_line = ''* 25 FETCH (FLAGS ('' @ seen_flag @ ''))'' @ crlf"

definition fetch_37_line :: string where
  "fetch_37_line = ''* 37 FETCH (UID 74)'' @ crlf"

definition recent_line :: string where
  "recent_line = ''* 1 RECENT'' @ crlf"

definition expunge_line :: string where
  "expunge_line = ''* 4 EXPUNGE'' @ crlf"

definition exists_line :: string where
  "exists_line = ''* 4 EXISTS'' @ crlf"

definition search_line :: string where
  "search_line = ''* SEARCH 23 42 4711'' @ crlf"

definition search_nothing_line :: string where
  "search_nothing_line = ''* SEARCH'' @ crlf"

definition junk_line :: string where
  "junk_line = ''* JUNK IMAP4rev1 STARTTLS AUTH=GSSAPI LOGINDISABLED'' @ crlf"

definition status_github_line :: string where
  "status_github_line = ''* STATUS dev.github (MESSAGES 10 UIDNEXT 11 UIDVALIDITY 1408806928 UNSEEN 0)'' @ crlf"

definition status_inbox_line :: string where
  "status_inbox_line = ''* STATUS INBOX (MESSAGES 10 UIDNEXT 11 UIDVALIDITY 1408806928 UNSEEN 0)'' @ crlf"

definition no_such_mailbox_line :: string where
  "no_such_mailbox_line = ''A0003 NO Mailbox doesn'' @ [CHR 0x27] @ ''t exist: DeltaChat (0.001 + 0.140 + 0.139 secs).'' @ crlf"

definition counted :: "nat status_attribute list" where
  "counted = [SA_Messages 10, SA_UidNext 11, SA_UidValidity 1408806928, SA_Unseen 0]"

text \<open>
  What the lines stand for.  The number 0 is the name attribute \<open>Extension\<close> of \<open>has_no_children\<close>.
\<close>

definition parser_lines :: "(string \<times> nat response) list" where
  "parser_lines =
     [(capability_line, R_Capabilities [Ref_Imap4rev1, Ref_Atom ''STARTTLS'', Ref_Auth ''GSSAPI'', Ref_Atom ''LOGINDISABLED'']),
      (capability_rev1_line, R_Capabilities [Ref_Imap4rev1, Ref_Atom ''STARTTLS'']),
      (list_line, R_MailboxData (MD_List [0] (Some ''.'') ''INBOX'')),
      (fetch_24_line, R_Fetch 24 [AV_Flags [seen_flag], AV_Uid 4827943]),
      (fetch_25_line, R_Fetch 25 [AV_Flags [seen_flag]]),
      (fetch_37_line, R_Fetch 37 [AV_Uid 74]),
      (recent_line, R_MailboxData (MD_Recent 1)),
      (expunge_line, R_Expunge 4),
      (status_github_line, R_MailboxData (MD_Status ''dev.github'' counted)),
      (exists_line, R_MailboxData (MD_Exists 4)),
      (search_line, R_MailboxData (MD_Search [23, 42, 4711])),
      (status_inbox_line, R_MailboxData (MD_Status ''INBOX'' counted)),
      (search_line_1, R_MailboxData (MD_Search searched_1)),
      (search_line_2, R_MailboxData (MD_Search searched_2)),
      (search_nothing_line, R_MailboxData (MD_Search [])),
      (no_such_mailbox_line,
        R_Done ''A0003'' Status_No None (Some (''Mailbox doesn'' @ [CHR 0x27] @ ''t exist: DeltaChat (0.001 + 0.140 + 0.139 secs).'')))]"

section \<open>Running a test\<close>

text \<open>\<open>input_stream\<close> with \<open>stream::from_iter\<close>: the lines are parsed at once, and after them the stream ends.\<close>

definition try_new :: "(string \<Rightarrow> nat parse_result) \<Rightarrow> string \<Rightarrow> (nat item, nat error) outcome" where
  "try_new P line =
     (case P line of
        Parsed remaining r \<Rightarrow>
          if length remaining = 0 then Ok (Inr \<lparr>raw = line, parsed = r\<rparr>) else Panic ''assertion failed''
      | _ \<Rightarrow> Panic ''called Result::unwrap() on an Err value'')"

fun input_stream :: "(string \<Rightarrow> nat parse_result) \<Rightarrow> string list \<Rightarrow> (nat script, nat error) outcome" where
  "input_stream P [] = Ok [None]"
| "input_stream P (line # data) =
     obind (try_new P line) (\<lambda>item. obind (input_stream P data) (\<lambda>items. Ok (Some item # items)))"

type_synonym 'a test_run = "nat script \<Rightarrow> nat unsolicited_response fifo
    \<Rightarrow> ('a, nat error) outcome \<times> nat script \<times> nat unsolicited_response fifo"

definition parser_test :: "(string \<Rightarrow> nat parse_result) \<Rightarrow> string list \<Rightarrow> 'a test_run
    \<Rightarrow> (('a, nat error) outcome \<Rightarrow> nat unsolicited_response list \<Rightarrow> bool) \<Rightarrow> bool" where
  "parser_test P data run expected =
     (case input_stream P data of
        Ok items \<Rightarrow> (case run items (ch_bounded fifo_ops 10) of (r, _, recv) \<Rightarrow> expected r (fifo_queue recv))
      | _ \<Rightarrow> False)"

definition unwraps :: "('a \<Rightarrow> nat unsolicited_response list \<Rightarrow> bool) \<Rightarrow> ('a, nat error) outcome
    \<Rightarrow> nat unsolicited_response list \<Rightarrow> bool" where
  "unwraps expected r recv = (case r of Ok a \<Rightarrow> expected a recv | _ \<Rightarrow> False)"

definition try_collected :: "(nat, nat unsolicited_response fifo, nat error + 'n) response_stream \<Rightarrow> 'n list test_run" where
  "try_collected st sc c = (case st of (item, tag, ended) \<Rightarrow> stream_try_collect item tag ended sc c)"

text \<open>As many messages as are listed can be received, and they are these.\<close>

definition receives :: "nat unsolicited_response list \<Rightarrow> nat unsolicited_response list \<Rightarrow> bool" where
  "receives ms recv \<longleftrightarrow> take (length ms) recv = ms"

definition has_exactly :: "string list \<Rightarrow> capabilities \<Rightarrow> bool" where
  "has_exactly names caps \<longleftrightarrow>
     capabilities_len caps = length names \<and> list_all (\<lambda>e. has_str caps e = (Ok True :: (bool, nat error) outcome)) names"

definition is_inbox :: "nat name list \<Rightarrow> bool" where
  "is_inbox names \<longleftrightarrow>
     length names = 1 \<and> attributes (names ! 0) = [0] \<and> delimiter (names ! 0) = Some ''.'' \<and> name (names ! 0) = ''INBOX''"

section \<open>The tests\<close>

definition parse_capability_test :: "(string \<Rightarrow> nat parse_result) \<Rightarrow> bool" where
  "parse_capability_test P \<longleftrightarrow>
     parser_test P [capability_line] (parse_capabilities fifo_ops ''A0001'')
       (unwraps (\<lambda>caps recv. recv = [] \<and> has_exactly [''IMAP4rev1'', ''STARTTLS'', ''AUTH=GSSAPI'', ''LOGINDISABLED''] caps))"

definition parse_capability_case_insensitive_test :: "(string \<Rightarrow> nat parse_result) \<Rightarrow> bool" where
  "parse_capability_case_insensitive_test P \<longleftrightarrow>
     parser_test P [capability_rev1_line] (parse_capabilities fifo_ops ''A0001'')
       (unwraps (\<lambda>caps recv. recv = [] \<and> has_exactly [''IMAP4rev1'', ''STARTTLS''] caps))"

text \<open>This one is to panic, wherever that happens.\<close>

definition parse_capability_invalid_test :: "(string \<Rightarrow> nat parse_result) \<Rightarrow> bool" where
  "parse_capability_invalid_test P \<longleftrightarrow>
     is_panic (obind (input_stream P [junk_line]) (\<lambda>items.
       case parse_capabilities fifo_ops ''A0001'' items (ch_bounded fifo_ops 10) of
         (Ok caps, _, recv) \<Rightarrow> if fifo_queue recv = [] then Ok () else Panic ''assertion failed''
       | (Err e, _) \<Rightarrow> Panic ''called Result::unwrap() on an Err value''
       | (Panic m, _) \<Rightarrow> Panic m
       | (Pending, _) \<Rightarrow> Pending))"

definition parse_names_test :: "(string \<Rightarrow> nat parse_result) \<Rightarrow> bool" where
  "parse_names_test P \<longleftrightarrow>
     parser_test P [list_line] (try_collected (parse_names fifo_ops ''A0001''))
       (unwraps (\<lambda>names recv. recv = [] \<and> is_inbox names))"

definition parse_fetches_empty :: "(string \<Rightarrow> nat parse_result) \<Rightarrow> bool" where
  "parse_fetches_empty P \<longleftrightarrow>
     parser_test P [] (try_collected (parse_fetches fifo_ops ''a'')) (unwraps (\<lambda>fetches recv. recv = [] \<and> fetches = []))"

definition only_seen :: "u32 \<Rightarrow> u32 option \<Rightarrow> nat fetch \<Rightarrow> bool" where
  "only_seen n i f \<longleftrightarrow>
     message f = n \<and> fetch_flags f = (Ok [Seen] :: (flag list, nat error) outcome) \<and> uid f = i
   \<and> fetch_body f = (Ok None :: (string option, nat error) outcome)
   \<and> fetch_header f = (Ok None :: (string option, nat error) outcome)"

definition parse_fetches_test :: "(string \<Rightarrow> nat parse_result) \<Rightarrow> bool" where
  "parse_fetches_test P \<longleftrightarrow>
     parser_test P
       [fetch_24_line, fetch_25_line]
       (try_collected (parse_fetches fifo_ops ''a''))
       (unwraps (\<lambda>fetches recv. recv = [] \<and> length fetches = 2
          \<and> only_seen 24 (Some 4827943) (fetches ! 0) \<and> only_seen 25 None (fetches ! 1)))"

definition parse_fetches_w_unilateral :: "(string \<Rightarrow> nat parse_result) \<Rightarrow> bool" where
  "parse_fetches_w_unilateral P \<longleftrightarrow>
     parser_test P [fetch_37_line, recent_line] (try_collected (parse_fetches fifo_ops ''a''))
       (unwraps (\<lambda>fetches recv. receives [U_Recent 1] recv
          \<and> length fetches = 1 \<and> message (fetches ! 0) = 37 \<and> uid (fetches ! 0) = Some 74))"

definition parse_names_w_unilateral :: "(string \<Rightarrow> nat parse_result) \<Rightarrow> bool" where
  "parse_names_w_unilateral P \<longleftrightarrow>
     parser_test P [list_line, expunge_line] (try_collected (parse_names fifo_ops ''A0001''))
       (unwraps (\<lambda>names recv. receives [U_Expunge 4] recv \<and> is_inbox names))"

definition parse_capabilities_w_unilateral :: "(string \<Rightarrow> nat parse_result) \<Rightarrow> bool" where
  "parse_capabilities_w_unilateral P \<longleftrightarrow>
     parser_test P [capability_line, status_github_line, exists_line] (parse_capabilities fifo_ops ''A0001'')
       (unwraps (\<lambda>caps recv. has_exactly [''IMAP4rev1'', ''STARTTLS'', ''AUTH=GSSAPI'', ''LOGINDISABLED''] caps
          \<and> receives [U_Status ''dev.github'' [SA_Messages 10, SA_UidNext 11, SA_UidValidity 1408806928, SA_Unseen 0], U_Exists 4] recv))"

definition parse_ids_w_unilateral :: "(string \<Rightarrow> nat parse_result) \<Rightarrow> bool" where
  "parse_ids_w_unilateral P \<longleftrightarrow>
     parser_test P [search_line, recent_line, status_inbox_line] (parse_ids fifo_ops ''A0001'')
       (unwraps (\<lambda>ids recv. ids = set [23, 42, 4711]
          \<and> receives [U_Recent 1, U_Status ''INBOX'' [SA_Messages 10, SA_UidNext 11, SA_UidValidity 1408806928, SA_Unseen 0]] recv))"

text \<open>The numbers this test expects are those of its two lines, in the same order.\<close>

definition parse_ids_test :: "(string \<Rightarrow> nat parse_result) \<Rightarrow> bool" where
  "parse_ids_test P \<longleftrightarrow>
     parser_test P [search_line_1, search_line_2] (parse_ids fifo_ops ''A0001'')
       (unwraps (\<lambda>ids recv. recv = [] \<and> ids = set (searched_1 @ searched_2)))"

definition parse_ids_search :: "(string \<Rightarrow> nat parse_result) \<Rightarrow> bool" where
  "parse_ids_search P \<longleftrightarrow>
     parser_test P [search_nothing_line] (parse_ids fifo_ops ''A0001'') (unwraps (\<lambda>ids recv. recv = [] \<and> ids = {}))"

definition parse_mailbox_does_not_exist_error :: "(string \<Rightarrow> nat parse_result) \<Rightarrow> bool" where
  "parse_mailbox_does_not_exist_error P \<longleftrightarrow>
     parser_test P [no_such_mailbox_line] (parse_mailbox fifo_ops ''A0003'')
       (\<lambda>mailbox recv. recv = [] \<and> (case mailbox of Err (No _) \<Rightarrow> True | _ \<Rightarrow> False))"

text \<open>The unit test of \<open>src/extensions/id.rs\<close>.\<close>

definition test_format_identification :: bool where
  "test_format_identification \<longleftrightarrow>
     format_identification [(''name'', Some ''MyClient'')]
       = [dquote] @ ''name'' @ [dquote] @ '' '' @ [dquote] @ ''MyClient'' @ [dquote]
   \<and> format_identification [(''name'', Some ([dquote] @ ''MyClient'' @ [dquote, bslash]))]
       = [dquote] @ ''name'' @ [dquote] @ '' '' @ [dquote, bslash, dquote] @ ''MyClient'' @ [bslash, dquote, bslash, bslash, dquote]
   \<and> format_identification [(''name'', Some ''MyClient''), (''version'', Some ''2.0'')]
       = [dquote] @ ''name'' @ [dquote] @ '' '' @ [dquote] @ ''MyClient'' @ [dquote] @ '' ''
         @ [dquote] @ ''version'' @ [dquote] @ '' '' @ [dquote] @ ''2.0'' @ [dquote]
   \<and> format_identification [(''name'', None), (''version'', Some ''2.0'')]
       = [dquote] @ ''name'' @ [dquote] @ '' NIL '' @ [dquote] @ ''version'' @ [dquote] @ '' '' @ [dquote] @ ''2.0'' @ [dquote]"

section \<open>They pass\<close>

text \<open>Every line gives its response.\<close>

lemma try_new_known:
  assumes "speaks P parser_lines" and "(line, r) \<in> set parser_lines"
  shows "try_new P line = Ok (Inr \<lparr>raw = line, parsed = r\<rparr>)"
  using assms by (auto simp: speaks_def try_new_def)

lemma known_lines:
  assumes "speaks P parser_lines"
  shows
    "try_new P capability_line = Ok (Inr \<lparr>raw = capability_line, parsed = R_Capabilities [Ref_Imap4rev1, Ref_Atom ''STARTTLS'', Ref_Auth ''GSSAPI'', Ref_Atom ''LOGINDISABLED'']\<rparr>)"
    "try_new P capability_rev1_line = Ok (Inr \<lparr>raw = capability_rev1_line, parsed = R_Capabilities [Ref_Imap4rev1, Ref_Atom ''STARTTLS'']\<rparr>)"
    "try_new P list_line = Ok (Inr \<lparr>raw = list_line, parsed = R_MailboxData (MD_List [0] (Some ''.'') ''INBOX'')\<rparr>)"
    "try_new P fetch_24_line = Ok (Inr \<lparr>raw = fetch_24_line, parsed = R_Fetch 24 [AV_Flags [seen_flag], AV_Uid 4827943]\<rparr>)"
    "try_new P fetch_25_line = Ok (Inr \<lparr>raw = fetch_25_line, parsed = R_Fetch 25 [AV_Flags [seen_flag]]\<rparr>)"
    "try_new P fetch_37_line = Ok (Inr \<lparr>raw = fetch_37_line, parsed = R_Fetch 37 [AV_Uid 74]\<rparr>)"
    "try_new P recent_line = Ok (Inr \<lparr>raw = recent_line, parsed = R_MailboxData (MD_Recent 1)\<rparr>)"
    "try_new P expunge_line = Ok (Inr \<lparr>raw = expunge_line, parsed = R_Expunge 4\<rparr>)"
    "try_new P status_github_line = Ok (Inr \<lparr>raw = status_github_line, parsed = R_MailboxData (MD_Status ''dev.github'' counted)\<rparr>)"
    "try_new P exists_line = Ok (Inr \<lparr>raw = exists_line, parsed = R_MailboxData (MD_Exists 4)\<rparr>)"
    "try_new P search_line = Ok (Inr \<lparr>raw = search_line, parsed = R_MailboxData (MD_Search [23, 42, 4711])\<rparr>)"
    "try_new P status_inbox_line = Ok (Inr \<lparr>raw = status_inbox_line, parsed = R_MailboxData (MD_Status ''INBOX'' counted)\<rparr>)"
    "try_new P search_line_1 = Ok (Inr \<lparr>raw = search_line_1, parsed = R_MailboxData (MD_Search searched_1)\<rparr>)"
    "try_new P search_line_2 = Ok (Inr \<lparr>raw = search_line_2, parsed = R_MailboxData (MD_Search searched_2)\<rparr>)"
    "try_new P search_nothing_line = Ok (Inr \<lparr>raw = search_nothing_line, parsed = R_MailboxData (MD_Search [])\<rparr>)"
    "try_new P no_such_mailbox_line = Ok (Inr \<lparr>raw = no_such_mailbox_line, parsed = R_Done ''A0003'' Status_No None (Some (''Mailbox doesn'' @ [CHR 0x27] @ ''t exist: DeltaChat (0.001 + 0.140 + 0.139 secs).''))\<rparr>)"
  by (simp_all add: try_new_known [OF assms] parser_lines_def)

lemmas run_test = parser_test_def unwraps_def try_collected_def parse_capabilities_def parse_names_def parse_fetches_def parse_ids_def
  parse_mailbox_def completes_def response_data_request_id_def stream_try_collect.simps names_item_def fetches_item_def Fetch_new_def
  fifo_ops_def handle_unilateral_def send_expect_def receives_def

lemmas look_at_result = has_exactly_def capabilities_len_def has_str_def has_def eq_ignore_ascii_case_def ascii_lower_def
  IMAP4REV1_CAPABILITY_def AUTH_CAPABILITY_PREFIX_def split_at_def is_inbox_def only_seen_def fetch_flags_def fetch_body_def fetch_header_def
  fetch_attrs_def seen_flag_def flag_from_str_def flag_system_def backslash_def is_char_boundary_def utf8_continuation_def

lemma fold_insert: "fold insert xs A = set xs \<union> A"
  by (induction xs arbitrary: A) auto

lemma parse_ids_test_passes: "speaks P parser_lines \<Longrightarrow> parse_ids_test P"
  by (simp add: parse_ids_test_def parser_test_def known_lines parse_ids_def completes_def response_data_request_id_def
      unwraps_def fold_insert fifo_ops_def Un_commute)

text \<open>The junk line is not read, so the test that is to panic does so on its line already.\<close>

lemma parse_capability_invalid_passes:
  "(\<forall>r. P junk_line \<noteq> Parsed [] r) \<Longrightarrow> parse_capability_invalid_test P"
  by (auto simp: parse_capability_invalid_test_def try_new_def split: parse_result.split)

lemma parse_capability_test_passes: "speaks P parser_lines \<Longrightarrow> parse_capability_test P"
  by (simp add: parse_capability_test_def known_lines run_test look_at_result )

lemma parse_capability_case_insensitive_test_passes: "speaks P parser_lines \<Longrightarrow> parse_capability_case_insensitive_test P"
  by (simp add: parse_capability_case_insensitive_test_def known_lines run_test look_at_result )

lemma parse_names_test_passes: "speaks P parser_lines \<Longrightarrow> parse_names_test P"
  by (simp add: parse_names_test_def known_lines run_test look_at_result )

lemma parse_fetches_empty_passes: "speaks P parser_lines \<Longrightarrow> parse_fetches_empty P"
  by (simp add: parse_fetches_empty_def known_lines run_test look_at_result )

lemma parse_fetches_test_passes: "speaks P parser_lines \<Longrightarrow> parse_fetches_test P"
  by (simp add: parse_fetches_test_def known_lines run_test look_at_result )

lemma parse_fetches_w_unilateral_passes: "speaks P parser_lines \<Longrightarrow> parse_fetches_w_unilateral P"
  by (simp add: parse_fetches_w_unilateral_def known_lines run_test look_at_result )

lemma parse_names_w_unilateral_passes: "speaks P parser_lines \<Longrightarrow> parse_names_w_unilateral P"
  by (simp add: parse_names_w_unilateral_def known_lines run_test look_at_result )

lemma parse_capabilities_w_unilateral_passes: "speaks P parser_lines \<Longrightarrow> parse_capabilities_w_unilateral P"
  by (simp add: parse_capabilities_w_unilateral_def known_lines run_test look_at_result counted_def)

lemma parse_ids_w_unilateral_passes: "speaks P parser_lines \<Longrightarrow> parse_ids_w_unilateral P"
  by (simp add: parse_ids_w_unilateral_def known_lines run_test look_at_result counted_def insert_commute)

lemma parse_ids_search_passes: "speaks P parser_lines \<Longrightarrow> parse_ids_search P"
  by (simp add: parse_ids_search_def known_lines run_test look_at_result )

lemma parse_mailbox_does_not_exist_error_passes: "speaks P parser_lines \<Longrightarrow> parse_mailbox_does_not_exist_error P"
  by (simp add: parse_mailbox_does_not_exist_error_def known_lines run_test look_at_result status_completion_def check_status_ok_def)

lemma test_format_identification_passes: test_format_identification
  by (simp add: test_format_identification_def format_identification_def format_pair_def escape_def)

lemmas parser_tests_pass =
  parse_ids_test_passes
  parse_capability_test_passes
  parse_capability_case_insensitive_test_passes
  parse_names_test_passes
  parse_fetches_empty_passes
  parse_fetches_test_passes
  parse_fetches_w_unilateral_passes
  parse_names_w_unilateral_passes
  parse_capabilities_w_unilateral_passes
  parse_ids_w_unilateral_passes
  parse_ids_search_passes
  parse_mailbox_does_not_exist_error_passes

text \<open>The table of the lines is such a parser.\<close>

lemma parser_lines_prefix_free: "prefix_free (map fst parser_lines)"
  by code_simp

lemma parser_lines_table: "speaks (table_parser parser_lines) parser_lines"
  by (rule table_parser_speaks [OF parser_lines_prefix_free])

lemma table_reads_no_junk: "table_parser parser_lines junk_line \<noteq> Parsed [] r"
proof
  assume "table_parser parser_lines junk_line = Parsed [] r"
  from table_parsed [OF parser_lines_prefix_free this] have "junk_line \<in> set (map fst parser_lines)" by force
  moreover have "\<not> List.member (map fst parser_lines) junk_line" by code_simp
  ultimately show False by simp
qed

text \<open>
  The unit tests of \<open>parse.rs\<close>, of \<open>extensions/id.rs\<close> and of the buffer of \<open>imap_stream.rs\<close> pass on the
  model.  The tests
  of the parsers hold for every \<open>imap_proto\<close> that reads their lines as they are meant, and does not read the
  junk line; the others hold as they are, the loop of 499 rounds included.
\<close>

theorem parser_and_buffer_tests_pass:
  assumes "speaks P parser_lines" and "\<forall>r. P junk_line \<noteq> Parsed [] r"
  shows "parse_capability_test P \<and> parse_capability_case_insensitive_test P \<and> parse_capability_invalid_test P
   \<and> parse_names_test P \<and> parse_fetches_empty P \<and> parse_fetches_test P \<and> parse_fetches_w_unilateral P
   \<and> parse_names_w_unilateral P \<and> parse_capabilities_w_unilateral P \<and> parse_ids_w_unilateral P \<and> parse_ids_test P
   \<and> parse_ids_search P \<and> parse_mailbox_does_not_exist_error P
   \<and> succeeds test_buffer_empty \<and> succeeds test_buffer_extend_use \<and> succeeds test_buffer_write_read \<and> succeeds test_buffer_grow
   \<and> succeeds test_buffer_ensure_capacity \<and> succeeds test_ensure_capacity_loop \<and> succeeds test_buffer_take_and_return_block
   \<and> succeeds test_buffer_reset_with_data \<and> test_format_identification"
  using parser_tests_pass [OF assms(1)] parse_capability_invalid_passes [where P = P, OF assms(2)] buffer_tests_pass
    test_format_identification_passes by (intro conjI)

theorem parser_and_buffer_tests_pass_witness:
  "parse_ids_test (table_parser parser_lines) \<and> parse_capability_invalid_test (table_parser parser_lines)"
  using parser_and_buffer_tests_pass [OF parser_lines_table] table_reads_no_junk by blast

end
