(* ===== verification/Large_Fetch.thy ===== *)
theory Large_Fetch
  imports Mock_Client
begin

text \<open>
  The regression test \<open>large_fetch\<close> of \<open>src/client.rs\<close> with its server \<open>handle_client\<close>: a hundred messages,
  each larger than the one before.  The server is run on the lines the client writes, the client on the
  bytes the server answers; the pipe of 4096 bytes between them is the mock transport, which holds all
  the answers from the beginning.
\<close>

section \<open>The server\<close>

text \<open>\<open>AsyncBufReadExt::lines\<close>: a line ends with a line feed, and a carriage return before it is dropped.\<close>

definition strip_cr :: "string \<Rightarrow> string" where
  "strip_cr line = (if line \<noteq> [] \<and> last line = CR then butlast line else line)"

fun lines_from :: "string \<Rightarrow> string \<Rightarrow> string list" where
  "lines_from cur [] = (if cur = [] then [] else [rev cur])"
| "lines_from cur (c # s) = (if c = LF then strip_cr (rev cur) # lines_from [] s else lines_from (c # cur) s)"

fun split_once :: "char \<Rightarrow> string \<Rightarrow> (string \<times> string) option" where
  "split_once x [] = None"
| "split_once x (c # s) = (if c = x then Some ([], s) else map_option (\<lambda>(a, b). (c # a, b)) (split_once x s))"

definition strip_prefix :: "string \<Rightarrow> string \<Rightarrow> string option" where
  "strip_prefix p s = (if take (length p) s = p then Some (drop (length p) s) else None)"

text \<open>\<open>str::parse::<i32>\<close>: an optional sign and digits, within the range of the type; and \<open>Display\<close>.\<close>

definition parse_i32 :: "string \<Rightarrow> int option" where
  "parse_i32 s =
     (let (neg, ds) = (case s of c # s' \<Rightarrow> if c = CHR ''-'' then (True, s') else if c = CHR ''+'' then (False, s') else (False, s)
        | [] \<Rightarrow> (False, []));
          v = (if neg then - int (numeral_value ds) else int (numeral_value ds))
      in if ds \<noteq> [] \<and> list_all (\<lambda>c. 48 \<le> (of_char c :: nat) \<and> (of_char c :: nat) < 58) ds \<and> - (2 ^ 31) \<le> v \<and> v < 2 ^ 31
         then Some v else None)"

definition display_i32 :: "int \<Rightarrow> string" where
  "display_i32 i = (if i < 0 then CHR ''-'' # decimal (nat (- i)) else decimal (nat i))"

definition mail_headers :: string where
  "mail_headers =
     ''From: Bob <bob@example.com>'' @ [CR, LF] @ ''To: Alice <alice@example.org>'' @ [CR, LF] @ ''Subject: Test'' @ [CR, LF]
     @ ''Message-Id: <foobar@example.com>'' @ [CR, LF] @ ''Date: Sun, 22 Mar 2020 00:00:00 +0100'' @ [CR, LF] @ [CR, LF]"

definition mail_line :: string where
  "mail_line = ''012345678901234567890123456789012345678901234567890123456789012345678901'' @ [CR, LF]"

definition mail_body :: "int \<Rightarrow> string" where
  "mail_body i = mail_headers @ concat (replicate (nat (i - 1)) mail_line)"

definition message_response :: "int \<Rightarrow> string" where
  "message_response i =
     (let body = mail_body i; body_len = decimal (length body) in
      ''* '' @ display_i32 i @ '' FETCH (RFC822.SIZE '' @ body_len @ '' BODY[] {'' @ body_len @ ''}'' @ [CR, LF] @ body
      @ '' FLAGS ('' @ [bslash] @ ''Seen))'' @ [CR, LF])"

text \<open>One round of the loop: what is written for a line; every \<open>unwrap\<close> may panic.\<close>

definition serve_line :: "string \<Rightarrow> (string, nat error) outcome" where
  "serve_line line =
     (case split_once (CHR '' '') line of
        Some (request_id, request) \<Rightarrow>
          (case strip_prefix ''FETCH '' request of
             Some args \<Rightarrow>
               (case split_once (CHR '' '') args of
                  Some (i, _) \<Rightarrow>
                    (case parse_i32 i of
                       Some i \<Rightarrow> Ok (message_response i @ request_id @ '' OK FETCH completed'' @ [CR, LF])
                     | None \<Rightarrow> Panic ''called Result::unwrap() on an Err value'')
                | None \<Rightarrow> Panic ''called Option::unwrap() on a None value'')
           | None \<Rightarrow> Panic ''called Option::unwrap() on a None value'')
      | None \<Rightarrow> Panic ''called Option::unwrap() on a None value'')"

fun serve_lines :: "string list \<Rightarrow> (string, nat error) outcome" where
  "serve_lines [] = Ok []"
| "serve_lines (line # lines) = obind (serve_line line) (\<lambda>out. obind (serve_lines lines) (\<lambda>outs. Ok (out @ outs)))"

definition handle_client :: "string \<Rightarrow> (string, nat error) outcome" where
  "handle_client input = serve_lines (lines_from [] input)"

section \<open>What the server answers\<close>

lemma length_mail_body: "length (mail_body i) = 150 + 74 * nat (i - 1)"
  by (simp add: mail_body_def mail_headers_def mail_line_def length_concat sum_list_replicate)

text \<open>
  The body of message \<open>i\<close> is 150 bytes of headers and \<open>i - 1\<close> lines, not 76 bytes and \<open>i\<close> lines as the
  comment has it; the length is the same.
\<close>

lemma length_mail_body_nat: "0 < i \<Longrightarrow> length (mail_body (int i)) = 76 + 74 * i"
  by (cases i) (simp_all add: length_mail_body)

lemma lines_from_line:
  "LF \<notin> set line \<Longrightarrow> lines_from cur (line @ [CR, LF] @ s) = (rev cur @ line) # lines_from [] s"
  by (induction line arbitrary: cur) (auto simp: strip_cr_def)

lemma lines_from_lines:
  "\<forall>l \<in> set ls. LF \<notin> set l \<Longrightarrow> lines_from [] (concat (map (\<lambda>l. l @ [CR, LF]) ls)) = ls"
  by (induction ls) (simp_all add: lines_from_line [where cur = "[]", simplified])

lemma split_once_append: "x \<notin> set a \<Longrightarrow> split_once x (a @ x # b) = Some (a, b)"
  by (induction a) auto

lemma decimal_char: "c \<in> set (decimal n) \<Longrightarrow> 48 \<le> (of_char c :: nat) \<and> (of_char c :: nat) < 58"
  by (auto dest!: decimal_digits simp: digit_char_def)

lemma decimal_no_space: "CHR '' '' \<notin> set (decimal n)"
  by (auto dest: decimal_char)

lemma format_tag_no_space: "CHR '' '' \<notin> set (format_tag n)"
  by (auto simp: format_tag_def pad04_def decimal_no_space)

lemma parse_i32_decimal: "n < 2 ^ 31 \<Longrightarrow> parse_i32 (decimal n) = Some (int n)"
proof -
  assume n: "n < 2 ^ 31"
  obtain c s where cs: "decimal n = c # s" by (cases "decimal n") auto
  have "c \<noteq> CHR ''-''" "c \<noteq> CHR ''+''" using decimal_char [of c n] cs by auto
  moreover have "list_all (\<lambda>c. 48 \<le> (of_char c :: nat) \<and> (of_char c :: nat) < 58) (decimal n)"
    using decimal_char [of _ n] by (auto simp: list_all_iff)
  ultimately show ?thesis
    using n numeral_value_decimal [of n] by (simp add: parse_i32_def cs)
qed

definition fetch_args :: "nat \<Rightarrow> string" where
  "fetch_args i = ''FETCH '' @ decimal i @ '' (RFC822.SIZE BODY.PEEK[] FLAGS)''"

lemma serve_fetch_line:
  assumes "i < 2 ^ 31"
  shows "serve_line (format_tag n @ '' '' @ fetch_args i) =
     Ok (message_response (int i) @ format_tag n @ '' OK FETCH completed'' @ [CR, LF])"
proof -
  have "split_once (CHR '' '') (format_tag n @ '' '' @ fetch_args i) = Some (format_tag n, fetch_args i)"
    using split_once_append [OF format_tag_no_space, of n "fetch_args i"] by simp
  moreover have "strip_prefix ''FETCH '' (fetch_args i) = Some (decimal i @ '' (RFC822.SIZE BODY.PEEK[] FLAGS)'')"
    by (simp add: strip_prefix_def fetch_args_def)
  moreover have "split_once (CHR '' '') (decimal i @ '' (RFC822.SIZE BODY.PEEK[] FLAGS)'') = Some (decimal i, ''(RFC822.SIZE BODY.PEEK[] FLAGS)'')"
    using split_once_append [OF decimal_no_space] by simp
  ultimately show ?thesis using parse_i32_decimal [OF assms] by (simp add: serve_line_def)
qed

section \<open>The client\<close>

text \<open>\<open>try_next().await\<close>: the next element, or the error that is the next element.\<close>

definition try_next :: "('x, 'c, 'x error + 'n) response_stream \<Rightarrow> ('r, 'x, 'c) session
    \<Rightarrow> ('n option \<times> ('x, 'c, 'x error + 'n) response_stream, 'x error) outcome \<times> ('r, 'x, 'c) session" where
  "try_next st =
     (case st of (item, tag, ended) \<Rightarrow>
        parse_answers (\<lambda>sc c.
          (case response_stream_next item tag ended sc c of
             (r, ended', sc', c') \<Rightarrow>
               (obind r (\<lambda>v. case v of
                    None \<Rightarrow> Ok (None, (item, tag, ended'))
                  | Some (Inr n) \<Rightarrow> Ok (Some n, (item, tag, ended'))
                  | Some (Inl e) \<Rightarrow> Err e), sc', c'))))"

type_synonym mock_fetch_session = "(mock_stream, nat, nat unsolicited_response fifo) session"

definition fetch_round :: "nat \<Rightarrow> mock_fetch_session \<Rightarrow> (unit, nat error) outcome \<times> mock_fetch_session" where
  "fetch_round i s =
     bind_out (fetch_messages mock_transport fifo_ops (decimal i) ''(RFC822.SIZE BODY.PEEK[] FLAGS)'' s) (\<lambda>messages_stream s.
     bind_out (try_next messages_stream s) (\<lambda>(fetch, messages_stream) s.
       (case fetch of
          None \<Rightarrow> (Panic ''no FETCH returned'', s)
        | Some fetch \<Rightarrow>
            bind_out (fetch_body fetch, s) (\<lambda>body s.
              (case body of
                 None \<Rightarrow> (Panic ''message did not have a body!'', s)
               | Some body \<Rightarrow>
                   if length body = 76 + 74 * i
                   then bind_out (try_next messages_stream s) (\<lambda>(no_fetch, messages_stream) s.
                          (if no_fetch = None then Ok () else Panic ''assertion failed: no_fetch.is_none()'', s))
                   else (Panic ''assertion failed'', s))))))"

fun fetch_rounds :: "nat list \<Rightarrow> mock_fetch_session \<Rightarrow> (unit, nat error) outcome \<times> mock_fetch_session" where
  "fetch_rounds [] s = (Ok (), s)"
| "fetch_rounds (i # is) s = bind_out (fetch_round i s) (\<lambda>_ s. fetch_rounds is s)"

definition large_fetch :: "(string \<Rightarrow> nat parse_result) \<Rightarrow> mock_stream \<Rightarrow> (unit, nat error) outcome \<times> mock_fetch_session" where
  "large_fetch P client = fetch_rounds [200..<300] (mock_session P client)"

section \<open>They agree\<close>

text \<open>What \<open>imap_proto\<close> is to make of the server's lines.\<close>

definition message_line :: "nat \<Rightarrow> string \<times> nat response" where
  "message_line i = (message_response (int i),
     R_Fetch (of_nat i) [AV_Rfc822Size (of_nat (length (mail_body (int i)))), AV_BodySection None (Some (mail_body (int i))),
       AV_Flags [bslash # ''Seen'']])"

definition fetch_done_line :: "nat \<Rightarrow> string \<times> nat response" where
  "fetch_done_line n = (format_tag n @ '' OK FETCH completed'' @ [CR, LF],
     R_Done (format_tag n) Status_Ok None (Some ''FETCH completed''))"

definition large_lines :: "(string \<times> nat response) list" where
  "large_lines = map message_line [200..<300] @ map fetch_done_line [1..<101]"

text \<open>The lines the client writes after \<open>n\<close> commands, and what the server answers to them.\<close>

fun round_lines :: "nat \<Rightarrow> nat list \<Rightarrow> string list" where
  "round_lines n [] = []"
| "round_lines n (i # is) = (format_tag (Suc n) @ '' '' @ fetch_args i) # round_lines (Suc n) is"

fun round_answers :: "nat \<Rightarrow> nat list \<Rightarrow> (string \<times> nat response) list" where
  "round_answers n [] = []"
| "round_answers n (i # is) = message_line i # fetch_done_line (Suc n) # round_answers (Suc n) is"

lemma serve_round_lines:
  "\<forall>i \<in> set is. i < 2 ^ 31 \<Longrightarrow> serve_lines (round_lines n is) = Ok (concat (map fst (round_answers n is)))"
  by (induction "is" arbitrary: n) (simp_all add: serve_fetch_line [simplified] message_line_def fetch_done_line_def)

lemma round_lines_no_LF: "\<forall>l \<in> set (round_lines n is). LF \<notin> set l"
  by (induction "is" arbitrary: n) (auto simp: fetch_args_def format_tag_no_crlf decimal_no_crlf)

lemma large_lines_set: "set large_lines = message_line ` {200..<300} \<union> fetch_done_line ` {1..<101}"
  by (simp only: large_lines_def set_append set_map set_upt)

lemma round_answers_known:
  "\<forall>i \<in> set is. 200 \<le> i \<and> i < 300 \<Longrightarrow> n + length is \<le> 100 \<Longrightarrow> set (round_answers n is) \<subseteq> set large_lines"
  by (induction "is" arbitrary: n) (auto simp: large_lines_set)

lemma length_round_answers:
  assumes "\<forall>i \<in> set is. 200 \<le> i \<and> i < 300" and "n + length is \<le> 100"
  shows "length (concat (map fst (round_answers n is))) \<le> length is * 30000"
  using assms
proof (induction "is" arbitrary: n)
  case (Cons i "is")
  have "length (decimal i) \<le> 3" "length (decimal (length (mail_body (int i)))) \<le> 5"
    using Cons.prems(1) length_decimal_le [of i 3] length_decimal_le [of "length (mail_body (int i))" 5]
    by (simp_all add: length_mail_body_nat)
  moreover have "length (format_tag (Suc n)) = 5" using Cons.prems(2) by (simp add: length_format_tag)
  ultimately have "length (fst (message_line i)) + length (fst (fetch_done_line (Suc n))) \<le> 30000"
    using Cons.prems(1) by (simp add: message_line_def fetch_done_line_def message_response_def display_i32_def Let_def length_mail_body_nat)
  moreover have "length (concat (map fst (round_answers (Suc n) is))) \<le> length is * 30000"
    using Cons by simp
  ultimately show ?case by simp
qed simp

lemma fetch_round_step:
  assumes s: "mock_user.at s w n (Some (Inr d) # Some (Inr d') # sc)" and n: "n < 9999" and i: "0 < i"
    and d: "parsed d = snd (message_line i)" and d': "parsed d' = snd (fetch_done_line (Suc n))"
  shows "\<exists>s'. fetch_round i s = (Ok (), s') \<and> mock_user.at s' (w @ command_line (Suc n) (fetch_args i)) (Suc n) sc"
proof -
  obtain s1 where s1: "session_run_command mock_transport (fetch_args i) s = (Ok (format_tag (Suc n)), s1)"
    "mock_user.at s1 (w @ command_line (Suc n) (fetch_args i)) (Suc n) (Some (Inr d) # Some (Inr d') # sc)"
    using mock_user.command_step [OF s n] by blast
  have inc: "incoming (conn s1) = Some (Inr d) # Some (Inr d') # sc"
    using s1(2) by (simp add: session_at_def)
  have d1: "parsed d = R_Fetch (of_nat i) [AV_Rfc822Size (of_nat (length (mail_body (int i)))), AV_BodySection None (Some (mail_body (int i))),
       AV_Flags [bslash # ''Seen'']]" and d2: "completes (format_tag (Suc n)) d'" "\<not> completes (format_tag (Suc n)) d"
    using d d' by (simp_all add: message_line_def fetch_done_line_def completes_iff)
  show ?thesis
    using s1 i
    by (simp add: fetch_round_def fetch_messages_def fetch_args_def try_next_def parse_fetches_def parse_answers_def on_incoming_def inc
        d1 d2 fetches_item_def Fetch_new_def fetch_body_def fetch_attrs_def length_mail_body_nat session_at_def)
qed

lemma fetch_rounds_run:
  assumes "mock_user.at s w n (responses ds @ sc)" and "map parsed ds = map snd (round_answers n is)"
    and "\<forall>i \<in> set is. 0 < i" and "n + length is < 9999"
  shows "\<exists>s'. fetch_rounds is s = (Ok (), s')
     \<and> mock_user.at s' (w @ concat (map (\<lambda>l. l @ [CR, LF]) (round_lines n is))) (n + length is) sc"
  using assms
proof (induction "is" arbitrary: n s w ds)
  case (Cons i "is")
  from Cons.prems(2) obtain d d' ds' where ds: "ds = d # d' # ds'" "parsed d = snd (message_line i)"
    "parsed d' = snd (fetch_done_line (Suc n))" "map parsed ds' = map snd (round_answers (Suc n) is)"
    by (auto simp: map_eq_Cons_conv)
  from Cons.prems(1) ds(1) have "mock_user.at s w n (Some (Inr d) # Some (Inr d') # responses ds' @ sc)" by simp
  from fetch_round_step [OF this _ _ ds(2,3)] Cons.prems(3,4)
  obtain s1 where s1: "fetch_round i s = (Ok (), s1)"
    "mock_user.at s1 (w @ command_line (Suc n) (fetch_args i)) (Suc n) (responses ds' @ sc)" by auto
  from Cons.IH [OF s1(2) ds(4)] Cons.prems(3,4) s1(1) show ?case
    by (simp add: command_line_def)
qed simp

lemma mock_session_at: "mock_user.at (mock_session P (MockStream_new bytes)) [] 0 (mock_answers P (MockStream_new bytes))"
  by (simp add: session_at_def mock_session_def mock_client_def Session_new_def Client_new_def ImapStream_new_def fresh_mock
      IdGenerator_new_def fifo_ops_def)

text \<open>A parser that reads these lines: any two of them differ in their first five bytes.\<close>

lemma prefix_free_by_heads:
  "distinct (map (take k) ls) \<Longrightarrow> \<forall>l \<in> set ls. k \<le> length l \<Longrightarrow> 0 < k \<Longrightarrow> prefix_free ls"
proof (induction ls)
  case (Cons l ls)
  have "\<not> comparable l m" if "m \<in> set ls" for m
  proof
    assume "comparable l m"
    with Cons.prems(2) that have "take k l = take k m" by (auto simp: comparable_iff begins_iff)
    with Cons.prems(1) that show False by (simp add: image_iff) metis
  qed
  with Cons show ?case by (auto simp: list_all_iff)
qed simp

lemma length_decimal_3: "100 \<le> i \<Longrightarrow> i < 1000 \<Longrightarrow> length (decimal i) = 3"
proof -
  assume "100 \<le> i" and "i < 1000"
  then have "\<not> i < 10" "\<not> i div 10 < 10" "i div 10 div 10 < 10" by linarith+
  then show ?thesis by (simp add: decimal.simps)
qed

lemma message_line_head: "200 \<le> i \<Longrightarrow> i < 300 \<Longrightarrow> take 5 (fst (message_line i)) = ''* '' @ decimal i \<and> 5 \<le> length (fst (message_line i))"
  by (simp add: message_line_def message_response_def display_i32_def Let_def length_decimal_3)

lemma fetch_done_line_head: "n < 10000 \<Longrightarrow> take 5 (fst (fetch_done_line n)) = format_tag n \<and> 5 \<le> length (fst (fetch_done_line n))"
  by (simp add: fetch_done_line_def length_format_tag)

lemma large_lines_prefix_free: "prefix_free (map fst large_lines)"
proof (rule prefix_free_by_heads)
  have "take 5 (fst (message_line i)) = ''* '' @ decimal i" if "i \<in> set [200..<300]" for i
    using that message_line_head unfolding set_upt atLeastLessThan_iff by blast
  moreover have "take 5 (fst (fetch_done_line n)) = format_tag n" if "n \<in> set [1..<101]" for n
    using that fetch_done_line_head [of n] unfolding set_upt atLeastLessThan_iff by linarith
  ultimately have "map (take 5) (map fst large_lines) = map (\<lambda>i. ''* '' @ decimal i) [200..<300] @ map format_tag [1..<101]"
    unfolding large_lines_def map_append map_map comp_def by (simp only: cong: map_cong)
  moreover have "inj_on (\<lambda>i. ''* '' @ decimal i) A" "inj_on format_tag B" "(\<lambda>i. ''* '' @ decimal i) ` A \<inter> format_tag ` B = {}"
    for A B :: "nat set" by (auto simp: inj_on_def format_tag_inj) (simp add: format_tag_def)
  ultimately show "distinct (map (take 5) (map fst large_lines))"
    by (simp only: distinct_append distinct_map distinct_upt set_map set_upt simp_thms)
  show "\<forall>l \<in> set (map fst large_lines). 5 \<le> length l"
    using message_line_head fetch_done_line_head by (auto simp: large_lines_set)
qed simp

text \<open>
  C10: the regression test \<open>large_fetch\<close>.  For every parser that keeps the contract of a streaming parser
  and reads the server's hundred messages of up to 22 kB and the completions as they are meant, the
  test returns without a panic: fetch after fetch yields one message with a body of the expected
  length and then the end.  The server answers to the lines the client has written are the bytes
  the client has read, so both sides of the conversation fit.
\<close>

theorem large_fetch_passes:
  assumes "parser_contract P" and "speaks P large_lines"
  shows "\<exists>input output s. handle_client input = Ok output
     \<and> large_fetch P (MockStream_new output) = (Ok (), s) \<and> wrote (conn s) input"
proof -
  let ?said = "round_answers 0 [200..<300]"
  let ?input = "concat (map (\<lambda>l. l @ [CR, LF]) (round_lines 0 [200..<300]))"
  let ?output = "concat (map fst ?said)"
  have "\<forall>i \<in> set [200..<300]. i < (2 ^ 31 :: nat)" unfolding set_upt by auto
  from serve_round_lines [OF this] have served: "handle_client ?input = Ok ?output"
    by (simp only: handle_client_def lines_from_lines [OF round_lines_no_LF])
  have range: "\<forall>i \<in> set [200..<300]. 200 \<le> i \<and> i < (300::nat)" unfolding set_upt by auto
  have few: "0 + length [200..<300] \<le> 100" unfolding length_upt by simp
  have "length ?output < MAX_CAPACITY"
    using length_round_answers [OF range few] by (simp only: MAX_CAPACITY_def length_upt)
  then obtain ds later where ds: "mock_answers P (MockStream_new ?output) = responses ds @ later" "map parsed ds = map snd ?said"
    using mock_answers_said [OF assms round_answers_known [OF range few], of "MockStream_new ?output"] fresh_mock by metis
  have start: "mock_user.at (mock_session P (MockStream_new ?output)) [] 0 (responses ds @ later)"
    using mock_session_at [of P ?output] by (simp only: ds(1))
  have pos: "\<forall>i \<in> set [200..<300]. 0 < (i::nat)" unfolding set_upt by auto
  have "0 + length [200..<300] < 9999" unfolding length_upt by simp
  from fetch_rounds_run [OF start ds(2) pos this]
  obtain s where "large_fetch P (MockStream_new ?output) = (Ok (), s)" "wrote (conn s) ?input"
    unfolding large_fetch_def session_at_def wrote_def by auto
  with served show ?thesis by blast
qed

theorem large_fetch_passes_witness:
  "\<exists>input output s. handle_client input = Ok output
     \<and> large_fetch (table_parser large_lines) (MockStream_new output) = (Ok (), s) \<and> wrote (conn s) input"
  by (rule large_fetch_passes [OF table_parser_contract [OF large_lines_prefix_free] table_parser_speaks [OF large_lines_prefix_free]])

end
