(* ===== verification/Spec2Isabelle.thy ===== *)
theory Spec2Isabelle
  imports Id_Generator Capabilities Quota Fetch Reply_Loop Parse Parse_Mailbox Response_Streams
    Buffer Imap_Stream Mock_Stream Commands Connection Session Idle Session_Invariant End_To_End
    Session_Triples Command_Lines Examples Inbox_Tests Client_Tests Parse_Tests Large_Fetch
begin

text \<open>
  A verification development for \<^bold>\<open>async-imap\<close>, an asynchronous IMAP client in Rust.  Paths are
  below \<open>src/src\<close> of the repository, those of the example programs below \<open>src\<close>.

  \<^bold>\<open>The program.\<close>  A \<open>Client\<close> wraps a transport; \<open>login\<close> or \<open>authenticate\<close> turns it into a \<open>Session\<close>,
  whose methods send one command each and read its answers (\<open>client.rs\<close>).  Both use a \<open>Connection\<close>,
  an \<open>ImapStream\<close> with a generator of tags.  The \<open>ImapStream\<close> (\<open>imap_stream.rs\<close>) reads bytes from the
  transport into a growing buffer and lets the \<open>imap_proto\<close> crate parse responses out of it; it
  writes requests.  The answers of a command go through the parsers of \<open>parse.rs\<close> and \<open>extensions/\<close>,
  which read until the tagged completion, keep what belongs to the command and hand everything
  else over to the session's bounded channel of unsolicited responses.  \<open>IDLE\<close> borrows the session
  for a handle (\<open>extensions/idle.rs\<close>).

  \<^bold>\<open>The theories.\<close>
    \<^item> \<open>Prelude\<close>: results of computations (\<open>Ok\<close>, \<open>Err\<close>, \<open>Panic\<close>, \<open>Pending\<close>), their sequencing, byte strings,
      checked \<open>usize\<close>, decimal numerals.
    \<^item> \<open>Imap_Types\<close>: the vocabulary: responses as the crate's patterns see them, \<open>ResponseData\<close>, \<open>Request\<close>,
      the errors of \<open>error.rs\<close>, scripts of answers, \<open>filter_sync\<close>.
    \<^item> \<open>Id_Generator\<close> (\<open>types/id_generator.rs\<close>), \<open>Flag_Mailbox\<close> (\<open>types/mod.rs\<close>, \<open>types/mailbox.rs\<close>), \<open>Capabilities\<close>,
      \<open>Quota\<close>, \<open>Fetch\<close> (\<open>types/capabilities.rs\<close>, \<open>quota.rs\<close>, \<open>fetch.rs\<close>, \<open>name.rs\<close>): the data the user gets.
    \<^item> \<open>Buffer\<close>, \<open>Imap_Stream\<close> (\<open>imap_stream.rs\<close>): the buffer and its capacity, \<open>decode\<close>, the loop of \<open>poll_next\<close>
      as rounds \<open>poll_step\<close>, \<open>encode\<close>.  \<open>Mock_Stream\<close> (\<open>mock_stream.rs\<close>): the transport of the crate's
      tests under both runtimes, which keeps the laws of the transport interfaces.
    \<^item> \<open>Unsolicited\<close>: the channel and \<open>handle_unilateral\<close>.  \<open>Reply_Loop\<close>: the contract of the parsers.  \<open>Parse\<close>,
      \<open>Parse_Mailbox\<close>, \<open>Response_Streams\<close>: the parsers of \<open>parse.rs\<close>, \<open>extensions/quota.rs\<close> and \<open>extensions/id.rs\<close>.
    \<^item> \<open>Commands\<close>: \<open>quote!\<close>, \<open>validate_str\<close>, \<open>format_identification\<close>, and a reader of quoted strings.
    \<^item> \<open>Connection\<close>, \<open>Session\<close> (\<open>client.rs\<close>): one definition per method.  \<open>Idle\<close> (\<open>extensions/idle.rs\<close>).
    \<^item> \<open>Session_Invariant\<close>: the life of a session as a transition system over all its methods, the streams they
      return and the idle handle, with its invariant, its progress, and the one way it can panic.
      \<open>Command_Lines\<close>: the line every command puts on the wire.  \<open>End_To_End\<close>: the parsers run on the
      stream itself, one answer at a time as they wait, with \<open>SELECT\<close> from the bytes of the server on.
    \<^item> \<open>Session_Triples\<close>: where a session is between two commands, and one step lemma per command a program
      uses.  \<open>Examples\<close> (\<open>examples/src/bin\<close>): the example programs and integration tests over a network that is
      a parameter; \<open>Inbox_Tests\<close>: the two integration tests that send mail and read the channel.
    \<^item> \<open>Scripted_Parser\<close>, \<open>Mock_Client\<close>: the harness of the unit tests.  \<open>Client_Tests\<close>, \<open>Parse_Tests\<close> (with the test
      of \<open>extensions/id.rs\<close>), \<open>Stream_Tests\<close>: the unit tests of \<open>client.rs\<close>, \<open>parse.rs\<close> and \<open>imap_stream.rs\<close> as predicates
      over the parser.  \<open>Large_Fetch\<close>: the regression test of \<open>client.rs\<close> with its hundred growing messages, and
      the server it talks to.

  \<^bold>\<open>State and effects.\<close>  Structs are records, passed and returned; enums are datatypes; \<open>u32\<close> and \<open>u64\<close>
  are words; strings and byte vectors are lists of 8-bit characters.  An \<open>async fn\<close> is a function
  from the state and the events it may still see to its result and the state it leaves:
  \<open>Pending\<close> says that it waits when they are used up.  What \<open>stream.next().await\<close> yields is a
  script of answers (a response, an I/O error, the end); below it, \<open>poll_next\<close> is modelled in full
  over the bytes of a transport.  Arithmetic on counters and sizes panics on overflow, and
  \<open>debug_assert!\<close> is checked, as in a build with debug assertions.

  \<^bold>\<open>Interfaces.\<close>  The locales state what one part relies on: \<open>byte_source\<close>, \<open>eager_source\<close>, \<open>byte_sink\<close>,
  \<open>live_sink\<close>, \<open>command_sink\<close> (the transport; interpreted by the mock transport), \<open>reply_loop\<close>,
  \<open>accumulating_loop\<close>, \<open>filtering_loop\<close> (a parser that reads until the completion; interpreted by
  every parser and by the wait for a completion), \<open>item_stream\<close> (the parsers that return a stream),
  \<open>answer_parser\<close> (what all of these promise to the session) and \<open>demand_parser\<close> (they settle when an answer
  ends them, and then depend on no later answer; every loop and stream is one by \<open>sublocale\<close>),
  \<open>session_user\<close> (the world of a program with a session) and \<open>test_server\<close> (the parser on the tests' lines).
  The predicates \<open>channel_contract\<close> and \<open>parser_contract\<close> state the documented behaviour of
  \<open>async_channel\<close> and of \<open>imap_proto\<close>'s streaming parser.

  \<^bold>\<open>What is shown.\<close>  For the stream: the buffer's invariant and bounds, that \<open>poll_next\<close> ends, never
  panics, loses no byte and yields the same responses however the bytes arrive, that \<open>encode\<close>
  writes exactly the request.  For every parser: its result as a function of the answers up to the
  completion, and that all other answers reach the channel in order.  For the commands: what they
  put on the wire, what they return, and that arguments with line ends are refused where they are
  validated.  For logging in and idling: the whole exchange.  For
  a session as a whole, as long as the user leaves the receiver of the unsolicited responses in place:
  in every reachable state the channel is open and holds at most 100 messages, answers are read once
  and in order, what reaches the user is taken from them in order, no method panics before the
  counter of tags overflows, and every method returns once the completion of its command, an error or
  the end has arrived.  The receiver is a public field; once the user has closed or replaced it, a
  method panics when it has something to hand over and the channel has room, and for no other reason
  (\<open>user_step\<close>, \<open>session_panics_only_closed\<close>).  The user acts between the calls: a clone of the receiver
  that is used while a call waits is not in the model.  The stream and the parser of \<open>SELECT\<close> compose: from the
  bytes of the server to the result and the bytes left unread, however they are cut into reads.  The
  example programs: every line they write and what they return, command by command.  The unit tests
  pass on the model, \<open>large_fetch\<close> against its own server.  For the data: round trips, bounds,
  and the exact inputs on which the accessors panic.

  \<^bold>\<open>Loops and bounds.\<close>  Loops over answers recurse on the script.  \<open>poll_loop\<close> is total for every transport
  and parser by the measure \<open>headroom\<close>, the distance of the data in the buffer from the maximal
  capacity of 512 MiB; \<open>write_all\<close> by the bytes left; \<open>stream_collect\<close> by the script.  The model uses no
  fuel; \<open>mock_answers\<close> takes as many answers of the test transport as it has bytes, and one, which is
  enough since every response takes a byte.

  \<^bold>\<open>Not modelled.\<close>  Third-party code is a parameter: the transport and the write extension traits of the
  runtimes below \<open>poll_write\<close>, the parser of \<open>imap_proto\<close>, the bounded channel, \<open>base64\<close>, \<open>chrono\<close>, the
  user's authenticator (the trait in \<open>authenticator.rs\<close>).  Timers and stop tokens are events.  The text
  of error messages is kept as its arguments.  \<open>Deref\<close>, \<open>AsMut\<close>, \<open>Pin\<close> and \<open>Debug\<close> implementations carry no
  behaviour of their own.  \<open>lib.rs\<close> and \<open>extensions/mod.rs\<close> have only declarations.
  Of the examples, printing is left out; network, SMTP library, the views of an envelope, environment and the
  interrupting task are parameters.
\<close>

end
